(* ===== verification/XD_Prelude.thy ===== *)
theory XD_Prelude
  imports Main "HOL-Library.Word" "HOL-Library.Monad_Syntax"
begin

text \<open>
  Shared vocabulary of the development: the fixed-width integers of the C sources, memory blocks
  as byte lists with bounds-checked access, C strings, little-endian encodings, decimal printing
  and the latency arithmetic on \<open>struct timespec\<close>.

  Conventions used by every theory.
  \<^item> An operation that performs memory accesses has a result of type \<open>'a option\<close>, where
    \<open>None\<close> is undefined behaviour of the C program (an access outside a block, a call through a
    null pointer, a dereference of a dangling pointer).  Error codes are ordinary results.
  \<^item> A pointer argument that the code compares with \<open>NULL\<close> is an \<open>option\<close>.
  \<^item> Strings are \<open>char list\<close>s without the terminating zero byte.
\<close>

unbundle bit_operations_syntax

type_synonym byte = "8 word"
type_synonym u16 = "16 word"
type_synonym u32 = "32 word"
type_synonym u64 = "64 word"

named_theorems mem_simps \<open>rules for bounds-checked access to memory blocks\<close>
named_theorems layout_simps \<open>rules for the byte layout of the on-disk structures\<close>

section \<open>Machine words\<close>

lemma unat_add_no_wrap:
  fixes a b :: u64
  assumes "unat a + unat b < 2 ^ 64"
  shows "unat (a + b) = unat a + unat b"
  using assms by (simp add: unat_word_ariths)

lemma unat_sub_no_wrap:
  fixes a b :: u64
  assumes "b \<le> a"
  shows "unat (a - b) = unat a - unat b"
  using assms by (simp add: unat_sub)

lemma unat_u64_bound [simp]: "unat (a :: u64) < 18446744073709551616"
  using unsigned_less [of a] by simp

lemma unat_u32_bound [simp]: "unat (a :: u32) < 4294967296"
  using unsigned_less [of a] by simp

lemma unat_Suc_no_wrap:
  fixes a :: "'a::len word"
  assumes "Suc (unat a) < 2 ^ LENGTH('a)"
  shows "unat (a + 1) = Suc (unat a)"
  using assms by (simp add: unat_word_ariths)

section \<open>Memory blocks\<close>

text \<open>
  \<open>overlay m off d\<close> is the block \<open>m\<close> after \<open>d\<close> was copied to it at \<open>off\<close>.
  \<open>mem_write\<close>, \<open>mem_read\<close> and \<open>mem_fill\<close> are \<open>memcpy\<close> to a block, \<open>memcpy\<close> from
  a block and \<open>memset\<close>; they fail when the access leaves the block.
\<close>

definition overlay :: "'a list \<Rightarrow> nat \<Rightarrow> 'a list \<Rightarrow> 'a list" where
  "overlay m off d = take off m @ d @ drop (off + length d) m"

definition mem_write :: "'a list \<Rightarrow> nat \<Rightarrow> 'a list \<Rightarrow> 'a list option" where
  "mem_write m off d = (if off + length d \<le> length m then Some (overlay m off d) else None)"

definition mem_read :: "'a list \<Rightarrow> nat \<Rightarrow> nat \<Rightarrow> 'a list option" where
  "mem_read m off n = (if off + n \<le> length m then Some (take n (drop off m)) else None)"

definition mem_fill :: "'a list \<Rightarrow> nat \<Rightarrow> nat \<Rightarrow> 'a \<Rightarrow> 'a list option" where
  "mem_fill m off n v = mem_write m off (replicate n v)"

lemma length_overlay [simp]:
  "off + length d \<le> length m \<Longrightarrow> length (overlay m off d) = length m"
  by (simp add: overlay_def)

lemma overlay_nth:
  assumes "off + length d \<le> length m" and "i < length m"
  shows "overlay m off d ! i = (if off \<le> i \<and> i < off + length d then d ! (i - off) else m ! i)"
  using assms by (auto simp: overlay_def nth_append min_def)

lemma mem_write_Some_iff [mem_simps]:
  "mem_write m off d = Some m' \<longleftrightarrow> off + length d \<le> length m \<and> m' = overlay m off d"
  by (auto simp: mem_write_def)

lemma mem_write_None_iff [mem_simps]:
  "mem_write m off d = None \<longleftrightarrow> length m < off + length d"
  by (auto simp: mem_write_def)

lemma mem_read_Some_iff [mem_simps]:
  "mem_read m off n = Some d \<longleftrightarrow> off + n \<le> length m \<and> d = take n (drop off m)"
  by (auto simp: mem_read_def)

lemma mem_read_None_iff [mem_simps]:
  "mem_read m off n = None \<longleftrightarrow> length m < off + n"
  by (auto simp: mem_read_def)

lemma mem_fill_Some_iff [mem_simps]:
  "mem_fill m off n v = Some m' \<longleftrightarrow> off + n \<le> length m \<and> m' = overlay m off (replicate n v)"
  by (auto simp: mem_fill_def mem_write_def)

lemma mem_write_ok [simp]:
  "off + length d \<le> length m \<Longrightarrow> mem_write m off d = Some (overlay m off d)"
  by (simp add: mem_write_def)

lemma mem_read_ok [simp]:
  "off + n \<le> length m \<Longrightarrow> mem_read m off n = Some (take n (drop off m))"
  by (simp add: mem_read_def)

lemma mem_fill_ok [simp]:
  "off + n \<le> length m \<Longrightarrow> mem_fill m off n v = Some (overlay m off (replicate n v))"
  by (simp add: mem_fill_def)

lemma take_drop_overlay_same [simp]:
  "off + length d \<le> length m \<Longrightarrow> take (length d) (drop off (overlay m off d)) = d"
  by (simp add: overlay_def)

lemma take_overlay_before [simp]:
  "n \<le> off \<Longrightarrow> off \<le> length m \<Longrightarrow> take n (overlay m off d) = take n m"
  by (simp add: overlay_def)

lemma overlay_0_all [simp]: "length d = length m \<Longrightarrow> overlay m 0 d = d"
  by (simp add: overlay_def)

lemma overlay_Nil [simp]: "overlay m off [] = m"
  by (simp add: overlay_def)

lemma take_overlay_upto:
  "off + length d \<le> length m \<Longrightarrow> take (off + length d) (overlay m off d) = take off m @ d"
  by (simp add: overlay_def)

lemma overlay_take:
  assumes "off + length d \<le> n" and "n \<le> length m"
  shows "take n (overlay m off d) = overlay (take n m) off d"
proof -
  have "n - off - length d = n - (off + length d)" by simp
  moreover have "off \<le> n" using assms(1) by simp
  ultimately show ?thesis
    using assms by (simp add: overlay_def take_drop)
qed

section \<open>Arrays\<close>

text \<open>Element access that fails outside the array.\<close>

definition at :: "'a list \<Rightarrow> nat \<Rightarrow> 'a option" where
  "at xs i = (if i < length xs then Some (xs ! i) else None)"

definition put_at :: "'a list \<Rightarrow> nat \<Rightarrow> 'a \<Rightarrow> 'a list option" where
  "put_at xs i v = (if i < length xs then Some (xs[i := v]) else None)"

lemma at_Some_iff [simp]: "at xs i = Some v \<longleftrightarrow> i < length xs \<and> xs ! i = v"
  by (auto simp: at_def)

lemma at_less [simp]: "i < length xs \<Longrightarrow> at xs i = Some (xs ! i)"
  by simp

lemma put_at_less [simp]: "i < length xs \<Longrightarrow> put_at xs i v = Some (xs[i := v])"
  by (simp add: put_at_def)

section \<open>C strings\<close>

text \<open>
  \<open>c_strncpy n s\<close> is the string that \<open>strncpy(dst, s, n)\<close> leaves in a zero-filled buffer
  of more than \<open>n\<close> bytes; \<open>c_snprintf n s\<close> is what \<open>snprintf(dst, n, ...)\<close> leaves of the
  formatted text \<open>s\<close>.
\<close>

definition c_strncpy :: "nat \<Rightarrow> string \<Rightarrow> string" where
  "c_strncpy n s = take n s"

definition c_snprintf :: "nat \<Rightarrow> string \<Rightarrow> string" where
  "c_snprintf n s = take (n - 1) s"

lemma c_strncpy_short [simp]: "length s \<le> n \<Longrightarrow> c_strncpy n s = s"
  by (simp add: c_strncpy_def)

lemma length_c_strncpy: "length (c_strncpy n s) \<le> n"
  by (simp add: c_strncpy_def)

lemma c_snprintf_short [simp]: "length s < n \<Longrightarrow> c_snprintf n s = s"
  by (simp add: c_snprintf_def)

lemma length_c_snprintf: "0 < n \<Longrightarrow> length (c_snprintf n s) < n"
  by (auto simp: c_snprintf_def)

subsection \<open>Decimal printing (the \<open>%lu\<close> conversion)\<close>

definition dec_digit :: "nat \<Rightarrow> char" where
  "dec_digit d = char_of (48 + d)"

fun dec_string :: "nat \<Rightarrow> string" where
  "dec_string n = (if n < 10 then [dec_digit n] else dec_string (n div 10) @ [dec_digit (n mod 10)])"

declare dec_string.simps [simp del]

lemma dec_digit_inj: "a < 10 \<Longrightarrow> b < 10 \<Longrightarrow> dec_digit a = dec_digit b \<longleftrightarrow> a = b"
  by (simp add: dec_digit_def char_of_eq_iff take_bit_eq_mod of_char_mod_256)

lemma dec_string_snoc:
  "dec_string n = (if n < 10 then [] else dec_string (n div 10)) @ [dec_digit (n mod 10)]"
  by (subst dec_string.simps) simp

lemma dec_string_not_Nil [simp]: "dec_string n \<noteq> []"
  by (subst dec_string_snoc) simp

lemma Nil_neq_dec_string [simp]: "[] \<noteq> dec_string n"
  using dec_string_not_Nil [of n] by metis

lemma dec_string_inj: "dec_string a = dec_string b \<longleftrightarrow> a = b"
proof (induction a arbitrary: b rule: less_induct)
  case (less a)
  have eq: "dec_string a = dec_string b \<longleftrightarrow>
      (if a < 10 then [] else dec_string (a div 10)) = (if b < 10 then [] else dec_string (b div 10))
      \<and> a mod 10 = b mod 10"
    by (subst (1 2) dec_string_snoc) (simp add: dec_digit_inj)
  show ?case
  proof (cases "a < 10")
    case True
    then show ?thesis unfolding eq by auto
  next
    case False
    then have "a div 10 < a" by simp
    then have IH: "dec_string (a div 10) = dec_string (b div 10) \<longleftrightarrow> a div 10 = b div 10"
      by (rule less.IH)
    show ?thesis
      unfolding eq using False IH by (auto, metis div_mult_mod_eq)
  qed
qed

lemma length_dec_string: "n < 10 ^ Suc k \<Longrightarrow> length (dec_string n) \<le> Suc k"
proof (induction k arbitrary: n)
  case 0
  then show ?case by (subst dec_string.simps) simp
next
  case (Suc k)
  show ?case
  proof (cases "n < 10")
    case True
    then show ?thesis by (subst dec_string.simps) simp
  next
    case False
    from Suc.prems have "n div 10 < 10 ^ Suc k" by (simp add: less_mult_imp_div_less)
    then have "length (dec_string (n div 10)) \<le> Suc k" by (rule Suc.IH)
    with False show ?thesis by (subst dec_string.simps) simp
  qed
qed

lemma length_dec_string_u64: "length (dec_string (unat (w :: u64))) \<le> 20"
proof -
  have "unat w < 10 ^ Suc 19"
    using unat_u64_bound [of w] by (simp del: unat_u64_bound)
  then show ?thesis using length_dec_string [of "unat w" 19] by simp
qed

section \<open>Little-endian encodings\<close>

text \<open>The representation of unsigned integers on the target (x86-64).\<close>

definition le_bytes :: "nat \<Rightarrow> 'a::len word \<Rightarrow> byte list" where
  "le_bytes n w = map (\<lambda>i. ucast (drop_bit (8 * i) w)) [0..<n]"

definition of_le :: "byte list \<Rightarrow> 'a::len word" where
  "of_le bs = foldr (\<lambda>b w. ucast b OR push_bit 8 w) bs 0"

lemma length_le_bytes [simp]: "length (le_bytes n w) = n"
  by (simp add: le_bytes_def)

lemma of_le_Cons: "of_le (b # bs) = ucast b OR push_bit 8 (of_le bs)"
  by (simp add: of_le_def)

lemma le_bytes_Suc: "le_bytes (Suc n) w = ucast w # le_bytes n (drop_bit 8 w)"
  by (simp add: le_bytes_def upt_conv_Cons map_Suc_upt [symmetric] add.commute del: upt_Suc)

lemma bit_of_le:
  "bit (of_le bs :: 'a::len word) n \<longleftrightarrow>
     n < LENGTH('a) \<and> n < 8 * length bs \<and> bit (bs ! (n div 8)) (n mod 8)"
proof (induction bs arbitrary: n)
  case Nil
  then show ?case by (simp add: of_le_def)
next
  case (Cons b bs)
  show ?case
  proof (cases "n < 8")
    case True
    then show ?thesis by (auto simp: of_le_Cons bit_simps)
  next
    case False
    then obtain m where m: "n = m + 8" by (metis add.commute le_Suc_ex not_less)
    have div8: "(m + 8) div 8 - Suc 0 = m div 8" by simp
    have "\<not> bit b n" using False by (auto dest: bit_imp_le_length)
    then show ?thesis
      using False Cons.IH [of m] div8 by (auto simp: of_le_Cons bit_simps m)
  qed
qed

lemma of_le_le_bytes:
  fixes w :: "'a::len word"
  assumes "LENGTH('a) \<le> 8 * n"
  shows "of_le (le_bytes n w) = w"
proof (rule bit_word_eqI)
  fix k assume k: "k < LENGTH('a)"
  then have "k div 8 < n" using assms by (simp add: less_mult_imp_div_less)
  then show "bit (of_le (le_bytes n w) :: 'a word) k = bit w k"
    using k assms by (auto simp: bit_of_le le_bytes_def bit_simps)
qed

lemma of_le_u32 [simp, layout_simps]: "of_le (le_bytes 4 (w :: u32)) = w"
  by (rule of_le_le_bytes) simp

lemma of_le_u64 [simp, layout_simps]: "of_le (le_bytes 8 (w :: u64)) = w"
  by (rule of_le_le_bytes) simp

lemma le_bytes_inject32: "le_bytes 4 (a :: u32) = le_bytes 4 b \<longleftrightarrow> a = b"
  by (metis of_le_u32)

section \<open>Clock readings\<close>

text \<open>
  \<open>struct timespec\<close>: two signed 64-bit fields, kept as their bit patterns because the code does
  all its arithmetic on them in \<open>uint64_t\<close>.
\<close>

record timespec =
  tv_sec :: u64
  tv_nsec :: u64

definition latency_ns :: "timespec \<Rightarrow> timespec \<Rightarrow> u64" where
  "latency_ns start fin =
     (tv_sec fin - tv_sec start) * 1000000000 + (tv_nsec fin - tv_nsec start)"

text \<open>The nanoseconds a clock reading stands for.\<close>

definition timespec_ns :: "timespec \<Rightarrow> nat" where
  "timespec_ns t = unat (tv_sec t) * 1000000000 + unat (tv_nsec t)"

lemma latency_ns_eq_of_nat:
  assumes "timespec_ns start \<le> timespec_ns fin"
  shows "latency_ns start fin = of_nat (timespec_ns fin - timespec_ns start)"
  using assms
  by (simp add: latency_ns_def timespec_ns_def of_nat_diff algebra_simps)

end
