(* ===== verification/XD_Types.thy ===== *)
theory XD_Types
  imports XD_Prelude
begin

text \<open>
  The public data types of \<open>include/xdevice.h\<close> and \<open>include/storage_interface.h\<close>: error
  codes, node states, backend types, the statistics record and the object part of
  \<open>storage_interface_t\<close> (type, name and private data).  The table of function pointers of that
  structure is added in theory \<open>XD_Iface\<close>.
\<close>

section \<open>Constants and enumerations\<close>

definition XDEVICE_MAX_NODES :: nat where
  "XDEVICE_MAX_NODES = 64"

definition XDEVICE_MAX_NODE_ID_LEN :: nat where
  "XDEVICE_MAX_NODE_ID_LEN = 64"

definition XDEVICE_MAX_DEVICE_NAME_LEN :: nat where
  "XDEVICE_MAX_DEVICE_NAME_LEN = 128"

definition XDEVICE_WAL_BUFFER_SIZE :: nat where
  "XDEVICE_WAL_BUFFER_SIZE = 64 * 1024 * 1024"

definition MAX_STORAGE_BACKENDS :: nat where
  "MAX_STORAGE_BACKENDS = 8"

definition MAX_PATH_LEN :: nat where
  "MAX_PATH_LEN = 512"

text \<open>
  The codes of \<open>xdevice_error_t\<close>.  \<open>XDEVICE_ERROR_NO_SPACE\<close> is returned by
  \<open>mock_storage_write_sync\<close> but the header does not declare it; it is kept here as one more
  code, different from the declared ones.
\<close>

datatype xdevice_error =
    XDEVICE_OK
  | XDEVICE_ERROR
  | XDEVICE_ERROR_INVALID_PARAM
  | XDEVICE_ERROR_OUT_OF_MEMORY
  | XDEVICE_ERROR_IO
  | XDEVICE_ERROR_NETWORK
  | XDEVICE_ERROR_TIMEOUT
  | XDEVICE_ERROR_NOT_FOUND
  | XDEVICE_ERROR_EXISTS
  | XDEVICE_ERROR_PERMISSION
  | XDEVICE_ERROR_CONSISTENCY
  | XDEVICE_ERROR_NODE_DOWN
  | XDEVICE_ERROR_NO_SPACE

datatype xdevice_node_state =
    XDEVICE_NODE_UNKNOWN
  | XDEVICE_NODE_LEADER
  | XDEVICE_NODE_FOLLOWER
  | XDEVICE_NODE_CANDIDATE
  | XDEVICE_NODE_DOWN

datatype storage_backend_type =
    STORAGE_BACKEND_NVMEOF
  | STORAGE_BACKEND_NFS
  | STORAGE_BACKEND_LOCAL
  | STORAGE_BACKEND_MOCK

instantiation storage_backend_type :: enum
begin

definition enum_storage_backend_type :: "storage_backend_type list" where
  "enum_storage_backend_type =
     [STORAGE_BACKEND_NVMEOF, STORAGE_BACKEND_NFS, STORAGE_BACKEND_LOCAL, STORAGE_BACKEND_MOCK]"

definition enum_all_storage_backend_type :: "(storage_backend_type \<Rightarrow> bool) \<Rightarrow> bool" where
  "enum_all_storage_backend_type P = list_all P enum_class.enum"

definition enum_ex_storage_backend_type :: "(storage_backend_type \<Rightarrow> bool) \<Rightarrow> bool" where
  "enum_ex_storage_backend_type P = list_ex P enum_class.enum"

instance
proof
  show univ: "(UNIV :: storage_backend_type set) = set enum_class.enum"
    by (auto simp: enum_storage_backend_type_def intro: storage_backend_type.exhaust)
  show "distinct (enum_class.enum :: storage_backend_type list)" by (simp add: enum_storage_backend_type_def)
  fix P :: "storage_backend_type \<Rightarrow> bool"
  show "enum_class.enum_all P \<longleftrightarrow> Ball UNIV P"
    by (simp add: enum_all_storage_backend_type_def list_all_iff univ)
  show "enum_class.enum_ex P \<longleftrightarrow> Bex UNIV P"
    by (simp add: enum_ex_storage_backend_type_def list_ex_iff univ)
qed

end

lemma card_storage_backend_type: "card (UNIV :: storage_backend_type set) = 4"
  by (simp add: UNIV_enum enum_storage_backend_type_def)

datatype xdevice_wal_op_type =
    XDEVICE_WAL_WRITE
  | XDEVICE_WAL_SYNC
  | XDEVICE_WAL_CHECKPOINT

fun wal_op_code :: "xdevice_wal_op_type \<Rightarrow> u32" where
  "wal_op_code XDEVICE_WAL_WRITE = 1"
| "wal_op_code XDEVICE_WAL_SYNC = 2"
| "wal_op_code XDEVICE_WAL_CHECKPOINT = 3"

lemma wal_op_code_inj: "wal_op_code a = wal_op_code b \<longleftrightarrow> a = b"
  by (cases a; cases b) simp_all

section \<open>Statistics\<close>

record storage_stats =
  read_ops :: u64
  write_ops :: u64
  read_bytes :: u64
  write_bytes :: u64
  read_latency_avg_ns :: u64
  write_latency_avg_ns :: u64
  read_latency_p99_ns :: u64
  write_latency_p99_ns :: u64
  error_count :: u64
  timeout_count :: u64

text \<open>\<open>memset(&stats, 0, sizeof(storage_stats_t))\<close>\<close>

definition zero_stats :: storage_stats where
  "zero_stats = \<lparr>read_ops = 0, write_ops = 0, read_bytes = 0, write_bytes = 0,
     read_latency_avg_ns = 0, write_latency_avg_ns = 0, read_latency_p99_ns = 0,
     write_latency_p99_ns = 0, error_count = 0, timeout_count = 0\<rparr>"

text \<open>The bookkeeping that the backends and the manager share, after a successful operation of
  \<open>n\<close> bytes that took \<open>lat\<close> nanoseconds, and after a failure.\<close>

definition stats_read :: "u64 \<Rightarrow> u64 \<Rightarrow> storage_stats \<Rightarrow> storage_stats" where
  "stats_read n lat s = s\<lparr>read_ops := read_ops s + 1, read_bytes := read_bytes s + n,
     read_latency_avg_ns := (read_latency_avg_ns s + lat) div 2\<rparr>"

definition stats_write :: "u64 \<Rightarrow> u64 \<Rightarrow> storage_stats \<Rightarrow> storage_stats" where
  "stats_write n lat s = s\<lparr>write_ops := write_ops s + 1, write_bytes := write_bytes s + n,
     write_latency_avg_ns := (write_latency_avg_ns s + lat) div 2\<rparr>"

definition stats_error :: "storage_stats \<Rightarrow> storage_stats" where
  "stats_error s = s\<lparr>error_count := error_count s + 1\<rparr>"

record storage_file_info =
  info_size :: u64
  info_created_time :: u64
  info_modified_time :: u64
  info_permissions :: u32
  info_is_directory :: bool

section \<open>Types that only the headers use\<close>

text \<open>No source file reads or builds values of these types; they complete the data model of the headers.\<close>

datatype storage_op_status =
    STORAGE_OP_SUCCESS
  | STORAGE_OP_PENDING
  | STORAGE_OP_ERROR
  | STORAGE_OP_TIMEOUT
  | STORAGE_OP_NOT_FOUND
  | STORAGE_OP_NO_SPACE

datatype xdevice_device_state =
    XDEVICE_DEVICE_CREATING
  | XDEVICE_DEVICE_ACTIVE
  | XDEVICE_DEVICE_READONLY
  | XDEVICE_DEVICE_ERROR
  | XDEVICE_DEVICE_DELETED

record xdevice_device_info =
  di_name :: string
  di_size :: u64
  di_block_size :: u32
  di_state :: xdevice_device_state
  di_created_time :: u64
  di_modified_time :: u64
  di_primary_node :: string
  di_replica_nodes :: "string list"
  di_replica_count :: u32

record xdevice_wal_entry =
  we_lsn :: u64
  we_offset :: u64
  we_length :: u32
  we_op_type :: xdevice_wal_op_type
  we_timestamp :: u64
  we_checksum :: u32
  we_device_name :: string

text \<open>\<open>'c\<close> is the context of the user, \<open>'f\<close> the completion callback.\<close>

record ('c, 'f) storage_operation_ctx =
  oc_operation_id :: u64
  oc_user_context :: 'c
  oc_callback :: 'f
  oc_start_time_ns :: u64
  oc_timeout_ns :: u64

datatype storage_batch_op_type =
    STORAGE_BATCH_READ
  | STORAGE_BATCH_WRITE
  | STORAGE_BATCH_FSYNC

record ('c, 'f) storage_batch_op =
  bo_op_type :: storage_batch_op_type
  bo_path :: string
  bo_offset :: u64
  bo_data :: "byte list option"
  bo_size :: u64
  bo_ctx :: "('c, 'f) storage_operation_ctx option"

section \<open>Interface objects and the environment of a call\<close>

text \<open>
  The object part of \<open>storage_interface_t\<close>; \<open>'p\<close> is what \<open>private_data\<close> points to.
\<close>

record 'p iface =
  itype :: storage_backend_type
  iname :: string
  private_data :: "'p option"

definition priv_of :: "'p iface option \<Rightarrow> 'p option" where
  "priv_of i = Option.bind i private_data"

definition set_priv :: "'p option \<Rightarrow> 'p iface option \<Rightarrow> 'p iface option" where
  "set_priv p i = map_option (\<lambda>f. f\<lparr>private_data := p\<rparr>) i"

lemma priv_of_simps [simp]:
  "priv_of None = None" "priv_of (Some f) = private_data f"
  by (simp_all add: priv_of_def)

lemma set_priv_simps [simp]:
  "set_priv p None = None" "set_priv p (Some f) = Some (f\<lparr>private_data := p\<rparr>)"
  by (simp_all add: set_priv_def)

lemma priv_of_SomeE:
  assumes "priv_of i = Some p"
  obtains f where "i = Some f" and "private_data f = Some p"
  using assms by (cases i) auto

lemma priv_of_set_priv: "priv_of i = Some p \<Longrightarrow> priv_of (set_priv q i) = q"
  by (cases i) auto

text \<open>
  What the C library and the operating system answer during one call of a storage operation:
  \<open>time(NULL)\<close>, the two \<open>clock_gettime\<close> readings of the backend and of the manager, the value
  of \<open>rand()\<close>, whether each allocation site of the call and each \<open>pthread_mutex_init\<close>
  succeeds, whether each system call succeeds as far as nothing in the modelled file system stands
  against it, and the bytes that \<open>realloc\<close> leaves in the grown part of a block.
\<close>

record call_env =
  now :: u64
  t_start :: timespec
  t_end :: timespec
  m_start :: timespec
  m_end :: timespec
  rand_value :: nat
  alloc :: "nat \<Rightarrow> bool"
  mutex_ok :: "nat \<Rightarrow> bool"
  sys_ok :: "nat \<Rightarrow> bool"
  junk_byte :: "nat \<Rightarrow> byte"

text \<open>An environment in which every allocation and lock initialisation succeeds.\<close>

definition calm_env :: call_env where
  "calm_env = \<lparr>now = 1700000000, t_start = \<lparr>tv_sec = 10, tv_nsec = 999999000\<rparr>,
     t_end = \<lparr>tv_sec = 11, tv_nsec = 500\<rparr>, m_start = \<lparr>tv_sec = 10, tv_nsec = 999998000\<rparr>,
     m_end = \<lparr>tv_sec = 11, tv_nsec = 900\<rparr>, rand_value = 17, alloc = (\<lambda>_. True),
     mutex_ok = (\<lambda>_. True), sys_ok = (\<lambda>_. True), junk_byte = (\<lambda>_. 205)\<rparr>"

end
