(* ===== verification/XD_Iface.thy ===== *)
theory XD_Iface
  imports XD_Types
begin

text \<open>
  The storage interface: \<open>storage_interface_t\<close> of \<open>include/storage_interface.h\<close> with its table
  of function pointers, the abstract file store a backend promises to its clients, and that promise
  as the locale \<open>byte_store\<close>.  The clients of the interface (the storage manager, the Raft
  adapter) prove their lemmas once in the locale; the backends interpret it.
\<close>

section \<open>The interface structure\<close>

text \<open>
  \<open>'p\<close> is the private data of the backend, \<open>'w\<close> the part of the operating system its operations
  work on.  A null function pointer is \<open>None\<close>.  No source file implements the asynchronous and
  batch entries, which every constructor sets to \<open>NULL\<close>.
\<close>

record ('p, 'w) storage_interface = "'p iface" +
  init_fn :: "(call_env \<Rightarrow> 'w \<Rightarrow> 'p iface option \<Rightarrow> string option
     \<Rightarrow> (xdevice_error \<times> 'p iface option \<times> 'w) option) option"
  cleanup_fn :: "(call_env \<Rightarrow> 'w \<Rightarrow> 'p iface option
     \<Rightarrow> (xdevice_error \<times> 'p iface option \<times> 'w) option) option"
  health_check_fn :: "(call_env \<Rightarrow> 'w \<Rightarrow> 'p iface option \<Rightarrow> xdevice_error) option"
  read_sync_fn :: "(call_env \<Rightarrow> 'w \<Rightarrow> 'p iface option \<Rightarrow> string option \<Rightarrow> u64 \<Rightarrow> byte list option
     \<Rightarrow> u64 \<Rightarrow> (xdevice_error \<times> byte list option \<times> 'p iface option \<times> 'w) option) option"
  write_sync_fn :: "(call_env \<Rightarrow> 'w \<Rightarrow> 'p iface option \<Rightarrow> string option \<Rightarrow> u64 \<Rightarrow> byte list option
     \<Rightarrow> u64 \<Rightarrow> (xdevice_error \<times> 'p iface option \<times> 'w) option) option"
  fsync_fn :: "(call_env \<Rightarrow> 'w \<Rightarrow> 'p iface option \<Rightarrow> string option
     \<Rightarrow> (xdevice_error \<times> 'p iface option \<times> 'w) option) option"
  create_file_fn :: "(call_env \<Rightarrow> 'w \<Rightarrow> 'p iface option \<Rightarrow> string option \<Rightarrow> u64
     \<Rightarrow> (xdevice_error \<times> 'p iface option \<times> 'w) option) option"
  delete_file_fn :: "(call_env \<Rightarrow> 'w \<Rightarrow> 'p iface option \<Rightarrow> string option
     \<Rightarrow> (xdevice_error \<times> 'p iface option \<times> 'w) option) option"
  get_file_info_fn :: "(call_env \<Rightarrow> 'w \<Rightarrow> 'p iface option \<Rightarrow> string option
     \<Rightarrow> storage_file_info option \<Rightarrow> (xdevice_error \<times> storage_file_info option) option) option"
  get_stats_fn :: "('p iface option \<Rightarrow> storage_stats option
     \<Rightarrow> xdevice_error \<times> storage_stats option) option"
  reset_stats_fn :: "('p iface option \<Rightarrow> xdevice_error \<times> 'p iface option) option"
  read_async_fn :: "unit option"
  write_async_fn :: "unit option"
  batch_operations_fn :: "unit option"

text \<open>The object a table function receives, and the interface after the call changed it.\<close>

definition self_of :: "('p, 'w) storage_interface \<Rightarrow> 'p iface" where
  "self_of b = \<lparr>itype = itype b, iname = iname b, private_data = private_data b\<rparr>"

definition put_self ::
  "'p iface option \<Rightarrow> ('p, 'w) storage_interface \<Rightarrow> ('p, 'w) storage_interface" where
  "put_self i b = (case i of
       None \<Rightarrow> b
     | Some f \<Rightarrow> b\<lparr>itype := itype f, iname := iname f, private_data := private_data f\<rparr>)"

lemma self_of_simps [simp]:
  "itype (self_of b) = itype b" "iname (self_of b) = iname b"
  "private_data (self_of b) = private_data b"
  by (simp_all add: self_of_def)

section \<open>The abstract file store\<close>

text \<open>
  A file is its bytes.  A write past the end fills the gap with zeros; a read past the end of the
  file delivers zeros for the missing bytes.
\<close>

definition file_write :: "byte list option \<Rightarrow> nat \<Rightarrow> byte list \<Rightarrow> byte list" where
  "file_write c off d =
     (let old = (case c of None \<Rightarrow> [] | Some b \<Rightarrow> b)
      in overlay (old @ replicate (off + length d - length old) 0) off d)"

definition file_read :: "byte list \<Rightarrow> nat \<Rightarrow> nat \<Rightarrow> byte list" where
  "file_read c off n = take n (drop off c) @ replicate (n - (length c - off)) 0"

lemma length_file_read [simp]: "length (file_read c off n) = n"
  by (simp add: file_read_def min_def)

lemma length_file_write [simp]:
  "length (file_write c off d) = max (off + length d) (case c of None \<Rightarrow> 0 | Some b \<Rightarrow> length b)"
  by (cases c) (auto simp: file_write_def Let_def max_def)

lemma file_read_nth:
  "i < n \<Longrightarrow> file_read c off n ! i = (if off + i < length c then c ! (off + i) else 0)"
  by (auto simp: file_read_def nth_append min_def)

lemma file_write_nth:
  assumes "i < length (file_write c off d)"
  shows "file_write c off d ! i =
    (if off \<le> i \<and> i < off + length d then d ! (i - off)
     else case c of None \<Rightarrow> 0 | Some b \<Rightarrow> if i < length b then b ! i else 0)"
  using assms
  by (cases c) (auto simp: file_write_def Let_def overlay_nth nth_append max_def split: if_splits)

lemma file_read_write_same:
  "file_read (file_write c off d) off (length d) = d"
  by (rule nth_equalityI) (auto simp: file_read_nth file_write_nth)

text \<open>Bytes outside the written range keep their value (or read as zero beyond the old end).\<close>

lemma file_read_write_outside:
  assumes "off' + n \<le> off \<or> off + length d \<le> off'"
  shows "file_read (file_write (Some b) off d) off' n = file_read b off' n"
  using assms by (intro nth_equalityI) (auto simp: file_read_nth file_write_nth)

lemma file_write_fresh_0: "file_write None 0 d = d"
  by (simp add: file_write_def overlay_def)

lemma file_write_shorter:
  "length d \<le> length b \<Longrightarrow> file_write (Some b) 0 d = d @ drop (length d) b"
  by (simp add: file_write_def overlay_def)

section \<open>The contract of a backend\<close>

locale byte_store =
  fixes invar :: "'s \<Rightarrow> bool"
    and quiet :: "call_env \<Rightarrow> 's \<Rightarrow> bool"
    and contents :: "'s \<Rightarrow> string \<Rightarrow> byte list option"
    and wr :: "call_env \<Rightarrow> 's \<Rightarrow> string \<Rightarrow> u64 \<Rightarrow> byte list \<Rightarrow> u64 \<Rightarrow> (xdevice_error \<times> 's) option"
    and rd :: "call_env \<Rightarrow> 's \<Rightarrow> string \<Rightarrow> u64 \<Rightarrow> byte list \<Rightarrow> u64
                   \<Rightarrow> (xdevice_error \<times> byte list \<times> 's) option"
  assumes write_defined:
      "invar s \<Longrightarrow> length p < MAX_PATH_LEN \<Longrightarrow> sz \<noteq> 0 \<Longrightarrow> unat sz \<le> length d \<Longrightarrow>
       unat off + unat sz < 2 ^ 63 \<Longrightarrow>
       \<exists>ret s'. wr e s p off d sz = Some (ret, s') \<and> invar s' \<and> (\<forall>e'. quiet e' s' = quiet e' s)"
    and write_effect:
      "invar s \<Longrightarrow> length p < MAX_PATH_LEN \<Longrightarrow> sz \<noteq> 0 \<Longrightarrow> unat sz \<le> length d \<Longrightarrow>
       unat off + unat sz < 2 ^ 63 \<Longrightarrow> wr e s p off d sz = Some (XDEVICE_OK, s') \<Longrightarrow>
       contents s' = (contents s)(p \<mapsto> file_write (contents s p) (unat off) (take (unat sz) d))"
    and read_effect:
      "invar s \<Longrightarrow> quiet e s \<Longrightarrow> sz \<noteq> 0 \<Longrightarrow> unat sz \<le> length buf \<Longrightarrow>
       unat off + unat sz < 2 ^ 64 \<Longrightarrow> contents s p = Some c \<Longrightarrow> unat off < length c \<Longrightarrow>
       \<exists>s'. rd e s p off buf sz =
              Some (XDEVICE_OK, overlay buf 0 (file_read c (unat off) (unat sz)), s') \<and>
            invar s' \<and> contents s' = contents s"
begin

text \<open>A successful write is what the next read of the same range returns.\<close>

lemma read_your_write:
  assumes "invar s" and "length p < MAX_PATH_LEN" and "sz \<noteq> 0" and "unat sz = length d"
    and "unat off + unat sz < 2 ^ 63" and "length buf = length d"
    and w: "wr e s p off d sz = Some (XDEVICE_OK, s')" and q: "quiet e' s"
  shows "\<exists>s''. rd e' s' p off buf sz = Some (XDEVICE_OK, d, s'') \<and> contents s'' = contents s'"
proof -
  from assms obtain ret t where t: "wr e s p off d sz = Some (ret, t)" "invar t"
      "\<forall>e'. quiet e' t = quiet e' s"
    using write_defined [of s p sz d off e] by auto
  with w have inv: "invar s'" and q': "quiet e' s'" using q by auto
  have c: "contents s' p = Some (file_write (contents s p) (unat off) d)"
    using write_effect [OF assms(1-3) _ assms(5) w] assms(4) by simp
  have "0 < unat sz" using assms(3) by (metis gr0I unat_eq_zero)
  then have "unat off < length (file_write (contents s p) (unat off) d)"
    using assms(4) by (simp add: less_max_iff_disj)
  moreover have "unat off + unat sz < 2 ^ 64" using assms(5) by simp
  ultimately obtain s'' where "rd e' s' p off buf sz =
      Some (XDEVICE_OK, overlay buf 0 (file_read (file_write (contents s p) (unat off) d)
        (unat off) (unat sz)), s'')" and "contents s'' = contents s'"
    using read_effect [OF inv q' assms(3) _ _ c, where off = off and buf = buf] assms(4,6) by auto
  then show ?thesis
    using assms(4,6) file_read_write_same [of "contents s p" "unat off" d] by simp
qed

text \<open>A write to one path leaves every other path alone.\<close>

lemma write_other:
  assumes "invar s" and "length p < MAX_PATH_LEN" and "sz \<noteq> 0" and "unat sz \<le> length d"
    and "unat off + unat sz < 2 ^ 63" and "wr e s p off d sz = Some (XDEVICE_OK, s')"
    and "q \<noteq> p"
  shows "contents s' q = contents s q"
  using write_effect [OF assms(1-6)] assms(7) by simp

lemma write_invar:
  assumes "invar s" and "length p < MAX_PATH_LEN" and "sz \<noteq> 0" and "unat sz \<le> length d"
    and "unat off + unat sz < 2 ^ 63" and "wr e s p off d sz = Some (ret, s')"
  shows "invar s'" and "quiet e' s' = quiet e' s"
  using write_defined [OF assms(1-5), of e] assms(6) by auto

end

end
