(* ===== verification/XD_Mock.thy ===== *)
theory XD_Mock
  imports XD_Iface
begin

text \<open>
  The in-memory backend of \<open>src/storage/mock_storage.c\<close>: its linked list of files, the
  operations behind the interface table with every early return, the abstract file store it
  implements and the limits of that implementation.  The mutexes serialise whole operations, so an
  operation is one function from the private state to the private state.
\<close>

section \<open>State\<close>

text \<open>
  \<open>mock_file_t\<close>; \<open>fdata\<close> is the heap block \<open>data\<close> points to (\<open>[]\<close> for \<open>NULL\<close>), a list of
  \<open>capacity\<close> bytes.  The list \<open>files\<close> of the private data is the linked list from its head.
\<close>

record mock_file =
  fpath :: string
  fdata :: "byte list"
  fsize :: u64
  capacity :: u64
  created_time :: u64
  modified_time :: u64

record mock_storage_private =
  files :: "mock_file list"
  max_file_size :: u64
  max_files :: u32
  file_count :: u32
  read_delay_us :: u32
  write_delay_us :: u32
  inject_read_errors :: bool
  inject_write_errors :: bool
  error_rate_percent :: u32
  mstats :: storage_stats

type_synonym mock_iface = "mock_storage_private iface"

section \<open>Helpers of the file list\<close>

fun find_file_in :: "mock_file list \<Rightarrow> string \<Rightarrow> nat option" where
  "find_file_in [] path = None"
| "find_file_in (f # fs) path =
     (if fpath f = path then Some 0 else map_option Suc (find_file_in fs path))"

text \<open>A pointer into the list is the index of the node.\<close>

definition find_file :: "mock_storage_private \<Rightarrow> string \<Rightarrow> nat option" where
  "find_file priv path = find_file_in (files priv) path"

text \<open>\<open>create_new_file\<close> returns the private data with the new node at the head, or \<open>None\<close> for
  \<open>NULL\<close>.  Allocation site 0 is the node, site 1 its block.\<close>

definition create_new_file ::
  "call_env \<Rightarrow> mock_storage_private \<Rightarrow> string \<Rightarrow> u64 \<Rightarrow> mock_storage_private option" where
  "create_new_file e priv path initial_size =
     (if file_count priv \<ge> max_files priv then None
      else if \<not> alloc e 0 then None
      else if initial_size > 0 \<and> \<not> alloc e 1 then None
      else
        (let file = \<lparr>fpath = c_strncpy (MAX_PATH_LEN - 1) path,
                     fdata = replicate (unat initial_size) 0,
                     fsize = initial_size, capacity = initial_size,
                     created_time = now e, modified_time = now e\<rparr>
         in Some (priv\<lparr>files := file # files priv, file_count := file_count priv + 1\<rparr>)))"

fun remove_file_in :: "mock_file list \<Rightarrow> string \<Rightarrow> mock_file list option" where
  "remove_file_in [] path = None"
| "remove_file_in (f # fs) path =
     (if fpath f = path then Some fs else map_option (Cons f) (remove_file_in fs path))"

definition remove_file ::
  "mock_storage_private \<Rightarrow> string \<Rightarrow> xdevice_error \<times> mock_storage_private" where
  "remove_file priv path =
     (case remove_file_in (files priv) path of
        Some fs \<Rightarrow> (XDEVICE_OK, priv\<lparr>files := fs, file_count := file_count priv - 1\<rparr>)
      | None \<Rightarrow> (XDEVICE_ERROR_NOT_FOUND, priv))"

text \<open>\<open>realloc\<close> keeps the common prefix; what it adds is unspecified.\<close>

definition realloc_block :: "(nat \<Rightarrow> byte) \<Rightarrow> byte list \<Rightarrow> nat \<Rightarrow> byte list" where
  "realloc_block junk m n = take n m @ map junk [length m..<n]"

text \<open>Allocation site 2 is the \<open>realloc\<close> of \<open>expand_file\<close>; a request for zero bytes, which only
  a wrapped doubling produces, has no defined result.\<close>

definition expand_file ::
  "call_env \<Rightarrow> mock_file \<Rightarrow> u64 \<Rightarrow> (xdevice_error \<times> mock_file) option" where
  "expand_file e file new_size =
     (if new_size \<le> capacity file then
        (if new_size > fsize file then do {
           m \<leftarrow> mem_fill (fdata file) (unat (fsize file)) (unat (new_size - fsize file)) 0;
           Some (XDEVICE_OK, file\<lparr>fdata := m, fsize := new_size\<rparr>)
         } else Some (XDEVICE_OK, file))
      else
        (let new_capacity = new_size * 2
         in if new_capacity = 0 then None
            else if \<not> alloc e 2 then Some (XDEVICE_ERROR_OUT_OF_MEMORY, file)
            else do {
              m \<leftarrow> mem_fill (realloc_block (junk_byte e) (fdata file) (unat new_capacity))
                     (unat (fsize file)) (unat (new_capacity - fsize file)) 0;
              Some (XDEVICE_OK, file\<lparr>fdata := m, capacity := new_capacity, fsize := new_size\<rparr>)
            }))"

text \<open>The pause that \<open>simulate_delay\<close> asks of \<open>nanosleep\<close>, if any.\<close>

definition simulate_delay :: "u32 \<Rightarrow> timespec option" where
  "simulate_delay delay_us =
     (if delay_us > 0
      then Some \<lparr>tv_sec = ucast (delay_us div 1000000),
                 tv_nsec = ucast ((delay_us mod 1000000) * 1000)\<rparr>
      else None)"

definition should_inject_error :: "call_env \<Rightarrow> mock_storage_private \<Rightarrow> bool" where
  "should_inject_error e priv =
     (if error_rate_percent priv = 0 then False
      else rand_value e mod 100 < unat (error_rate_percent priv))"

section \<open>Lifecycle\<close>

text \<open>The private data that \<open>mock_storage_init\<close> builds.\<close>

definition mock_default_private :: mock_storage_private where
  "mock_default_private = \<lparr>files = [], max_file_size = 1024 * 1024 * 1024, max_files = 1000,
     file_count = 0, read_delay_us = 0, write_delay_us = 0, inject_read_errors = False,
     inject_write_errors = False, error_rate_percent = 0, mstats = zero_stats\<rparr>"

definition mock_storage_init ::
  "call_env \<Rightarrow> mock_iface option \<Rightarrow> string option \<Rightarrow> xdevice_error \<times> mock_iface option" where
  "mock_storage_init e iface config =
     (case iface of
        None \<Rightarrow> (XDEVICE_ERROR_INVALID_PARAM, iface)
      | Some _ \<Rightarrow>
          if \<not> alloc e 0 then (XDEVICE_ERROR_OUT_OF_MEMORY, iface)
          else if \<not> mutex_ok e 0 then (XDEVICE_ERROR, iface)
          else if \<not> mutex_ok e 1 then (XDEVICE_ERROR, iface)
          else (XDEVICE_OK, set_priv (Some mock_default_private) iface))"

definition mock_storage_cleanup :: "mock_iface option \<Rightarrow> xdevice_error \<times> mock_iface option" where
  "mock_storage_cleanup iface =
     (case priv_of iface of
        None \<Rightarrow> (XDEVICE_ERROR_INVALID_PARAM, iface)
      | Some _ \<Rightarrow> (XDEVICE_OK, set_priv None iface))"

definition mock_storage_health_check :: "mock_iface option \<Rightarrow> xdevice_error" where
  "mock_storage_health_check iface =
     (case priv_of iface of None \<Rightarrow> XDEVICE_ERROR_INVALID_PARAM | Some _ \<Rightarrow> XDEVICE_OK)"

section \<open>Synchronous I/O\<close>

text \<open>The part of \<open>mock_storage_read_sync\<close> under \<open>files_lock\<close>: the code, the bytes copied from
  the file and the caller's buffer.\<close>

definition mock_read_locked ::
  "mock_storage_private \<Rightarrow> string \<Rightarrow> u64 \<Rightarrow> byte list \<Rightarrow> u64
     \<Rightarrow> (xdevice_error \<times> u64 \<times> byte list) option" where
  "mock_read_locked priv path offset buffer sz =
     (case find_file priv path of
        None \<Rightarrow> Some (XDEVICE_ERROR_NOT_FOUND, 0, buffer)
      | Some i \<Rightarrow>
          (let file = files priv ! i
           in if offset \<ge> fsize file then Some (XDEVICE_ERROR_NOT_FOUND, 0, buffer)
              else
                (let read_size = (if offset + sz > fsize file then fsize file - offset else sz)
                 in do {
                   src \<leftarrow> mem_read (fdata file) (unat offset) (unat read_size);
                   buf1 \<leftarrow> mem_write buffer 0 src;
                   buf2 \<leftarrow> (if read_size < sz
                            then mem_fill buf1 (unat read_size) (unat (sz - read_size)) 0
                            else Some buf1);
                   Some (XDEVICE_OK, read_size, buf2)
                 })))"

definition mock_storage_read_sync ::
  "call_env \<Rightarrow> mock_iface option \<Rightarrow> string option \<Rightarrow> u64 \<Rightarrow> byte list option \<Rightarrow> u64
     \<Rightarrow> (xdevice_error \<times> byte list option \<times> mock_iface option) option" where
  "mock_storage_read_sync e iface path offset buffer sz =
     (case (priv_of iface, path, buffer) of
        (Some priv, Some p, Some buf) \<Rightarrow>
          if sz = 0 then Some (XDEVICE_ERROR_INVALID_PARAM, buffer, iface)
          else if inject_read_errors priv \<and> should_inject_error e priv then
            Some (XDEVICE_ERROR_IO, buffer,
                  set_priv (Some (priv\<lparr>mstats := stats_error (mstats priv)\<rparr>)) iface)
          else do {
            (ret, read_size, buf') \<leftarrow> mock_read_locked priv p offset buf sz;
            if ret = XDEVICE_OK then
              Some (XDEVICE_OK, Some buf',
                    set_priv (Some (priv\<lparr>mstats :=
                      stats_read read_size (latency_ns (t_start e) (t_end e)) (mstats priv)\<rparr>)) iface)
            else Some (ret, Some buf', iface)
          }
      | _ \<Rightarrow> Some (XDEVICE_ERROR_INVALID_PARAM, buffer, iface))"

text \<open>The part of \<open>mock_storage_write_sync\<close> under \<open>files_lock\<close>: what happens to the file once
  its node is known, and the lookup or creation of the node before it.\<close>

definition mock_write_at ::
  "call_env \<Rightarrow> mock_storage_private \<Rightarrow> nat \<Rightarrow> u64 \<Rightarrow> byte list \<Rightarrow> u64
     \<Rightarrow> (xdevice_error \<times> mock_storage_private) option" where
  "mock_write_at e priv i offset data sz = do {
     (ret, file) \<leftarrow> (if offset + sz > fsize (files priv ! i)
                     then expand_file e (files priv ! i) (offset + sz)
                     else Some (XDEVICE_OK, files priv ! i));
     let priv2 = priv\<lparr>files := (files priv)[i := file]\<rparr>;
     if ret \<noteq> XDEVICE_OK then Some (XDEVICE_ERROR_OUT_OF_MEMORY, priv2)
     else if fsize file > max_file_size priv2 then Some (XDEVICE_ERROR_NO_SPACE, priv2)
     else do {
       src \<leftarrow> mem_read data 0 (unat sz);
       m \<leftarrow> mem_write (fdata file) (unat offset) src;
       Some (XDEVICE_OK,
             priv2\<lparr>files := (files priv2)[i := file\<lparr>fdata := m, modified_time := now e\<rparr>]\<rparr>)
     }
   }"

definition mock_write_locked ::
  "call_env \<Rightarrow> mock_storage_private \<Rightarrow> string \<Rightarrow> u64 \<Rightarrow> byte list \<Rightarrow> u64
     \<Rightarrow> (xdevice_error \<times> mock_storage_private) option" where
  "mock_write_locked e priv path offset data sz =
     (case find_file priv path of
        Some i \<Rightarrow> mock_write_at e priv i offset data sz
      | None \<Rightarrow>
          (case create_new_file e priv path (offset + sz) of
             None \<Rightarrow> Some (XDEVICE_ERROR_OUT_OF_MEMORY, priv)
           | Some priv1 \<Rightarrow> mock_write_at e priv1 0 offset data sz))"

definition mock_storage_write_sync ::
  "call_env \<Rightarrow> mock_iface option \<Rightarrow> string option \<Rightarrow> u64 \<Rightarrow> byte list option \<Rightarrow> u64
     \<Rightarrow> (xdevice_error \<times> mock_iface option) option" where
  "mock_storage_write_sync e iface path offset data sz =
     (case (priv_of iface, path, data) of
        (Some priv, Some p, Some d) \<Rightarrow>
          if sz = 0 then Some (XDEVICE_ERROR_INVALID_PARAM, iface)
          else if inject_write_errors priv \<and> should_inject_error e priv then
            Some (XDEVICE_ERROR_IO,
                  set_priv (Some (priv\<lparr>mstats := stats_error (mstats priv)\<rparr>)) iface)
          else do {
            (ret, priv') \<leftarrow> mock_write_locked e priv p offset d sz;
            if ret = XDEVICE_OK then
              Some (XDEVICE_OK,
                    set_priv (Some (priv'\<lparr>mstats :=
                      stats_write sz (latency_ns (t_start e) (t_end e)) (mstats priv')\<rparr>)) iface)
            else Some (ret, set_priv (Some priv') iface)
          }
      | _ \<Rightarrow> Some (XDEVICE_ERROR_INVALID_PARAM, iface))"

definition mock_storage_fsync :: "mock_iface option \<Rightarrow> string option \<Rightarrow> xdevice_error" where
  "mock_storage_fsync iface path =
     (case (priv_of iface, path) of
        (Some _, Some _) \<Rightarrow> XDEVICE_OK
      | _ \<Rightarrow> XDEVICE_ERROR_INVALID_PARAM)"

section \<open>File management, statistics and configuration\<close>

definition mock_storage_create_file ::
  "call_env \<Rightarrow> mock_iface option \<Rightarrow> string option \<Rightarrow> u64 \<Rightarrow> xdevice_error \<times> mock_iface option" where
  "mock_storage_create_file e iface path initial_size =
     (case (priv_of iface, path) of
        (Some priv, Some p) \<Rightarrow>
          (case find_file priv p of
             Some _ \<Rightarrow> (XDEVICE_ERROR_EXISTS, iface)
           | None \<Rightarrow>
               (case create_new_file e priv p initial_size of
                  None \<Rightarrow> (XDEVICE_ERROR_OUT_OF_MEMORY, iface)
                | Some priv' \<Rightarrow> (XDEVICE_OK, set_priv (Some priv') iface)))
      | _ \<Rightarrow> (XDEVICE_ERROR_INVALID_PARAM, iface))"

definition mock_storage_delete_file ::
  "mock_iface option \<Rightarrow> string option \<Rightarrow> xdevice_error \<times> mock_iface option" where
  "mock_storage_delete_file iface path =
     (case (priv_of iface, path) of
        (Some priv, Some p) \<Rightarrow>
          (let (ret, priv') = remove_file priv p in (ret, set_priv (Some priv') iface))
      | _ \<Rightarrow> (XDEVICE_ERROR_INVALID_PARAM, iface))"

text \<open>The out-parameter \<open>info\<close> is the second argument pair: \<open>None\<close> when the caller passes
  \<open>NULL\<close>, otherwise its old and new value.\<close>

definition mock_storage_get_file_info ::
  "mock_iface option \<Rightarrow> string option \<Rightarrow> storage_file_info option
     \<Rightarrow> xdevice_error \<times> storage_file_info option" where
  "mock_storage_get_file_info iface path info =
     (case (priv_of iface, path, info) of
        (Some priv, Some p, Some _) \<Rightarrow>
          (case find_file priv p of
             None \<Rightarrow> (XDEVICE_ERROR_NOT_FOUND, info)
           | Some i \<Rightarrow>
               (let file = files priv ! i
                in (XDEVICE_OK,
                    Some \<lparr>info_size = fsize file, info_created_time = created_time file,
                          info_modified_time = modified_time file, info_permissions = 420,
                          info_is_directory = False\<rparr>)))
      | _ \<Rightarrow> (XDEVICE_ERROR_INVALID_PARAM, info))"

definition mock_storage_get_stats ::
  "mock_iface option \<Rightarrow> storage_stats option \<Rightarrow> xdevice_error \<times> storage_stats option" where
  "mock_storage_get_stats iface out =
     (case (priv_of iface, out) of
        (Some priv, Some _) \<Rightarrow> (XDEVICE_OK, Some (mstats priv))
      | _ \<Rightarrow> (XDEVICE_ERROR_INVALID_PARAM, out))"

definition mock_storage_reset_stats :: "mock_iface option \<Rightarrow> xdevice_error \<times> mock_iface option" where
  "mock_storage_reset_stats iface =
     (case priv_of iface of
        None \<Rightarrow> (XDEVICE_ERROR_INVALID_PARAM, iface)
      | Some priv \<Rightarrow> (XDEVICE_OK, set_priv (Some (priv\<lparr>mstats := zero_stats\<rparr>)) iface))"

definition mock_storage_set_delays :: "mock_iface option \<Rightarrow> u32 \<Rightarrow> u32 \<Rightarrow> mock_iface option" where
  "mock_storage_set_delays iface rd wr =
     (case iface of
        None \<Rightarrow> None
      | Some f \<Rightarrow>
          (case private_data f of
             None \<Rightarrow> iface
           | Some priv \<Rightarrow>
               if itype f \<noteq> STORAGE_BACKEND_MOCK then iface
               else set_priv (Some (priv\<lparr>read_delay_us := rd, write_delay_us := wr\<rparr>)) iface))"

definition mock_storage_set_error_injection ::
  "mock_iface option \<Rightarrow> bool \<Rightarrow> bool \<Rightarrow> u32 \<Rightarrow> mock_iface option" where
  "mock_storage_set_error_injection iface inj_read inj_write rate =
     (case iface of
        None \<Rightarrow> None
      | Some f \<Rightarrow>
          (case private_data f of
             None \<Rightarrow> iface
           | Some priv \<Rightarrow>
               if itype f \<noteq> STORAGE_BACKEND_MOCK then iface
               else set_priv (Some (priv\<lparr>inject_read_errors := inj_read,
                      inject_write_errors := inj_write, error_rate_percent := rate\<rparr>)) iface))"

section \<open>Well-formed states and their contents\<close>

definition file_wf :: "mock_file \<Rightarrow> bool" where
  "file_wf f \<longleftrightarrow> length (fdata f) = unat (capacity f) \<and> fsize f \<le> capacity f"

definition mock_inv :: "mock_storage_private \<Rightarrow> bool" where
  "mock_inv priv \<longleftrightarrow>
     (\<forall>f \<in> set (files priv). file_wf f) \<and> distinct (map fpath (files priv)) \<and>
     length (files priv) = unat (file_count priv) \<and> file_count priv \<le> max_files priv"

definition file_contents :: "mock_file \<Rightarrow> byte list" where
  "file_contents f = take (unat (fsize f)) (fdata f)"

definition mock_contents :: "mock_storage_private \<Rightarrow> string \<Rightarrow> byte list option" where
  "mock_contents priv path = map_option (\<lambda>i. file_contents (files priv ! i)) (find_file priv path)"

text \<open>No failure is injected into the reads of a call.\<close>

definition mock_quiet :: "call_env \<Rightarrow> mock_storage_private \<Rightarrow> bool" where
  "mock_quiet e priv \<longleftrightarrow> \<not> (inject_read_errors priv \<and> should_inject_error e priv)"

lemma file_wf_size: "file_wf f \<Longrightarrow> unat (fsize f) \<le> length (fdata f)"
  by (simp add: file_wf_def word_le_nat_alt)

lemma length_file_contents [simp]: "file_wf f \<Longrightarrow> length (file_contents f) = unat (fsize f)"
  using file_wf_size by (simp add: file_contents_def)

lemma find_file_in_SomeD:
  "find_file_in fs p = Some i \<Longrightarrow> i < length fs \<and> fpath (fs ! i) = p"
  by (induction fs arbitrary: i) (auto split: if_splits)

lemma find_file_in_None_iff: "find_file_in fs p = None \<longleftrightarrow> p \<notin> fpath ` set fs"
  by (induction fs) auto

lemma find_file_in_update:
  "i < length fs \<Longrightarrow> fpath f = fpath (fs ! i) \<Longrightarrow> find_file_in (fs[i := f]) q = find_file_in fs q"
proof (induction fs arbitrary: i)
  case (Cons g fs)
  then show ?case by (cases i) auto
qed simp

lemma find_file_in_remove:
  "remove_file_in fs p = Some fs' \<Longrightarrow> distinct (map fpath fs) \<Longrightarrow>
   map_option ((!) fs') (find_file_in fs' q) =
     (if q = p then None else map_option ((!) fs) (find_file_in fs q))"
proof (induction fs arbitrary: fs')
  case (Cons f fs)
  then show ?case
    by (cases "find_file_in fs q")
       (auto simp: find_file_in_None_iff option.map_comp comp_def split: if_splits)
qed simp

lemma map_fpath_update:
  "i < length fs \<Longrightarrow> fpath f = fpath (fs ! i) \<Longrightarrow> map fpath (fs[i := f]) = map fpath fs"
  by (simp add: map_update list_update_same_conv)

lemma mock_inv_update:
  assumes "mock_inv priv" and "i < length (files priv)" and "file_wf f"
    and "fpath f = fpath (files priv ! i)"
  shows "mock_inv (priv\<lparr>files := (files priv)[i := f]\<rparr>)"
  using assms by (auto simp: mock_inv_def map_fpath_update dest!: set_update_subset_insert [THEN subsetD])

lemma mock_contents_update:
  assumes "find_file priv p = Some i" and "fpath f = p"
  shows "mock_contents (priv\<lparr>files := (files priv)[i := f]\<rparr>) =
           (mock_contents priv)(p \<mapsto> file_contents f)"
proof
  fix q
  from assms(1) have i: "i < length (files priv)" "fpath (files priv ! i) = p"
    by (auto simp: find_file_def dest: find_file_in_SomeD)
  have "find_file (priv\<lparr>files := (files priv)[i := f]\<rparr>) q = find_file priv q"
    using i assms(2) by (simp add: find_file_def find_file_in_update)
  moreover have "find_file priv q = Some j \<Longrightarrow> q \<noteq> p \<Longrightarrow> j \<noteq> i" for j
    using i by (auto simp: find_file_def dest: find_file_in_SomeD)
  ultimately show "mock_contents (priv\<lparr>files := (files priv)[i := f]\<rparr>) q =
      ((mock_contents priv)(p \<mapsto> file_contents f)) q"
    using assms(1) i by (cases "find_file priv q") (auto simp: mock_contents_def)
qed

lemma mock_inv_default: "mock_inv mock_default_private"
  by (simp add: mock_inv_def mock_default_private_def)

lemma file_inv_nth: "mock_inv priv \<Longrightarrow> i < length (files priv) \<Longrightarrow> file_wf (files priv ! i)"
  by (simp add: mock_inv_def)

section \<open>The helpers keep files well-formed\<close>

lemma create_new_file_SomeD:
  assumes "create_new_file e priv path n = Some priv'"
  shows "\<exists>f. priv' = priv\<lparr>files := f # files priv, file_count := file_count priv + 1\<rparr> \<and>
           fpath f = c_strncpy (MAX_PATH_LEN - 1) path \<and> fsize f = n \<and> capacity f = n \<and>
           fdata f = replicate (unat n) 0 \<and> file_count priv < max_files priv"
  using assms by (auto simp: create_new_file_def Let_def not_le split: if_splits)

lemma create_new_file_inv:
  assumes "create_new_file e priv path n = Some priv'" and "mock_inv priv"
    and "find_file priv path = None" and "length path < MAX_PATH_LEN"
  shows "mock_inv priv'" and "find_file priv' path = Some 0"
    and "mock_contents priv' = (mock_contents priv)(path \<mapsto> replicate (unat n) 0)"
    and "file_contents (files priv' ! 0) = replicate (unat n) 0" and "fsize (files priv' ! 0) = n"
proof -
  obtain f where priv': "priv' = priv\<lparr>files := f # files priv, file_count := file_count priv + 1\<rparr>"
    and f: "fpath f = c_strncpy (MAX_PATH_LEN - 1) path" "fsize f = n" "capacity f = n"
      "fdata f = replicate (unat n) 0" and lt: "file_count priv < max_files priv"
    using create_new_file_SomeD [OF assms(1)] by blast
  have path: "fpath f = path" using f(1) assms(4) by simp
  have cnt: "unat (file_count priv + 1) = Suc (unat (file_count priv))"
    using lt unat_u32_bound [of "max_files priv"]
    by (intro unat_Suc_no_wrap) (simp add: word_less_nat_alt del: unat_u32_bound)
  have "file_count priv + 1 \<le> max_files priv"
    using lt cnt by (simp add: word_less_nat_alt word_le_nat_alt)
  with assms(2,3) path f cnt show "mock_inv priv'"
    by (auto simp: mock_inv_def priv' file_wf_def find_file_def find_file_in_None_iff)
  show "find_file priv' path = Some 0" by (simp add: find_file_def priv' path)
  show "file_contents (files priv' ! 0) = replicate (unat n) 0" and "fsize (files priv' ! 0) = n"
    by (simp_all add: priv' file_contents_def f)
  show "mock_contents priv' = (mock_contents priv)(path \<mapsto> replicate (unat n) 0)"
    by (auto simp: fun_eq_iff mock_contents_def find_file_def priv' path file_contents_def f
          option.map_comp comp_def)
qed

lemma fill_realloc_tail:
  assumes "n \<le> length m" and "length m \<le> k"
  shows "mem_fill (realloc_block junk m k) n (k - n) 0 = Some (take n m @ replicate (k - n) 0)"
  using assms by (simp add: realloc_block_def mem_fill_def mem_write_def overlay_def)

lemma expand_file_spec:
  assumes wf: "file_wf f" and new: "fsize f < new_size" "unat new_size < 2 ^ 63"
  obtains (ok) f' where "expand_file e f new_size = Some (XDEVICE_OK, f')" and "file_wf f'"
      and "fpath f' = fpath f" and "fsize f' = new_size"
      and "file_contents f' = file_contents f @ replicate (unat new_size - unat (fsize f)) 0"
  | (no_memory) "expand_file e f new_size = Some (XDEVICE_ERROR_OUT_OF_MEMORY, f)"
proof (cases "new_size \<le> capacity f")
  case True
  let ?d = "unat new_size - unat (fsize f)"
  have le: "unat (fsize f) + ?d \<le> length (fdata f)"
    using wf True new by (simp add: file_wf_def word_le_nat_alt word_less_nat_alt)
  have sub: "unat (new_size - fsize f) = ?d"
    using new(1) by (simp add: unat_sub_no_wrap)
  let ?m = "overlay (fdata f) (unat (fsize f)) (replicate ?d 0)"
  have eq: "expand_file e f new_size = Some (XDEVICE_OK, f\<lparr>fdata := ?m, fsize := new_size\<rparr>)"
    using True new(1) le by (simp add: expand_file_def sub)
  have "take (unat new_size) ?m = file_contents f @ replicate ?d 0"
    using le new(1) take_overlay_upto [of "unat (fsize f)" "replicate ?d 0" "fdata f"]
    by (simp add: file_contents_def word_less_nat_alt)
  then show ?thesis
    using wf True le by (intro ok [OF eq]) (simp_all add: file_wf_def file_contents_def)
next
  case False
  let ?cap = "new_size * 2" and ?d = "unat new_size - unat (fsize f)"
  have cap: "unat ?cap = 2 * unat new_size"
    using new(2) by (simp add: unat_word_ariths)
  have "unat (capacity f) < unat new_size" using False by (simp add: word_le_nat_alt)
  then have len: "unat (fsize f) \<le> length (fdata f)" "length (fdata f) \<le> unat ?cap"
    using wf cap by (simp_all add: file_wf_def word_le_nat_alt)
  have "?cap \<noteq> 0" using cap new(1) by (metis mult_eq_0_iff not_less_zero unat_0 unat_eq_zero word_less_nat_alt zero_neq_numeral)
  moreover have sub: "unat (?cap - fsize f) = unat ?cap - unat (fsize f)"
    using len by (intro unat_sub_no_wrap) (simp add: word_le_nat_alt)
  ultimately show ?thesis
  proof (cases "alloc e 2")
    case True
    let ?m = "take (unat (fsize f)) (fdata f) @ replicate (unat ?cap - unat (fsize f)) 0"
    have eq: "expand_file e f new_size =
        Some (XDEVICE_OK, f\<lparr>fdata := ?m, capacity := ?cap, fsize := new_size\<rparr>)"
      using False True \<open>?cap \<noteq> 0\<close> fill_realloc_tail [OF len, of "junk_byte e"]
      by (simp add: expand_file_def Let_def sub)
    have "take (unat new_size) ?m = file_contents f @ replicate ?d 0"
      using len cap new(1) by (simp add: file_contents_def word_less_nat_alt)
    moreover have "new_size \<le> ?cap" using cap by (simp add: word_le_nat_alt)
    ultimately show ?thesis
      using len by (intro ok [OF eq]) (simp_all add: file_wf_def file_contents_def)
  next
    case nomem: False
    then show ?thesis
      using False \<open>?cap \<noteq> 0\<close> by (intro no_memory) (simp add: expand_file_def Let_def)
  qed
qed


section \<open>Writing\<close>

lemma file_write_grow:
  assumes "off + length d = length c + k"
  shows "overlay (c @ replicate k 0) off d = file_write (Some c) off d"
  using assms by (simp add: file_write_def)

lemma file_write_within:
  "off + length d \<le> length c \<Longrightarrow> file_write (Some c) off d = overlay c off d"
  by (simp add: file_write_def)

definition mock_config_eq :: "mock_storage_private \<Rightarrow> mock_storage_private \<Rightarrow> bool" where
  "mock_config_eq a b \<longleftrightarrow>
     max_file_size a = max_file_size b \<and> max_files a = max_files b \<and>
     inject_read_errors a = inject_read_errors b \<and> inject_write_errors a = inject_write_errors b \<and>
     error_rate_percent a = error_rate_percent b \<and> mstats a = mstats b"

text \<open>
  What a write of \<open>d\<close> at \<open>off\<close> may do to the store \<open>c\<close>: succeed; run out of memory and change
  nothing; or report that the file exceeds the size limit, in which case the file has already been
  created or grown (with zeros) to hold the write.
\<close>

definition file_grow :: "byte list option \<Rightarrow> nat \<Rightarrow> byte list" where
  "file_grow c n = (let old = (case c of None \<Rightarrow> [] | Some b \<Rightarrow> b) in old @ replicate (n - length old) 0)"

definition write_outcome ::
  "nat \<Rightarrow> (string \<Rightarrow> byte list option) \<Rightarrow> string \<Rightarrow> nat \<Rightarrow> byte list \<Rightarrow> xdevice_error
     \<Rightarrow> (string \<Rightarrow> byte list option) \<Rightarrow> bool" where
  "write_outcome limit c p off d ret c' \<longleftrightarrow>
     ret = XDEVICE_OK \<and> c' = c(p \<mapsto> file_write (c p) off d) \<and>
       length (file_write (c p) off d) \<le> limit \<or>
     ret = XDEVICE_ERROR_NO_SPACE \<and> c' = c(p \<mapsto> file_grow (c p) (off + length d)) \<and>
       limit < length (file_grow (c p) (off + length d)) \<or>
     ret = XDEVICE_ERROR_OUT_OF_MEMORY \<and> c' = c"

text \<open>The file after the size check of a write: long enough, its old bytes kept.\<close>

lemma grow_for_write:
  fixes off sz :: u64
  assumes wf: "file_wf f" and b: "unat off + unat sz < 2 ^ 63"
  obtains (ok) f' where
      "(if off + sz > fsize f then expand_file e f (off + sz) else Some (XDEVICE_OK, f)) =
         Some (XDEVICE_OK, f')"
      and "file_wf f'" and "fpath f' = fpath f" and "off + sz \<le> fsize f'"
      and "file_contents f' = file_contents f @ replicate (unat off + unat sz - unat (fsize f)) 0"
  | (no_memory) "(if off + sz > fsize f then expand_file e f (off + sz) else Some (XDEVICE_OK, f)) =
         Some (XDEVICE_ERROR_OUT_OF_MEMORY, f)"
proof (cases "off + sz > fsize f")
  case True
  have sum: "unat (off + sz) = unat off + unat sz" using b by (intro unat_add_no_wrap) simp
  show ?thesis
  proof (rule expand_file_spec [OF wf True, of e])
    show "unat (off + sz) < 2 ^ 63" using sum b by simp
  qed (use True sum in \<open>auto intro: ok no_memory\<close>)
next
  case False
  have "unat (off + sz) = unat off + unat sz" using b by (intro unat_add_no_wrap) simp
  then have "unat off + unat sz - unat (fsize f) = 0" using False by (simp add: word_le_nat_alt not_less)
  with False wf show ?thesis by (intro ok [of f]) (auto simp: not_less dest: leD)
qed

lemma mock_write_at_spec:
  assumes inv: "mock_inv priv" and i: "find_file priv p = Some i"
    and sz: "unat sz \<le> length d" and b: "unat off + unat sz < 2 ^ 63"
  obtains ret priv' where "mock_write_at e priv i off d sz = Some (ret, priv')"
    and "mock_inv priv'" and "mock_config_eq priv' priv"
    and "write_outcome (unat (max_file_size priv)) (mock_contents priv) p (unat off)
           (take (unat sz) d) ret (mock_contents priv')"
    and "off + sz \<le> fsize (files priv ! i) \<Longrightarrow> ret \<noteq> XDEVICE_ERROR_OUT_OF_MEMORY"
proof -
  let ?f = "files priv ! i" and ?src = "take (unat sz) d"
  have idx: "i < length (files priv)" "fpath ?f = p"
    using i by (auto simp: find_file_def dest: find_file_in_SomeD)
  have wf: "file_wf ?f" by (rule file_inv_nth [OF inv idx(1)])
  have c: "mock_contents priv p = Some (file_contents ?f)" by (simp add: mock_contents_def i)
  have sum: "unat (off + sz) = unat off + unat sz" using b by (intro unat_add_no_wrap) simp
  have len_src: "length ?src = unat sz" using sz by simp
  show thesis
  proof (rule grow_for_write [OF wf b, of e])
    fix f' assume eq: "(if off + sz > fsize ?f then expand_file e ?f (off + sz) else Some (XDEVICE_OK, ?f)) =
         Some (XDEVICE_OK, f')"
      and wf': "file_wf f'" and path: "fpath f' = fpath ?f" and len: "off + sz \<le> fsize f'"
      and c': "file_contents f' = file_contents ?f @ replicate (unat off + unat sz - unat (fsize ?f)) 0"
    let ?p2 = "priv\<lparr>files := (files priv)[i := f']\<rparr>"
    have inv2: "mock_inv ?p2" using inv idx wf' path by (intro mock_inv_update) simp_all
    have grown: "file_contents f' = file_grow (mock_contents priv p) (unat off + unat sz)"
      using c c' wf by (simp add: file_grow_def)
    show thesis
    proof (cases "fsize f' > max_file_size priv")
      case True
      have "mock_contents ?p2 = (mock_contents priv)(p \<mapsto> file_contents f')"
        using path idx by (intro mock_contents_update [OF i]) simp
      moreover have "unat (max_file_size priv) < length (file_contents f')"
        using True wf' by (simp add: word_less_nat_alt)
      ultimately show thesis
        by (intro that [of XDEVICE_ERROR_NO_SPACE ?p2])
           (use True eq inv2 grown len_src in
             \<open>simp_all add: mock_write_at_def mock_config_eq_def write_outcome_def\<close>)
    next
      case False
      have bound: "unat off + unat sz \<le> unat (fsize f')" "unat (fsize f') \<le> length (fdata f')"
        using len sum file_wf_size [OF wf'] by (simp_all add: word_le_nat_alt)
      let ?g = "f'\<lparr>fdata := overlay (fdata f') (unat off) ?src, modified_time := now e\<rparr>"
      let ?p3 = "priv\<lparr>files := (files priv)[i := ?g]\<rparr>"
      have run: "mock_write_at e priv i off d sz = Some (XDEVICE_OK, ?p3)"
        using False eq sz bound idx by (simp add: mock_write_at_def min_def)
      have wfg: "file_wf ?g" using wf' bound sz by (simp add: file_wf_def min_def)
      have "file_contents ?g = overlay (file_contents f') (unat off) ?src"
        using bound sz by (simp add: file_contents_def overlay_take min_def)
      also have "\<dots> = file_write (mock_contents priv p) (unat off) ?src"
        using sz wf c' c by (simp add: file_write_def Let_def min_def)
      finally have g: "file_contents ?g = file_write (mock_contents priv p) (unat off) ?src" .
      have "length (file_contents ?g) \<le> unat (max_file_size priv)"
        using False length_file_contents [OF wfg] by (simp add: word_le_nat_alt not_less)
      moreover have "mock_contents ?p3 = (mock_contents priv)(p \<mapsto> file_contents ?g)"
        using path idx by (intro mock_contents_update [OF i]) simp
      moreover have "mock_inv ?p3" using inv idx wfg path by (intro mock_inv_update) simp_all
      ultimately show thesis
        by (intro that [OF run]) (simp_all add: mock_config_eq_def write_outcome_def g)
    qed
  next
    assume eq: "(if off + sz > fsize ?f then expand_file e ?f (off + sz) else Some (XDEVICE_OK, ?f)) =
         Some (XDEVICE_ERROR_OUT_OF_MEMORY, ?f)"
    show thesis
      by (rule that [of XDEVICE_ERROR_OUT_OF_MEMORY priv])
         (use eq inv in \<open>auto simp: mock_write_at_def mock_config_eq_def write_outcome_def
           split: if_splits\<close>)
  qed
qed

lemma write_outcome_fresh:
  assumes "write_outcome limit (c(p \<mapsto> replicate (off + length d) 0)) p off d ret c'"
    and "c p = None" and "ret \<noteq> XDEVICE_ERROR_OUT_OF_MEMORY"
  shows "write_outcome limit c p off d ret c'"
  using assms by (auto simp: write_outcome_def file_write_def file_grow_def)

lemma mock_write_locked_spec:
  assumes inv: "mock_inv priv" and path: "length p < MAX_PATH_LEN"
    and sz: "unat sz \<le> length d" and b: "unat off + unat sz < 2 ^ 63"
  obtains ret priv' where "mock_write_locked e priv p off d sz = Some (ret, priv')"
    and "mock_inv priv'" and "mock_config_eq priv' priv"
    and "write_outcome (unat (max_file_size priv)) (mock_contents priv) p (unat off)
           (take (unat sz) d) ret (mock_contents priv')"
proof (cases "find_file priv p")
  case (Some i)
  then have "mock_write_locked e priv p off d sz = mock_write_at e priv i off d sz"
    by (simp add: mock_write_locked_def)
  with mock_write_at_spec [OF inv Some sz b, of e] that show thesis by metis
next
  case None
  show thesis
  proof (cases "create_new_file e priv p (off + sz)")
    case nomem: None
    show thesis
      by (rule that [of XDEVICE_ERROR_OUT_OF_MEMORY priv])
         (simp_all add: mock_write_locked_def None nomem inv mock_config_eq_def write_outcome_def)
  next
    case (Some priv1)
    note new = create_new_file_inv [OF Some inv None path]
    have sum: "unat (off + sz) = unat off + unat sz" using b by (intro unat_add_no_wrap) simp
    have cfg: "mock_config_eq priv1 priv"
      using create_new_file_SomeD [OF Some] by (auto simp: mock_config_eq_def)
    have run: "mock_write_locked e priv p off d sz = mock_write_at e priv1 0 off d sz"
      by (simp add: mock_write_locked_def None Some)
    have none: "mock_contents priv p = None" by (simp add: mock_contents_def None)
    have len_src: "unat off + min (length d) (unat sz) = unat (off + sz)" using sz sum by simp
    obtain ret priv' where w: "mock_write_at e priv1 0 off d sz = Some (ret, priv')" "mock_inv priv'"
        "mock_config_eq priv' priv1" and ret: "ret \<noteq> XDEVICE_ERROR_OUT_OF_MEMORY"
      and out: "write_outcome (unat (max_file_size priv1)) (mock_contents priv1) p (unat off)
           (take (unat sz) d) ret (mock_contents priv')"
      using mock_write_at_spec [OF new(1,2) sz b, of e] new(5) by (metis order_refl)
    have "write_outcome (unat (max_file_size priv)) (mock_contents priv) p (unat off)
           (take (unat sz) d) ret (mock_contents priv')"
      by (rule write_outcome_fresh)
         (use out cfg ret none in \<open>simp_all add: mock_config_eq_def new(3) len_src\<close>)
    then show thesis
      by (intro that [of ret priv']) (use w cfg run in \<open>simp_all add: mock_config_eq_def\<close>)
  qed
qed

section \<open>Reading\<close>

lemma mock_read_locked_spec:
  assumes inv: "mock_inv priv" and c: "mock_contents priv p = Some c" and off: "unat off < length c"
    and sz: "unat sz \<le> length buf" and b: "unat off + unat sz < 2 ^ 64"
  shows "\<exists>n. mock_read_locked priv p off buf sz =
           Some (XDEVICE_OK, n, overlay buf 0 (file_read c (unat off) (unat sz))) \<and>
         unat n = min (unat sz) (length c - unat off)"
proof -
  from c obtain i where i: "find_file priv p = Some i" and ceq: "c = file_contents (files priv ! i)"
    by (auto simp: mock_contents_def)
  let ?f = "files priv ! i"
  have wf: "file_wf ?f"
    using i inv by (auto simp: find_file_def dest!: find_file_in_SomeD intro: file_inv_nth)
  have len: "length c = unat (fsize ?f)" and cap: "unat (fsize ?f) \<le> length (fdata ?f)"
    using wf ceq file_wf_size by simp_all
  have lt: "off < fsize ?f" using off len by (simp add: word_less_nat_alt)
  have sum: "unat (off + sz) = unat off + unat sz" by (rule unat_add_no_wrap [OF b])
  have sub: "unat (fsize ?f - off) = unat (fsize ?f) - unat off"
    using lt by (intro unat_sub_no_wrap) simp
  define n where "n = (if off + sz > fsize ?f then fsize ?f - off else sz)"
  have n_eq: "unat n = min (unat sz) (length c - unat off)"
    using len sum sub by (auto simp: n_def word_less_nat_alt)
  then have n_le: "n \<le> sz" and n_fits: "unat off + unat n \<le> unat (fsize ?f)"
    using off len by (simp_all add: word_le_nat_alt)
  have src: "take (unat n) (drop (unat off) (fdata ?f)) = take (unat sz) (drop (unat off) c)"
    using n_eq n_fits len cap ceq by (simp add: file_contents_def take_drop min_def)
  have rest: "unat (sz - n) = unat sz - unat n" by (rule unat_sub_no_wrap [OF n_le])
  have run: "mock_read_locked priv p off buf sz = do {
      buf1 \<leftarrow> mem_write buf 0 (take (unat sz) (drop (unat off) c));
      buf2 \<leftarrow> (if n < sz then mem_fill buf1 (unat n) (unat (sz - n)) 0 else Some buf1);
      Some (XDEVICE_OK, n, buf2) }"
    using lt n_fits cap src by (simp add: mock_read_locked_def i Let_def not_le flip: n_def)
  have len_src: "length (take (unat sz) (drop (unat off) c)) = unat n" using n_eq by simp
  show ?thesis
  proof (intro exI [of _ n] conjI)
    show "unat n = min (unat sz) (length c - unat off)" by (rule n_eq)
    show "mock_read_locked priv p off buf sz =
        Some (XDEVICE_OK, n, overlay buf 0 (file_read c (unat off) (unat sz)))"
    proof (cases "n < sz")
      case True
      then have "unat n < unat sz" by (simp add: word_less_nat_alt)
      with True show ?thesis
        using sz n_eq n_le len_src rest
        by (simp add: run file_read_def overlay_def)
    next
      case False
      with n_le have "n = sz" by (simp add: not_less)
      then have "unat sz \<le> length c - unat off" using n_eq by simp
      with False show ?thesis
        using sz len_src by (simp add: run file_read_def)
    qed
  qed
qed


section \<open>The interface operations\<close>

text \<open>An interface object whose private data is a well-formed store.\<close>

definition mock_iface_inv :: "mock_iface \<Rightarrow> bool" where
  "mock_iface_inv i \<longleftrightarrow> (case private_data i of None \<Rightarrow> False | Some priv \<Rightarrow> mock_inv priv)"

definition mock_iface_contents :: "mock_iface \<Rightarrow> string \<Rightarrow> byte list option" where
  "mock_iface_contents i p = Option.bind (private_data i) (\<lambda>priv. mock_contents priv p)"

definition mock_iface_quiet :: "call_env \<Rightarrow> mock_iface \<Rightarrow> bool" where
  "mock_iface_quiet e i \<longleftrightarrow> (case private_data i of None \<Rightarrow> False | Some priv \<Rightarrow> mock_quiet e priv)"

lemmas mock_iface_defs = mock_iface_inv_def mock_iface_contents_def mock_iface_quiet_def

lemma mock_stats_frame [simp]:
  "mock_inv (priv\<lparr>mstats := st\<rparr>) = mock_inv priv"
  "mock_contents (priv\<lparr>mstats := st\<rparr>) = mock_contents priv"
  "mock_quiet e (priv\<lparr>mstats := st\<rparr>) = mock_quiet e priv"
  by (simp_all add: mock_inv_def mock_contents_def find_file_def fun_eq_iff mock_quiet_def
        should_inject_error_def)

lemma mock_config_eq_quiet: "mock_config_eq a b \<Longrightarrow> mock_quiet e a = mock_quiet e b"
  by (simp add: mock_config_eq_def mock_quiet_def should_inject_error_def)

lemma mock_write_sync_spec:
  assumes inv: "mock_iface_inv i" and path: "length p < MAX_PATH_LEN" and nz: "sz \<noteq> 0"
    and sz: "unat sz \<le> length d" and b: "unat off + unat sz < 2 ^ 63"
  obtains ret i' where
      "mock_storage_write_sync e (Some i) (Some p) off (Some d) sz = Some (ret, Some i')"
    and "mock_iface_inv i'" and "\<forall>e'. mock_iface_quiet e' i' = mock_iface_quiet e' i"
    and "itype i' = itype i" and "iname i' = iname i"
    and "ret = XDEVICE_ERROR_IO \<and> mock_iface_contents i' = mock_iface_contents i \<or>
         write_outcome (unat (max_file_size (the (private_data i)))) (mock_iface_contents i) p
           (unat off) (take (unat sz) d) ret (mock_iface_contents i')"
proof -
  from inv obtain priv where priv: "private_data i = Some priv" and pinv: "mock_inv priv"
    by (auto simp: mock_iface_inv_def split: option.splits)
  have cont: "mock_iface_contents i = mock_contents priv"
    by (simp add: mock_iface_contents_def priv fun_eq_iff)
  show thesis
  proof (cases "inject_write_errors priv \<and> should_inject_error e priv")
    case True
    show thesis
      by (rule that [of XDEVICE_ERROR_IO "i\<lparr>private_data := Some (priv\<lparr>mstats := stats_error (mstats priv)\<rparr>)\<rparr>"])
         (use True pinv nz in \<open>simp_all add: mock_storage_write_sync_def priv mock_iface_defs fun_eq_iff\<close>)
  next
    case False
    obtain ret priv' where w: "mock_write_locked e priv p off d sz = Some (ret, priv')"
        "mock_inv priv'" "mock_config_eq priv' priv"
      and out: "write_outcome (unat (max_file_size priv)) (mock_contents priv) p (unat off)
           (take (unat sz) d) ret (mock_contents priv')"
      using mock_write_locked_spec [OF pinv path sz b, of e] by metis
    let ?q = "if ret = XDEVICE_OK then priv'\<lparr>mstats :=
        stats_write sz (latency_ns (t_start e) (t_end e)) (mstats priv')\<rparr> else priv'"
    let ?i = "i\<lparr>private_data := Some ?q\<rparr>"
    have run: "mock_storage_write_sync e (Some i) (Some p) off (Some d) sz = Some (ret, Some ?i)"
      using False nz w(1) by (auto simp: mock_storage_write_sync_def priv)
    have "mock_iface_contents ?i = mock_contents priv'"
      by (simp add: mock_iface_contents_def fun_eq_iff)
    with out w mock_config_eq_quiet [OF w(3)] show thesis
      by (intro that [OF run]) (simp_all add: mock_iface_inv_def mock_iface_quiet_def cont priv)
  qed
qed

lemma mock_read_sync_spec:
  assumes inv: "mock_iface_inv i" and q: "mock_iface_quiet e i" and nz: "sz \<noteq> 0"
    and sz: "unat sz \<le> length buf" and b: "unat off + unat sz < 2 ^ 64"
    and c: "mock_iface_contents i p = Some c" and off: "unat off < length c"
  shows "\<exists>i'. mock_storage_read_sync e (Some i) (Some p) off (Some buf) sz =
           Some (XDEVICE_OK, Some (overlay buf 0 (file_read c (unat off) (unat sz))), Some i') \<and>
         mock_iface_inv i' \<and> mock_iface_contents i' = mock_iface_contents i"
proof -
  from inv obtain priv where priv: "private_data i = Some priv" and pinv: "mock_inv priv"
    by (auto simp: mock_iface_inv_def split: option.splits)
  have cp: "mock_contents priv p = Some c" using c by (simp add: mock_iface_contents_def priv)
  from mock_read_locked_spec [OF pinv cp off sz b] obtain n where
    "mock_read_locked priv p off buf sz =
       Some (XDEVICE_OK, n, overlay buf 0 (file_read c (unat off) (unat sz)))" by blast
  with q nz pinv show ?thesis
    by (simp add: mock_storage_read_sync_def priv mock_iface_defs mock_quiet_def fun_eq_iff)
qed

text \<open>The write and read entries on a live object, in the shape of the contract.\<close>

definition mock_wr :: "call_env \<Rightarrow> mock_iface \<Rightarrow> string \<Rightarrow> u64 \<Rightarrow> byte list \<Rightarrow> u64
    \<Rightarrow> (xdevice_error \<times> mock_iface) option" where
  "mock_wr e i p off d sz = do {
     (ret, i') \<leftarrow> mock_storage_write_sync e (Some i) (Some p) off (Some d) sz;
     j \<leftarrow> i';
     Some (ret, j) }"

definition mock_rd :: "call_env \<Rightarrow> mock_iface \<Rightarrow> string \<Rightarrow> u64 \<Rightarrow> byte list \<Rightarrow> u64
    \<Rightarrow> (xdevice_error \<times> byte list \<times> mock_iface) option" where
  "mock_rd e i p off buf sz = do {
     (ret, out, i') \<leftarrow> mock_storage_read_sync e (Some i) (Some p) off (Some buf) sz;
     b \<leftarrow> out;
     j \<leftarrow> i';
     Some (ret, b, j) }"

interpretation mock_store: byte_store mock_iface_inv mock_iface_quiet mock_iface_contents mock_wr mock_rd
proof
  fix s :: mock_iface and p :: string and sz off :: u64 and d :: "byte list" and e :: call_env
  assume a: "mock_iface_inv s" "length p < MAX_PATH_LEN" "sz \<noteq> 0" "unat sz \<le> length d"
    "unat off + unat sz < 2 ^ 63"
  obtain ret i' where
      w: "mock_storage_write_sync e (Some s) (Some p) off (Some d) sz = Some (ret, Some i')"
    and i': "mock_iface_inv i'" "\<forall>e'. mock_iface_quiet e' i' = mock_iface_quiet e' s"
    and out: "ret = XDEVICE_ERROR_IO \<and> mock_iface_contents i' = mock_iface_contents s \<or>
         write_outcome (unat (max_file_size (the (private_data s)))) (mock_iface_contents s) p
           (unat off) (take (unat sz) d) ret (mock_iface_contents i')"
    by (rule mock_write_sync_spec [OF a, of e]) blast
  then show "\<exists>ret s'. mock_wr e s p off d sz = Some (ret, s') \<and> mock_iface_inv s' \<and>
      (\<forall>e'. mock_iface_quiet e' s' = mock_iface_quiet e' s)"
    by (simp add: mock_wr_def)
  fix s' assume "mock_wr e s p off d sz = Some (XDEVICE_OK, s')"
  with w out show "mock_iface_contents s' = (mock_iface_contents s)
      (p \<mapsto> file_write (mock_iface_contents s p) (unat off) (take (unat sz) d))"
    by (auto simp: mock_wr_def write_outcome_def)
next
  fix s :: mock_iface and p :: string and sz off :: u64 and buf c :: "byte list" and e :: call_env
  assume "mock_iface_inv s" "mock_iface_quiet e s" "sz \<noteq> 0" "unat sz \<le> length buf"
    "unat off + unat sz < 2 ^ 64" "mock_iface_contents s p = Some c" "unat off < length c"
  from mock_read_sync_spec [OF this] show "\<exists>s'. mock_rd e s p off buf sz =
      Some (XDEVICE_OK, overlay buf 0 (file_read c (unat off) (unat sz)), s') \<and>
      mock_iface_inv s' \<and> mock_iface_contents s' = mock_iface_contents s"
    by (auto simp: mock_rd_def)
qed

section \<open>Successful writes\<close>

text \<open>With memory available, a free slot (or an existing file) and the size limit respected, a
  write succeeds.\<close>

lemma mock_write_at_no_oom:
  assumes "\<forall>k. alloc e k" and "mock_write_at e priv i off d sz = Some (ret, priv')"
  shows "ret \<noteq> XDEVICE_ERROR_OUT_OF_MEMORY"
  using assms
  by (auto simp: mock_write_at_def expand_file_def Let_def bind_eq_Some_conv split: if_splits prod.splits)

lemma mock_write_locked_no_oom:
  assumes "\<forall>k. alloc e k" and "find_file priv p \<noteq> None \<or> file_count priv < max_files priv"
    and w: "mock_write_locked e priv p off d sz = Some (ret, priv')"
  shows "ret \<noteq> XDEVICE_ERROR_OUT_OF_MEMORY"
proof -
  have "find_file priv p = None \<Longrightarrow> create_new_file e priv p (off + sz) \<noteq> None"
    using assms(1,2) by (simp add: create_new_file_def Let_def)
  then show ?thesis
    using w mock_write_at_no_oom [OF assms(1)]
    by (auto simp: mock_write_locked_def split: option.splits)
qed

lemma mock_write_sync_succeeds:
  assumes inv: "private_data i = Some priv" "mock_inv priv" and path: "length p < MAX_PATH_LEN"
    and nz: "sz \<noteq> 0" and sz: "unat sz \<le> length d" and b: "unat off + unat sz < 2 ^ 63"
    and env: "\<forall>k. alloc e k" "\<not> inject_write_errors priv"
    and room: "find_file priv p \<noteq> None \<or> file_count priv < max_files priv"
    and fits: "length (file_grow (mock_contents priv p) (unat off + unat sz)) \<le> unat (max_file_size priv)"
  shows "\<exists>i'. mock_storage_write_sync e (Some i) (Some p) off (Some d) sz = Some (XDEVICE_OK, Some i')"
proof -
  obtain ret priv' where w: "mock_write_locked e priv p off d sz = Some (ret, priv')"
    and out: "write_outcome (unat (max_file_size priv)) (mock_contents priv) p (unat off)
           (take (unat sz) d) ret (mock_contents priv')"
    using mock_write_locked_spec [OF inv(2) path sz b, of e] by metis
  have "ret = XDEVICE_OK"
    using out mock_write_locked_no_oom [OF env(1) room w] fits sz by (auto simp: write_outcome_def)
  then show ?thesis
    using w nz env(2) inv(1) by (simp add: mock_storage_write_sync_def)
qed

section \<open>Reachable states\<close>

text \<open>One call of the interface on a live object, made by a client that keeps paths below
  \<open>MAX_PATH_LEN\<close> and writes below \<open>2 ^ 63\<close>.\<close>

inductive mock_step :: "mock_iface \<Rightarrow> mock_iface \<Rightarrow> bool" where
  wr: "length p < MAX_PATH_LEN \<Longrightarrow> unat sz \<le> length d \<Longrightarrow> unat off + unat sz < 2 ^ 63 \<Longrightarrow>
    mock_storage_write_sync e (Some i) (Some p) off (Some d) sz = Some (ret, Some i') \<Longrightarrow>
    mock_step i i'"
| rd: "mock_storage_read_sync e (Some i) (Some p) off (Some buf) sz = Some (ret, out, Some i') \<Longrightarrow>
    mock_step i i'"
| create: "length p < MAX_PATH_LEN \<Longrightarrow>
    mock_storage_create_file e (Some i) (Some p) n = (ret, Some i') \<Longrightarrow> mock_step i i'"
| delete: "mock_storage_delete_file (Some i) (Some p) = (ret, Some i') \<Longrightarrow> mock_step i i'"
| reset: "mock_storage_reset_stats (Some i) = (ret, Some i') \<Longrightarrow> mock_step i i'"
| delays: "mock_storage_set_delays (Some i) r w = Some i' \<Longrightarrow> mock_step i i'"
| inject: "mock_storage_set_error_injection (Some i) ir iw rate = Some i' \<Longrightarrow> mock_step i i'"

inductive mock_reachable :: "mock_iface \<Rightarrow> bool" where
  init: "mock_storage_init e (Some i) config = (XDEVICE_OK, Some i') \<Longrightarrow> mock_reachable i'"
| step: "mock_reachable i \<Longrightarrow> mock_step i i' \<Longrightarrow> mock_reachable i'"

inductive_cases mock_stepE: "mock_step i i'"

lemma remove_file_in_SomeD:
  "remove_file_in fs p = Some fs' \<Longrightarrow>
   \<exists>us f vs. fs = us @ f # vs \<and> fs' = us @ vs \<and> fpath f = p \<and> p \<notin> fpath ` set us"
proof (induction fs arbitrary: fs')
  case (Cons g fs)
  show ?case
  proof (cases "fpath g = p")
    case True
    with Cons.prems show ?thesis by (intro exI [of _ "[]"]) auto
  next
    case False
    with Cons.prems obtain gs where "remove_file_in fs p = Some gs" and "fs' = g # gs" by auto
    with Cons.IH obtain us f vs where "fs = us @ f # vs" "gs = us @ vs" "fpath f = p"
      "p \<notin> fpath ` set us" by blast
    with False \<open>fs' = g # gs\<close> show ?thesis
      by (intro exI [of _ "g # us"] exI [of _ f] exI [of _ vs]) auto
  qed
qed simp

lemma remove_file_inv:
  assumes "mock_inv priv" and "remove_file priv p = (ret, priv')"
  shows "mock_inv priv'"
proof (cases "remove_file_in (files priv) p")
  case None
  with assms show ?thesis by (simp add: remove_file_def)
next
  case (Some fs)
  then obtain us f vs where split: "files priv = us @ f # vs" "fs = us @ vs"
    using remove_file_in_SomeD by blast
  have cnt: "unat (file_count priv) = Suc (length us + length vs)"
    using assms(1) split(1) by (simp add: mock_inv_def)
  then have sub: "unat (file_count priv - 1) = length us + length vs"
    by (simp add: unat_sub word_le_nat_alt)
  have "file_count priv - 1 \<le> max_files priv"
    using assms(1) cnt sub by (simp add: mock_inv_def word_le_nat_alt)
  with assms Some split sub show ?thesis
    by (auto simp: remove_file_def mock_inv_def)
qed

lemma mock_config_inv [simp]:
  "mock_inv (priv\<lparr>read_delay_us := rd, write_delay_us := wd\<rparr>) = mock_inv priv"
  "mock_inv (priv\<lparr>inject_read_errors := ir, inject_write_errors := iw, error_rate_percent := r\<rparr>)
     = mock_inv priv"
  by (simp_all add: mock_inv_def)

lemma mock_read_sync_frame:
  assumes "mock_storage_read_sync e (Some i) p off buf sz = Some (ret, out, Some i')"
    and "private_data i = Some priv"
  obtains st where "private_data i' = Some (priv\<lparr>mstats := st\<rparr>)"
proof -
  have "private_data i' = Some (priv\<lparr>mstats := stats_error (mstats priv)\<rparr>) \<or>
      private_data i' = Some priv \<or>
      (\<exists>n. private_data i' = Some (priv\<lparr>mstats :=
        stats_read n (latency_ns (t_start e) (t_end e)) (mstats priv)\<rparr>))"
    using assms
    by (auto simp: mock_storage_read_sync_def bind_eq_Some_conv split: option.splits if_splits prod.splits)
  then show thesis
    using that that [of "mstats priv"] by auto
qed

lemma mock_step_inv: "mock_step i i' \<Longrightarrow> mock_iface_inv i \<Longrightarrow> mock_iface_inv i'"
proof (induction rule: mock_step.induct)
  case (wr p sz d off e i ret i')
  show ?case
  proof (cases "sz = 0")
    case True
    with wr show ?thesis
      by (auto simp: mock_storage_write_sync_def mock_iface_inv_def split: option.splits)
  next
    case False
    with wr show ?thesis
      by (metis mock_write_sync_spec option.inject prod.inject)
  qed
next
  case (rd e i p off buf sz ret out i')
  then show ?case
    by (auto simp: mock_iface_inv_def split: option.splits elim!: mock_read_sync_frame)
next
  case (create p e i n ret i')
  then show ?case
    by (auto simp: mock_storage_create_file_def mock_iface_inv_def create_new_file_inv
        split: option.splits)
next
  case (delete i p ret i')
  then show ?case
    by (auto simp: mock_storage_delete_file_def mock_iface_inv_def intro: remove_file_inv
        split: option.splits prod.splits)
next
  case (reset i ret i')
  then show ?case
    by (auto simp: mock_storage_reset_stats_def mock_iface_inv_def split: option.splits)
next
  case (delays i r w i')
  then show ?case
    by (auto simp: mock_storage_set_delays_def mock_iface_inv_def split: option.splits if_splits)
next
  case (inject i ir iw rate i')
  then show ?case
    by (auto simp: mock_storage_set_error_injection_def mock_iface_inv_def
        split: option.splits if_splits)
qed

lemma mock_reachable_inv: "mock_reachable i \<Longrightarrow> mock_iface_inv i"
proof (induction rule: mock_reachable.induct)
  case (init e i config i')
  then show ?case
    by (auto simp: mock_storage_init_def mock_iface_inv_def mock_inv_default split: if_splits)
next
  case (step i i')
  then show ?case by (blast intro: mock_step_inv)
qed

section \<open>Limits of the implementation\<close>

text \<open>Where the sum of offset and size wraps around, the block is sized by the wrapped sum while the
  copy uses the offset.\<close>

lemma mock_write_at_wrapped:
  assumes wf: "file_wf (files priv ! i)" and fit: "off + sz \<le> fsize (files priv ! i)"
    and limit: "fsize (files priv ! i) \<le> max_file_size priv"
    and wrap: "2 ^ 64 \<le> unat off + unat sz" and sz: "unat sz \<le> length d"
  shows "mock_write_at e priv i off d sz = None"
proof -
  have "length (fdata (files priv ! i)) < unat off + unat sz"
    using wf wrap unat_u64_bound [of "capacity (files priv ! i)"]
    by (simp add: file_wf_def del: unat_u64_bound)
  then show ?thesis
    using fit limit sz by (auto simp: mock_write_at_def mem_write_def min_def not_less)
qed

text \<open>Names are cut to \<open>MAX_PATH_LEN - 1\<close> characters when stored, and compared in full.\<close>

definition short_names :: "mock_storage_private \<Rightarrow> bool" where
  "short_names priv \<longleftrightarrow> (\<forall>f \<in> set (files priv). length (fpath f) < MAX_PATH_LEN)"

lemma short_names_find: "short_names priv \<Longrightarrow> MAX_PATH_LEN \<le> length p \<Longrightarrow> find_file priv p = None"
  by (auto simp: short_names_def find_file_def find_file_in_None_iff)

lemma expand_file_path: "expand_file e f n = Some (ret, f') \<Longrightarrow> fpath f' = fpath f"
  by (auto simp: expand_file_def Let_def bind_eq_Some_conv split: if_splits)

lemma mock_write_at_names:
  assumes "mock_write_at e priv i off d sz = Some (ret, priv')" and "i < length (files priv)"
  shows "map fpath (files priv') = map fpath (files priv)"
  using assms
  by (auto simp: mock_write_at_def Let_def bind_eq_Some_conv map_fpath_update expand_file_path
        split: if_splits prod.splits)

lemma short_names_map: "short_names priv \<longleftrightarrow> (\<forall>n \<in> set (map fpath (files priv)). length n < MAX_PATH_LEN)"
  by (simp add: short_names_def)

lemma create_new_file_short:
  assumes "create_new_file e priv p n = Some priv'" and "short_names priv"
  shows "short_names priv'" and "files priv' \<noteq> []"
proof -
  have "length (c_strncpy (MAX_PATH_LEN - 1) p) < MAX_PATH_LEN"
    using length_c_strncpy [of "MAX_PATH_LEN - 1" p] by (simp add: MAX_PATH_LEN_def)
  then show "short_names priv'" and "files priv' \<noteq> []"
    using create_new_file_SomeD [OF assms(1)] assms(2) by (auto simp: short_names_def)
qed

lemma mock_write_locked_short:
  assumes "mock_write_locked e priv p off d sz = Some (ret, priv')" and "short_names priv"
  shows "short_names priv'"
proof (cases "find_file priv p")
  case (Some i)
  then have "i < length (files priv)" by (auto simp: find_file_def dest: find_file_in_SomeD)
  with assms Some show ?thesis
    by (simp add: mock_write_locked_def short_names_map mock_write_at_names)
next
  case None
  show ?thesis
  proof (cases "create_new_file e priv p (off + sz)")
    case (Some priv1)
    note short = create_new_file_short [OF Some assms(2)]
    from assms(1) None Some have "mock_write_at e priv1 0 off d sz = Some (ret, priv')"
      by (simp add: mock_write_locked_def)
    from mock_write_at_names [OF this] short show ?thesis
      by (simp add: short_names_map del: set_map)
  qed (use assms None in \<open>simp add: mock_write_locked_def\<close>)
qed

lemma mock_write_locked_config:
  assumes "mock_write_locked e priv p off d sz = Some (ret, priv')" and "\<not> inject_read_errors priv"
  shows "\<not> inject_read_errors priv'"
  using assms
  by (auto simp: mock_write_locked_def mock_write_at_def create_new_file_def Let_def
        bind_eq_Some_conv split: option.splits if_splits prod.splits)

section \<open>Properties\<close>

text \<open>An object as \<open>create_mock_storage_interface\<close> and \<open>mock_storage_init\<close> leave it, for the
  examples.\<close>

definition fresh_mock :: mock_iface where
  "fresh_mock = \<lparr>itype = STORAGE_BACKEND_MOCK, iname = ''MockStorage'',
     private_data = Some mock_default_private\<rparr>"

lemma fresh_mock_ok [simp]:
  "mock_iface_inv fresh_mock" "mock_iface_quiet e fresh_mock"
  "mock_iface_contents fresh_mock = Map.empty"
  by (simp_all add: fresh_mock_def mock_iface_defs mock_inv_default mock_quiet_def fun_eq_iff)
     (simp_all add: mock_default_private_def mock_contents_def find_file_def)

lemma fresh_mock_write:
  "mock_storage_write_sync calm_env (Some fresh_mock) (Some ''wal.log'') 2 (Some [7, 8, 9]) 3 =
     Some (XDEVICE_OK, Some (fresh_mock\<lparr>private_data := Some (mock_default_private\<lparr>
       files := [\<lparr>fpath = ''wal.log'', fdata = [0, 0, 7, 8, 9], fsize = 5, capacity = 5,
                  created_time = 1700000000, modified_time = 1700000000\<rparr>],
       file_count := 1,
       mstats := zero_stats\<lparr>write_ops := 1, write_bytes := 3, write_latency_avg_ns := 750\<rparr>\<rparr>)\<rparr>))"
  by code_simp

text \<open>The code that a write up to position \<open>stop\<close> has to return, with the cause of each error in the order in
  which they are looked at: an injected error; no room for a new file, or no memory for it or for a larger
  block; a file above the size limit.\<close>

definition mock_write_code :: "call_env \<Rightarrow> mock_storage_private \<Rightarrow> string \<Rightarrow> nat \<Rightarrow> xdevice_error" where
  "mock_write_code e priv p stop =
     (if inject_write_errors priv \<and> rand_value e mod 100 < unat (error_rate_percent priv) then XDEVICE_ERROR_IO
      else if (case find_file priv p of
                 None \<Rightarrow> max_files priv \<le> file_count priv \<or> \<not> alloc e 0 \<or> \<not> alloc e 1
               | Some i \<Rightarrow> unat (capacity (files priv ! i)) < stop \<and> \<not> alloc e 2)
      then XDEVICE_ERROR_OUT_OF_MEMORY
      else if unat (max_file_size priv) < length (file_grow (mock_contents priv p) stop) then XDEVICE_ERROR_NO_SPACE
      else XDEVICE_OK)"

lemma mock_write_at_memory:
  assumes "mock_write_at e priv i off d sz = Some (ret, priv')" and "fsize (files priv ! i) \<le> capacity (files priv ! i)"
  shows "ret = XDEVICE_ERROR_OUT_OF_MEMORY \<longleftrightarrow> capacity (files priv ! i) < off + sz \<and> \<not> alloc e 2"
  using assms
  by (auto simp: mock_write_at_def expand_file_def Let_def bind_eq_Some_conv not_le split: if_splits)

lemma mock_write_locked_memory:
  assumes inv: "mock_inv priv" and path: "length p < MAX_PATH_LEN" and nz: "sz \<noteq> 0" and b: "unat off + unat sz < 2 ^ 63"
    and run: "mock_write_locked e priv p off d sz = Some (ret, priv')"
  shows "ret = XDEVICE_ERROR_OUT_OF_MEMORY \<longleftrightarrow>
    (case find_file priv p of
       None \<Rightarrow> max_files priv \<le> file_count priv \<or> \<not> alloc e 0 \<or> \<not> alloc e 1
     | Some i \<Rightarrow> unat (capacity (files priv ! i)) < unat off + unat sz \<and> \<not> alloc e 2)"
proof -
  have sum: "unat (off + sz) = unat off + unat sz" using b by (intro unat_add_no_wrap) simp
  have pos: "0 < off + sz" using nz sum by (simp add: word_less_nat_alt word_neq_0_conv [symmetric] unat_gt_0)
  show ?thesis
  proof (cases "find_file priv p")
    case (Some i)
    then have "i < length (files priv)" by (auto simp: find_file_def dest: find_file_in_SomeD)
    then have "file_wf (files priv ! i)" by (rule file_inv_nth [OF inv])
    then have "fsize (files priv ! i) \<le> capacity (files priv ! i)" by (simp add: file_wf_def)
    with mock_write_at_memory [of e priv i off d sz ret priv'] run Some sum show ?thesis
      by (simp add: mock_write_locked_def word_less_nat_alt)
  next
    case None
    show ?thesis
    proof (cases "create_new_file e priv p (off + sz)")
      case nomem: None
      then have "max_files priv \<le> file_count priv \<or> \<not> alloc e 0 \<or> \<not> alloc e 1"
        by (auto simp: create_new_file_def Let_def split: if_splits)
      with run None nomem show ?thesis by (auto simp: mock_write_locked_def)
    next
      case (Some priv1)
      have "\<not> max_files priv \<le> file_count priv \<and> alloc e 0 \<and> alloc e 1"
        using Some pos by (auto simp: create_new_file_def Let_def split: if_splits)
      moreover obtain f where "files priv1 = f # files priv" "fsize f = off + sz" "capacity f = off + sz"
        using create_new_file_SomeD [OF Some] by auto
      then have "ret \<noteq> XDEVICE_ERROR_OUT_OF_MEMORY"
        using mock_write_at_memory [of e priv1 0 off d sz ret priv'] run None Some by (simp add: mock_write_locked_def)
      ultimately show ?thesis using None by simp
    qed
  qed
qed

text \<open>Property C3.  On a well-formed store, a write below \<open>2 ^ 63\<close> to a path shorter than
  \<open>MAX_PATH_LEN\<close> never leaves the bounds of a block, keeps the store well-formed and refines the abstract
  file store on every branch: it returns exactly the code of \<open>mock_write_code\<close>; on success the file holds the
  data at the offset, on \<open>XDEVICE_ERROR_NO_SPACE\<close> the file has already grown, after the other errors, injected
  or for want of memory, no file has changed.\<close>

theorem mock_write_refines:
  assumes "private_data i = Some priv" and "mock_inv priv" and "length p < MAX_PATH_LEN"
    and "sz \<noteq> 0" and "unat sz \<le> length d" and "unat off + unat sz < 2 ^ 63"
    and "ret = mock_write_code e priv p (unat off + unat sz)"
  shows "\<exists>i' priv'. mock_storage_write_sync e (Some i) (Some p) off (Some d) sz = Some (ret, Some i') \<and>
      private_data i' = Some priv' \<and> mock_inv priv' \<and>
      mock_contents priv' =
        (if ret = XDEVICE_OK
         then (mock_contents priv)(p \<mapsto> file_write (mock_contents priv p) (unat off) (take (unat sz) d))
         else if ret = XDEVICE_ERROR_NO_SPACE
         then (mock_contents priv)(p \<mapsto> file_grow (mock_contents priv p) (unat off + unat sz))
         else mock_contents priv)"
proof -
  have inj: "should_inject_error e priv \<longleftrightarrow> rand_value e mod 100 < unat (error_rate_percent priv)"
    by (simp add: should_inject_error_def)
  show ?thesis
  proof (cases "inject_write_errors priv \<and> should_inject_error e priv")
    case True
    then show ?thesis using assms inj
      by (auto simp: mock_storage_write_sync_def mock_write_code_def)
  next
    case False
    obtain r priv' where w: "mock_write_locked e priv p off d sz = Some (r, priv')" "mock_inv priv'"
      and out: "write_outcome (unat (max_file_size priv)) (mock_contents priv) p (unat off) (take (unat sz) d) r
          (mock_contents priv')"
      using mock_write_locked_spec [OF assms(2,3,5,6), of e] by metis
    have len: "length (take (unat sz) d) = unat sz" using assms(5) by simp
    have r: "r = ret"
      using out mock_write_locked_memory [OF assms(2-4,6) w(1)] False inj len
      by (auto simp: assms(7) mock_write_code_def write_outcome_def file_grow_def split: option.splits)
    let ?q = "if ret = XDEVICE_OK then priv'\<lparr>mstats :=
        stats_write sz (latency_ns (t_start e) (t_end e)) (mstats priv')\<rparr> else priv'"
    have "mock_storage_write_sync e (Some i) (Some p) off (Some d) sz = Some (ret, Some (i\<lparr>private_data := Some ?q\<rparr>))"
      using False assms(1,4) w(1) r by (auto simp: mock_storage_write_sync_def)
    moreover have "mock_inv ?q" "mock_contents ?q = mock_contents priv'" using w(2) by simp_all
    ultimately show ?thesis using out len r by (auto simp: write_outcome_def)
  qed
qed

text \<open>A write that creates the file, and one that meets an injected error.\<close>

theorem mock_write_refines_witness:
  "(\<exists>i' priv'. mock_storage_write_sync calm_env (Some fresh_mock) (Some ''wal.log'') 2 (Some [7, 8, 9]) 3 =
      Some (XDEVICE_OK, Some i') \<and> private_data i' = Some priv' \<and> mock_contents priv' = [''wal.log'' \<mapsto> [0, 0, 7, 8, 9]]) \<and>
   (\<exists>i' priv'. mock_storage_write_sync calm_env (Some (fresh_mock\<lparr>private_data := Some (mock_default_private\<lparr>
      inject_write_errors := True, error_rate_percent := 100\<rparr>)\<rparr>)) (Some ''wal.log'') 2 (Some [7, 8, 9]) 3 =
      Some (XDEVICE_ERROR_IO, Some i') \<and> private_data i' = Some priv' \<and> mock_contents priv' = Map.empty)"
proof
  let ?bad = "mock_default_private\<lparr>inject_write_errors := True, error_rate_percent := 100\<rparr>"
  have none: "mock_contents mock_default_private = Map.empty" "mock_contents ?bad = Map.empty"
    by (simp_all add: mock_contents_def mock_default_private_def find_file_def fun_eq_iff)
  have ok: "mock_write_code calm_env mock_default_private ''wal.log'' 5 = XDEVICE_OK"
    by (simp add: mock_write_code_def mock_default_private_def find_file_def calm_env_def mock_contents_def file_grow_def)
  have io: "mock_write_code calm_env ?bad ''wal.log'' 5 = XDEVICE_ERROR_IO"
    by (simp add: mock_write_code_def)
  have inv: "mock_inv ?bad" using mock_inv_default by (simp add: mock_inv_def)
  have two: "replicate 2 0 = [0, 0 :: byte]" by (simp add: numeral_2_eq_2)
  show "\<exists>i' priv'. mock_storage_write_sync calm_env (Some fresh_mock) (Some ''wal.log'') 2 (Some [7, 8, 9]) 3 =
      Some (XDEVICE_OK, Some i') \<and> private_data i' = Some priv' \<and> mock_contents priv' = [''wal.log'' \<mapsto> [0, 0, 7, 8, 9]]"
    using mock_write_refines [of fresh_mock mock_default_private "''wal.log''" 3 "[7, 8, 9]" 2 XDEVICE_OK calm_env] ok none(1)
    by (auto simp: fresh_mock_def mock_inv_default MAX_PATH_LEN_def file_write_def overlay_def two)
  show "\<exists>i' priv'. mock_storage_write_sync calm_env (Some (fresh_mock\<lparr>private_data := Some ?bad\<rparr>)) (Some ''wal.log'') 2
      (Some [7, 8, 9]) 3 = Some (XDEVICE_ERROR_IO, Some i') \<and> private_data i' = Some priv' \<and> mock_contents priv' = Map.empty"
    using mock_write_refines [of "fresh_mock\<lparr>private_data := Some ?bad\<rparr>" ?bad "''wal.log''" 3 "[7, 8, 9]" 2
        XDEVICE_ERROR_IO calm_env] io none(2) inv
    by (auto simp: MAX_PATH_LEN_def)
qed

text \<open>Fact.  Reading back the range of a successful write returns the written bytes.\<close>

theorem mock_read_your_write:
  assumes "mock_iface_inv i" and "length p < MAX_PATH_LEN" and "sz \<noteq> 0" and "unat sz = length d"
    and "unat off + unat sz < 2 ^ 63" and "length buf = length d" and "mock_iface_quiet e' i"
    and "mock_storage_write_sync e (Some i) (Some p) off (Some d) sz = Some (XDEVICE_OK, Some i')"
  shows "\<exists>j. mock_storage_read_sync e' (Some i') (Some p) off (Some buf) sz =
           Some (XDEVICE_OK, Some d, Some j)"
proof -
  have w: "mock_wr e i p off d sz = Some (XDEVICE_OK, i')" using assms(8) by (simp add: mock_wr_def)
  from mock_store.read_your_write [OF assms(1-6) w assms(7)]
  show ?thesis by (auto simp: mock_rd_def bind_eq_Some_conv)
qed

theorem mock_read_your_write_witness:
  "\<exists>i' j. mock_storage_write_sync calm_env (Some fresh_mock) (Some ''wal.log'') 2 (Some [7, 8, 9]) 3 =
            Some (XDEVICE_OK, Some i') \<and>
          mock_storage_read_sync calm_env (Some i') (Some ''wal.log'') 2 (Some [0, 0, 0]) 3 =
            Some (XDEVICE_OK, Some [7, 8, 9], Some j)"
  using mock_read_your_write [of fresh_mock "''wal.log''" 3 "[7, 8, 9]" 2 "[0, 0, 0]" calm_env,
      OF _ _ _ _ _ _ _ fresh_mock_write] fresh_mock_write
  by (auto simp: MAX_PATH_LEN_def)

text \<open>Property C32.  Every state that a client reaches by the operations of the interface, as long as it keeps
  the paths it writes and creates below \<open>MAX_PATH_LEN\<close> and its writes below \<open>2 ^ 63\<close>, is well-formed: each file's size is within its block, names are unique, and the file counter is the number of
  files and at most the configured maximum.\<close>

theorem mock_reachable_wf:
  assumes "mock_reachable i"
  shows "\<exists>priv. private_data i = Some priv \<and> distinct (map fpath (files priv)) \<and>
      unat (file_count priv) = length (files priv) \<and> file_count priv \<le> max_files priv \<and>
      list_all (\<lambda>f. length (fdata f) = unat (capacity f) \<and> fsize f \<le> capacity f) (files priv)"
  using mock_reachable_inv [OF assms]
  by (auto simp: mock_iface_inv_def mock_inv_def file_wf_def list_all_iff split: option.splits)

theorem mock_reachable_wf_witness:
  "mock_reachable fresh_mock \<and> (\<exists>priv. private_data fresh_mock = Some priv \<and>
      distinct (map fpath (files priv)) \<and>
      unat (file_count priv) = length (files priv) \<and> file_count priv \<le> max_files priv \<and>
      list_all (\<lambda>f. length (fdata f) = unat (capacity f) \<and> fsize f \<le> capacity f) (files priv))"
proof -
  have r: "mock_reachable fresh_mock"
    by (rule mock_reachable.init [of calm_env fresh_mock None])
       (simp add: mock_storage_init_def calm_env_def fresh_mock_def)
  with mock_reachable_wf [OF r] show ?thesis by blast
qed

text \<open>Property C38.  A successful read returns the file's bytes from the offset, padded with zeros
  when the file is shorter than the request, changes no file, and counts one operation and the
  bytes that were in the file.\<close>

theorem mock_read_refines:
  assumes "private_data i = Some priv" and "mock_inv priv" and "mock_quiet e priv" and "sz \<noteq> 0"
    and "unat sz \<le> length buf" and "unat off + unat sz < 2 ^ 64"
    and "mock_contents priv p = Some c" and "unat off < length c"
  shows "\<exists>n. unat n = min (unat sz) (length c - unat off) \<and>
      mock_storage_read_sync e (Some i) (Some p) off (Some buf) sz =
        Some (XDEVICE_OK, Some (overlay buf 0 (file_read c (unat off) (unat sz))),
          Some (i\<lparr>private_data := Some (priv\<lparr>mstats :=
            stats_read n (latency_ns (t_start e) (t_end e)) (mstats priv)\<rparr>)\<rparr>))"
  using mock_read_locked_spec [OF assms(2,7,8,5,6)] assms(1,3,4)
  by (auto simp: mock_storage_read_sync_def mock_quiet_def)

theorem mock_read_refines_witness:
  "\<exists>i j. mock_storage_write_sync calm_env (Some fresh_mock) (Some ''wal.log'') 2 (Some [7, 8, 9]) 3 =
            Some (XDEVICE_OK, Some i) \<and>
     mock_storage_read_sync calm_env (Some i) (Some ''wal.log'') 3 (Some [1, 1, 1, 1]) 4 =
        Some (XDEVICE_OK, Some [8, 9, 0, 0], Some j)"
proof -
  let ?p = "mock_default_private\<lparr>
       files := [\<lparr>fpath = ''wal.log'', fdata = [0, 0, 7, 8, 9], fsize = 5, capacity = 5,
                  created_time = 1700000000, modified_time = 1700000000\<rparr>],
       file_count := 1,
       mstats := zero_stats\<lparr>write_ops := 1, write_bytes := 3, write_latency_avg_ns := 750\<rparr>\<rparr>"
  let ?i = "fresh_mock\<lparr>private_data := Some ?p\<rparr>"
  have p: "mock_inv ?p" "mock_quiet calm_env ?p" "mock_contents ?p ''wal.log'' = Some [0, 0, 7, 8, 9]"
    by (simp_all add: mock_inv_def file_wf_def mock_default_private_def mock_quiet_def
        mock_contents_def find_file_def file_contents_def)
  have "\<exists>j. mock_storage_read_sync calm_env (Some ?i) (Some ''wal.log'') 3 (Some [1, 1, 1, 1]) 4 =
        Some (XDEVICE_OK, Some (overlay [1, 1, 1, 1] 0 (file_read [0, 0, 7, 8, 9] (unat (3 :: u64))
          (unat (4 :: u64)))), Some j)"
    using mock_read_refines [of ?i ?p calm_env 4 "[1, 1, 1, 1]" 3, OF _ p(1,2) _ _ _ p(3)] by auto
  moreover have "overlay [1, 1, 1, 1 :: byte] 0 (file_read [0, 0, 7, 8, 9] (unat (3 :: u64))
      (unat (4 :: u64))) = [8, 9, 0, 0]"
    by code_simp
  ultimately show ?thesis
    using fresh_mock_write by metis
qed

text \<open>Fact.  A read of a file that does not exist, or from an offset at or past its end,
  reports \<open>XDEVICE_ERROR_NOT_FOUND\<close> and changes neither the buffer nor the store.\<close>

theorem mock_read_not_found:
  assumes "private_data i = Some priv" and "mock_inv priv" and "mock_quiet e priv" and "sz \<noteq> 0"
    and "case mock_contents priv p of None \<Rightarrow> True | Some c \<Rightarrow> length c \<le> unat off"
  shows "mock_storage_read_sync e (Some i) (Some p) off (Some buf) sz =
           Some (XDEVICE_ERROR_NOT_FOUND, Some buf, Some i)"
proof (cases "find_file priv p")
  case None
  with assms show ?thesis
    by (auto simp: mock_storage_read_sync_def mock_read_locked_def mock_quiet_def)
next
  case (Some k)
  then have "file_wf (files priv ! k)"
    using assms(2) by (auto simp: find_file_def dest!: find_file_in_SomeD intro: file_inv_nth)
  then have "fsize (files priv ! k) \<le> off"
    using assms(5) Some by (simp add: mock_contents_def word_le_nat_alt)
  with assms Some show ?thesis
    by (auto simp: mock_storage_read_sync_def mock_read_locked_def mock_quiet_def Let_def)
qed

theorem mock_read_not_found_witness:
  "mock_storage_read_sync calm_env (Some fresh_mock) (Some ''absent'') 0 (Some [5]) 1 =
     Some (XDEVICE_ERROR_NOT_FOUND, Some [5], Some fresh_mock)"
  by (rule mock_read_not_found [where priv = mock_default_private])
     (simp_all add: fresh_mock_def mock_inv_def mock_quiet_def mock_contents_def
       mock_default_private_def find_file_def)

text \<open>Fact.  A write that succeeds keeps the file within the size limit; once a file is over
  the limit (which a write that reports \<open>XDEVICE_ERROR_NO_SPACE\<close> leaves behind), no write to it
  succeeds, not even one inside the file.\<close>

theorem mock_over_limit_stuck:
  assumes "private_data i = Some priv" and "mock_inv priv" and "length p < MAX_PATH_LEN"
    and "sz \<noteq> 0" and "unat sz \<le> length d" and "unat off + unat sz < 2 ^ 63"
    and "mock_contents priv p = Some c" and "unat (max_file_size priv) < length c"
  shows "mock_storage_write_sync e (Some i) (Some p) off (Some d) sz \<noteq> Some (XDEVICE_OK, Some i')"
proof
  assume ok: "mock_storage_write_sync e (Some i) (Some p) off (Some d) sz = Some (XDEVICE_OK, Some i')"
  have inv: "mock_iface_inv i" using assms(1,2) by (simp add: mock_iface_inv_def)
  obtain ret j where w: "mock_storage_write_sync e (Some i) (Some p) off (Some d) sz = Some (ret, Some j)"
    and out: "ret = XDEVICE_ERROR_IO \<and> mock_iface_contents j = mock_iface_contents i \<or>
         write_outcome (unat (max_file_size (the (private_data i)))) (mock_iface_contents i) p
           (unat off) (take (unat sz) d) ret (mock_iface_contents j)"
    by (rule mock_write_sync_spec [OF inv assms(3-6), of e]) blast
  with ok assms(1,7,8) show False
    by (auto simp: write_outcome_def mock_iface_contents_def)
qed

theorem mock_over_limit_stuck_witness:
  "let priv = mock_default_private\<lparr>max_file_size := 4\<rparr>; i = fresh_mock\<lparr>private_data := Some priv\<rparr>
   in (case mock_storage_write_sync calm_env (Some i) (Some ''f'') 3 (Some [1, 2]) 2 of
         Some (ret, Some j) \<Rightarrow> ret = XDEVICE_ERROR_NO_SPACE \<and>
           mock_storage_write_sync calm_env (Some j) (Some ''f'') 0 (Some [1]) 1
             \<noteq> Some (XDEVICE_OK, Some i)
       | _ \<Rightarrow> False)"
proof -
  define fl where "fl = \<lparr>fpath = ''f'', fdata = [0, 0, 0, 0, 0], fsize = 5, capacity = 5,
    created_time = 1700000000, modified_time = 1700000000\<rparr>"
  define q where "q = mock_default_private\<lparr>max_file_size := 4, files := [fl], file_count := 1\<rparr>"
  let ?i = "fresh_mock\<lparr>private_data := Some (mock_default_private\<lparr>max_file_size := 4\<rparr>)\<rparr>"
  let ?j = "fresh_mock\<lparr>private_data := Some q\<rparr>"
  have w: "mock_storage_write_sync calm_env (Some ?i) (Some ''f'') 3 (Some [1, 2]) 2 =
      Some (XDEVICE_ERROR_NO_SPACE, Some ?j)"
    unfolding q_def fl_def by code_simp
  have q: "mock_inv q" "mock_contents q ''f'' = Some [0, 0, 0, 0, 0]" "max_file_size q = 4"
    by (simp_all add: q_def fl_def mock_inv_def file_wf_def mock_default_private_def
        mock_contents_def find_file_def file_contents_def)
  have "mock_storage_write_sync calm_env (Some ?j) (Some ''f'') 0 (Some [1]) 1 \<noteq> Some (XDEVICE_OK, Some ?i)"
    by (rule mock_over_limit_stuck [of ?j q, OF _ q(1) _ _ _ _ q(2)])
       (simp_all add: q(3) MAX_PATH_LEN_def)
  with w show ?thesis by (simp add: Let_def)
qed

text \<open>Fact.  When offset and size of a write to a new file wrap around \<open>2 ^ 64\<close>, the block is
  allocated for the wrapped sum and the copy leaves it: undefined behaviour, with no error return
  before it.\<close>

theorem mock_write_wrap_undefined:
  assumes "private_data i = Some priv" and "find_file priv p = None" and "\<forall>k. alloc e k"
    and "file_count priv < max_files priv" and "\<not> inject_write_errors priv"
    and "2 ^ 64 \<le> unat off + unat sz" and "unat sz \<le> length d" and "off + sz \<le> max_file_size priv"
  shows "mock_storage_write_sync e (Some i) (Some p) off (Some d) sz = None"
proof -
  have nz: "sz \<noteq> 0" using assms(6) unat_u64_bound [of off] by (auto simp del: unat_u64_bound)
  obtain priv1 where c: "create_new_file e priv p (off + sz) = Some priv1"
    using assms(3,4) by (fastforce simp: create_new_file_def Let_def)
  from create_new_file_SomeD [OF c] have f: "file_wf (files priv1 ! 0)"
      "fsize (files priv1 ! 0) = off + sz" "max_file_size priv1 = max_file_size priv"
    by (auto simp: file_wf_def)
  have "mock_write_locked e priv p off d sz = None"
    using mock_write_at_wrapped [OF f(1) _ _ assms(6,7), of e] f assms(2,8) c
    by (simp add: mock_write_locked_def)
  with assms(1,5) nz show ?thesis by (simp add: mock_storage_write_sync_def)
qed

theorem mock_write_wrap_undefined_witness:
  "mock_storage_write_sync calm_env (Some fresh_mock) (Some ''f'') 0xFFFFFFFFFFFFFFFF (Some [1, 2]) 2 = None"
  by (rule mock_write_wrap_undefined [where priv = mock_default_private])
     (simp_all add: fresh_mock_def mock_default_private_def find_file_def calm_env_def)

text \<open>Fact.  A successful write under a name of \<open>MAX_PATH_LEN\<close> characters or more stores the
  file under a shortened name: the next read of the same name does not find it.\<close>

theorem mock_long_name_lost:
  assumes "private_data i = Some priv" and "short_names priv" and "MAX_PATH_LEN \<le> length p"
    and "\<not> inject_read_errors priv" and "\<not> inject_write_errors priv" and "sz \<noteq> 0"
    and "mock_storage_write_sync e (Some i) (Some p) off (Some d) sz = Some (XDEVICE_OK, Some i')"
  shows "mock_storage_read_sync e' (Some i') (Some p) off (Some buf) sz =
           Some (XDEVICE_ERROR_NOT_FOUND, Some buf, Some i')"
proof -
  from assms(1,5,6,7) obtain ret priv' where w0: "mock_write_locked e priv p off d sz = Some (ret, priv')"
    by (cases "mock_write_locked e priv p off d sz") (auto simp: mock_storage_write_sync_def)
  with assms(1,5,6,7) have w: "mock_write_locked e priv p off d sz = Some (XDEVICE_OK, priv')"
    by (auto simp: mock_storage_write_sync_def split: if_splits)
  with assms(1,5,6,7) have i': "private_data i' = Some (priv'\<lparr>mstats :=
        stats_write sz (latency_ns (t_start e) (t_end e)) (mstats priv')\<rparr>)"
    by (auto simp: mock_storage_write_sync_def)
  have "\<not> inject_read_errors priv'"
    using w assms(4) by (rule mock_write_locked_config)
  moreover have "find_file (priv'\<lparr>mstats := st\<rparr>) p = None" for st
    using short_names_find [OF mock_write_locked_short [OF w assms(2)] assms(3)]
    by (simp add: find_file_def)
  ultimately show ?thesis
    using i' assms(6) by (simp add: mock_storage_read_sync_def mock_read_locked_def)
qed

theorem mock_long_name_lost_witness:
  "let p = replicate 512 CHR ''a''
   in \<exists>i'. mock_storage_write_sync calm_env (Some fresh_mock) (Some p) 0 (Some [1]) 1 =
             Some (XDEVICE_OK, Some i') \<and>
           mock_storage_read_sync calm_env (Some i') (Some p) 0 (Some [0]) 1 =
             Some (XDEVICE_ERROR_NOT_FOUND, Some [0], Some i')"
proof -
  let ?p = "replicate 512 CHR ''a''"
  have "\<exists>i'. mock_storage_write_sync calm_env (Some fresh_mock) (Some ?p) 0 (Some [1]) 1 =
             Some (XDEVICE_OK, Some i')"
    by (simp add: mock_storage_write_sync_def fresh_mock_def mock_write_locked_def
        mock_default_private_def find_file_def create_new_file_def calm_env_def mock_write_at_def)
  moreover have "mock_storage_read_sync calm_env (Some i') (Some ?p) 0 (Some [0]) 1 =
      Some (XDEVICE_ERROR_NOT_FOUND, Some [0], Some i')"
    if "mock_storage_write_sync calm_env (Some fresh_mock) (Some ?p) 0 (Some [1]) 1 =
             Some (XDEVICE_OK, Some i')" for i'
    by (rule mock_long_name_lost [OF _ _ _ _ _ _ that, where priv = mock_default_private])
       (simp_all add: fresh_mock_def short_names_def mock_default_private_def MAX_PATH_LEN_def)
  ultimately show ?thesis by (auto simp: Let_def)
qed

lemma mock_contents_as_map:
  "mock_contents priv p = map_option file_contents (map_option ((!) (files priv)) (find_file priv p))"
  by (simp add: mock_contents_def option.map_comp comp_def)

lemma remove_file_in_None: "remove_file_in fs p = None \<longleftrightarrow> p \<notin> fpath ` set fs"
  by (induction fs) auto

text \<open>Fact.  Deleting succeeds exactly for the files that exist; afterwards the file is gone
  and every other file is as before.\<close>

theorem mock_delete_refines:
  assumes "private_data i = Some priv" and "mock_inv priv"
  shows "\<exists>ret priv'. mock_storage_delete_file (Some i) (Some p) =
      (ret, Some (i\<lparr>private_data := Some priv'\<rparr>)) \<and>
      ret = (if mock_contents priv p = None then XDEVICE_ERROR_NOT_FOUND else XDEVICE_OK) \<and>
      mock_contents priv' = (mock_contents priv)(p := None)"
proof (cases "remove_file_in (files priv) p")
  case None
  then have "find_file priv p = None"
    by (simp add: find_file_def find_file_in_None_iff remove_file_in_None)
  then have "mock_contents priv p = None" by (simp add: mock_contents_def)
  with None assms(1) show ?thesis
    by (intro exI [of _ XDEVICE_ERROR_NOT_FOUND] exI [of _ priv])
       (simp add: mock_storage_delete_file_def remove_file_def fun_upd_idem)
next
  case (Some fs)
  then have "find_file priv p \<noteq> None"
    by (metis find_file_def find_file_in_None_iff option.distinct(1) remove_file_in_None)
  moreover have "distinct (map fpath (files priv))" using assms(2) by (simp add: mock_inv_def)
  note find_file_in_remove [OF Some this]
  then have "mock_contents (priv\<lparr>files := fs, file_count := file_count priv - 1\<rparr>) =
      (mock_contents priv)(p := None)"
    by (auto simp: fun_eq_iff mock_contents_as_map find_file_def)
  ultimately show ?thesis
    using Some assms(1)
    by (auto simp: mock_storage_delete_file_def remove_file_def mock_contents_def)
qed

theorem mock_delete_refines_witness:
  "\<exists>ret priv'. mock_storage_delete_file (Some fresh_mock) (Some ''x'') =
      (ret, Some (fresh_mock\<lparr>private_data := Some priv'\<rparr>)) \<and>
      ret = (if mock_contents mock_default_private ''x'' = None
             then XDEVICE_ERROR_NOT_FOUND else XDEVICE_OK) \<and>
      mock_contents priv' = (mock_contents mock_default_private)(''x'' := None)"
  by (rule mock_delete_refines) (simp_all add: fresh_mock_def mock_inv_default)

text \<open>Fact.  The latency the backends and the manager compute in wrapping 64-bit arithmetic
  is the elapsed time, also when the nanosecond field of the later reading is the smaller one.\<close>

theorem latency_ns_correct:
  assumes "timespec_ns start \<le> timespec_ns fin" and "timespec_ns fin - timespec_ns start < 2 ^ 64"
  shows "unat (latency_ns start fin) = timespec_ns fin - timespec_ns start"
  using assms by (simp add: latency_ns_eq_of_nat unat_of_nat del: of_nat_diff)

theorem latency_ns_correct_witness:
  "unat (latency_ns \<lparr>tv_sec = 10, tv_nsec = 999999000\<rparr> \<lparr>tv_sec = 11, tv_nsec = 500\<rparr>) =
     timespec_ns \<lparr>tv_sec = 11, tv_nsec = 500\<rparr> - timespec_ns \<lparr>tv_sec = 10, tv_nsec = 999999000\<rparr>"
  by (rule latency_ns_correct) (simp_all add: timespec_ns_def)

text \<open>Fact.  A simulated delay is a valid argument of \<open>nanosleep\<close> (less than a second of
  nanoseconds) and lasts exactly the requested number of microseconds.\<close>

theorem simulate_delay_exact:
  "case simulate_delay us of
     None \<Rightarrow> us = 0
   | Some t \<Rightarrow> unat (tv_nsec t) < 1000000000 \<and> timespec_ns t = unat us * 1000"
proof (cases "us = 0")
  case True
  then show ?thesis by (simp add: simulate_delay_def)
next
  case False
  have "unat ((us mod 1000000) * 1000) = unat us mod 1000000 * 1000"
    by (simp add: unat_word_ariths unat_mod)
  moreover have "unat (ucast w :: u64) = unat w" for w :: u32
    using unat_u32_bound [of w]
    by (simp add: unsigned_ucast_eq take_bit_nat_eq_self del: unat_u32_bound)
  moreover have "unat (us div 1000000) = unat us div 1000000" by (simp add: unat_div)
  moreover have "d * 1000000000 + m * 1000 = n * 1000" if "d * 1000000 + m = n" for d m n :: nat
    using that by simp
  note this [OF div_mult_mod_eq [of "unat us" 1000000]]
  ultimately show ?thesis
    using False by (simp add: simulate_delay_def timespec_ns_def word_gt_0)
qed

end
