(* ===== verification/XD_Manager.thy ===== *)
theory XD_Manager
  imports XD_Mock
begin

text \<open>
  The storage manager of \<open>src/storage/storage_manager.c\<close>: registration of backends, selection of a
  backend with failover, routed reads, writes and syncs, and the global statistics.  The interface
  objects live in a heap because the manager holds pointers to them, which may alias.  The contract
  \<open>byte_store\<close> of a backend is shown to carry over to the manager that routes to it (sublocale
  \<open>managed\<close>).
\<close>

section \<open>State\<close>

datatype load_balance_algorithm =
    LOAD_BALANCE_ROUND_ROBIN
  | LOAD_BALANCE_LATENCY
  | LOAD_BALANCE_BANDWIDTH

record storage_manager =
  backends :: "nat option list"
  backend_count :: u32
  primary_backend :: storage_backend_type
  fallback_backend :: storage_backend_type
  auto_failover :: bool
  failover_timeout_ms :: u32
  lb_enabled :: bool
  lb_algorithm :: load_balance_algorithm
  lb_current_backend :: u32
  read_cache_enabled :: bool
  write_cache_enabled :: bool
  cache_size :: u64
  cache_ttl_seconds :: u32
  global_stats :: storage_stats

text \<open>The interface objects by address, and the part of the operating system the backends use.\<close>

record ('p, 'w) sys =
  objs :: "nat \<rightharpoonup> ('p, 'w) storage_interface"
  os :: 'w

text \<open>The constructor of the in-memory backend; \<open>p\<close> is the result of \<open>malloc\<close>.\<close>

definition mock_table :: "(mock_storage_private, 'w) storage_interface" where
  "mock_table = \<lparr>itype = STORAGE_BACKEND_MOCK, iname = c_strncpy 63 ''MockStorage'', private_data = None,
     init_fn = Some (\<lambda>e w i c. Some (case mock_storage_init e i c of (ret, i') \<Rightarrow> (ret, i', w))),
     cleanup_fn = Some (\<lambda>e w i. Some (case mock_storage_cleanup i of (ret, i') \<Rightarrow> (ret, i', w))),
     health_check_fn = Some (\<lambda>e w i. mock_storage_health_check i),
     read_sync_fn = Some (\<lambda>e w i p off buf n.
       map_option (\<lambda>(ret, b, i'). (ret, b, i', w)) (mock_storage_read_sync e i p off buf n)),
     write_sync_fn = Some (\<lambda>e w i p off d n.
       map_option (\<lambda>(ret, i'). (ret, i', w)) (mock_storage_write_sync e i p off d n)),
     fsync_fn = Some (\<lambda>e w i p. Some (mock_storage_fsync i p, i, w)),
     create_file_fn = Some (\<lambda>e w i p n. Some (case mock_storage_create_file e i p n of (ret, i') \<Rightarrow> (ret, i', w))),
     delete_file_fn = Some (\<lambda>e w i p. Some (case mock_storage_delete_file i p of (ret, i') \<Rightarrow> (ret, i', w))),
     get_file_info_fn = Some (\<lambda>e w i p inf. Some (mock_storage_get_file_info i p inf)),
     get_stats_fn = Some mock_storage_get_stats,
     reset_stats_fn = Some mock_storage_reset_stats,
     read_async_fn = None, write_async_fn = None, batch_operations_fn = None\<rparr>"


definition create_mock_storage_interface ::
  "nat option \<Rightarrow> (mock_storage_private, 'w) sys \<Rightarrow> nat option \<times> (mock_storage_private, 'w) sys" where
  "create_mock_storage_interface p s =
     (case p of
        None \<Rightarrow> (None, s)
      | Some a \<Rightarrow> (Some a, s\<lparr>objs := (objs s)(a \<mapsto> mock_table)\<rparr>))"

section \<open>Access to the registered backends\<close>

text \<open>\<open>manager->backends[i]\<close> and the object it points to; \<open>None\<close> when the index is out of the array
  or the pointer is null or dangling.\<close>

definition slot :: "storage_manager \<Rightarrow> nat \<Rightarrow> nat option option" where
  "slot m i = (if i < length (backends m) then Some (backends m ! i) else None)"

definition backend_at ::
  "('p, 'w) sys \<Rightarrow> storage_manager \<Rightarrow> nat \<Rightarrow> (nat \<times> ('p, 'w) storage_interface) option" where
  "backend_at s m i = do { p \<leftarrow> slot m i; a \<leftarrow> p; b \<leftarrow> objs s a; Some (a, b) }"

definition set_slot :: "nat \<Rightarrow> nat option \<Rightarrow> storage_manager \<Rightarrow> storage_manager option" where
  "set_slot i p m = (if i < length (backends m) then Some (m\<lparr>backends := (backends m)[i := p]\<rparr>) else None)"

text \<open>The loops that look for a backend: the index and address of the first one that satisfies
  \<open>P\<close>.\<close>

fun find_backend ::
  "(('p, 'w) storage_interface \<Rightarrow> bool) \<Rightarrow> ('p, 'w) sys \<Rightarrow> storage_manager \<Rightarrow> nat list
     \<Rightarrow> (nat \<times> nat) option option" where
  "find_backend P s m [] = Some None"
| "find_backend P s m (i # is) = do {
     (a, b) \<leftarrow> backend_at s m i;
     if P b then Some (Some (i, a)) else find_backend P s m is }"

definition loop_range :: "storage_manager \<Rightarrow> nat list" where
  "loop_range m = [0..<unat (backend_count m)]"

text \<open>\<open>backend->cleanup(backend)\<close> when the entry is not null.\<close>

definition call_cleanup ::
  "call_env \<Rightarrow> ('p, 'w) sys \<Rightarrow> nat \<Rightarrow> ('p, 'w) storage_interface \<Rightarrow> ('p, 'w) sys option" where
  "call_cleanup e s a b =
     (case cleanup_fn b of
        None \<Rightarrow> Some s
      | Some f \<Rightarrow> do {
          (ret, i, w) \<leftarrow> f e (os s) (Some (self_of b));
          Some (s\<lparr>objs := (objs s)(a \<mapsto> put_self i b), os := w\<rparr>) })"

section \<open>The code\<close>

definition manager_defaults :: storage_manager where
  "manager_defaults = \<lparr>backends = replicate MAX_STORAGE_BACKENDS None, backend_count = 0,
     primary_backend = STORAGE_BACKEND_LOCAL, fallback_backend = STORAGE_BACKEND_MOCK,
     auto_failover = True, failover_timeout_ms = 5000, lb_enabled = False,
     lb_algorithm = LOAD_BALANCE_ROUND_ROBIN, lb_current_backend = 0, read_cache_enabled = False,
     write_cache_enabled = False, cache_size = 0, cache_ttl_seconds = 300, global_stats = zero_stats\<rparr>"

definition storage_manager_init ::
  "call_env \<Rightarrow> storage_manager option \<Rightarrow> xdevice_error \<times> storage_manager option" where
  "storage_manager_init e manager =
     (case manager of
        None \<Rightarrow> (XDEVICE_ERROR_INVALID_PARAM, None)
      | Some _ \<Rightarrow> (if mutex_ok e 0 then XDEVICE_OK else XDEVICE_ERROR, Some manager_defaults))"

fun cleanup_loop ::
  "call_env \<Rightarrow> ('p, 'w) sys \<Rightarrow> storage_manager \<Rightarrow> nat list \<Rightarrow> (('p, 'w) sys \<times> storage_manager) option" where
  "cleanup_loop e s m [] = Some (s, m)"
| "cleanup_loop e s m (i # is) = do {
     p \<leftarrow> slot m i;
     s1 \<leftarrow> (case p of None \<Rightarrow> Some s | Some a \<Rightarrow> do { b \<leftarrow> objs s a; call_cleanup e s a b });
     m1 \<leftarrow> set_slot i None m;
     cleanup_loop e s1 m1 is }"

definition storage_manager_cleanup ::
  "call_env \<Rightarrow> ('p, 'w) sys \<Rightarrow> storage_manager option
     \<Rightarrow> (xdevice_error \<times> storage_manager option \<times> ('p, 'w) sys) option" where
  "storage_manager_cleanup e s manager =
     (case manager of
        None \<Rightarrow> Some (XDEVICE_ERROR_INVALID_PARAM, None, s)
      | Some m \<Rightarrow> do {
          (s1, m1) \<leftarrow> cleanup_loop e s m (loop_range m);
          Some (XDEVICE_OK, Some (m1\<lparr>backend_count := 0\<rparr>), s1) })"

definition storage_manager_register_backend ::
  "call_env \<Rightarrow> ('p, 'w) sys \<Rightarrow> storage_manager option \<Rightarrow> nat option
     \<Rightarrow> (xdevice_error \<times> storage_manager option \<times> ('p, 'w) sys) option" where
  "storage_manager_register_backend e s manager backend =
     (case (manager, backend) of
        (Some m, Some p) \<Rightarrow>
          if unat (backend_count m) \<ge> MAX_STORAGE_BACKENDS then Some (XDEVICE_ERROR, manager, s)
          else do {
            new \<leftarrow> objs s p;
            found \<leftarrow> find_backend (\<lambda>b. itype b = itype new) s m (loop_range m);
            (case found of
               Some (i, a) \<Rightarrow> do {
                 b \<leftarrow> objs s a;
                 s1 \<leftarrow> call_cleanup e s a b;
                 m1 \<leftarrow> set_slot i (Some p) m;
                 Some (XDEVICE_OK, Some m1, s1) }
             | None \<Rightarrow> do {
                 m1 \<leftarrow> set_slot (unat (backend_count m)) (Some p) m;
                 Some (XDEVICE_OK, Some (m1\<lparr>backend_count := backend_count m1 + 1\<rparr>), s) }) }
      | _ \<Rightarrow> Some (XDEVICE_ERROR_INVALID_PARAM, manager, s))"

text \<open>The loop that moves the later entries down by one.\<close>

fun shift_down :: "storage_manager \<Rightarrow> nat list \<Rightarrow> storage_manager option" where
  "shift_down m [] = Some m"
| "shift_down m (j # js) = do { p \<leftarrow> slot m (j + 1); m1 \<leftarrow> set_slot j p m; shift_down m1 js }"

definition storage_manager_unregister_backend ::
  "call_env \<Rightarrow> ('p, 'w) sys \<Rightarrow> storage_manager option \<Rightarrow> storage_backend_type
     \<Rightarrow> (xdevice_error \<times> storage_manager option \<times> ('p, 'w) sys) option" where
  "storage_manager_unregister_backend e s manager ty =
     (case manager of
        None \<Rightarrow> Some (XDEVICE_ERROR_INVALID_PARAM, None, s)
      | Some m \<Rightarrow> do {
          found \<leftarrow> find_backend (\<lambda>b. itype b = ty) s m (loop_range m);
          (case found of
             None \<Rightarrow> Some (XDEVICE_ERROR_NOT_FOUND, manager, s)
           | Some (i, a) \<Rightarrow> do {
               b \<leftarrow> objs s a;
               s1 \<leftarrow> call_cleanup e s a b;
               m1 \<leftarrow> shift_down m [i..<unat (backend_count m - 1)];
               m2 \<leftarrow> set_slot (unat (backend_count m1 - 1)) None
                      (m1\<lparr>backend_count := backend_count m1 - 1\<rparr>);
               Some (XDEVICE_OK, Some m2, s1) }) })"

text \<open>The address of the selected backend; the outer \<open>option\<close> is for undefined behaviour.\<close>

definition healthy :: "call_env \<Rightarrow> ('p, 'w) sys \<Rightarrow> ('p, 'w) storage_interface \<Rightarrow> bool" where
  "healthy e s b =
     (case health_check_fn b of None \<Rightarrow> False | Some f \<Rightarrow> f e (os s) (Some (self_of b)) = XDEVICE_OK)"

definition select_backend ::
  "call_env \<Rightarrow> ('p, 'w) sys \<Rightarrow> storage_manager option \<Rightarrow> nat option option" where
  "select_backend e s manager =
     (case manager of
        None \<Rightarrow> Some None
      | Some m \<Rightarrow>
          if backend_count m = 0 then Some None
          else do {
            r1 \<leftarrow> find_backend (\<lambda>b. itype b = primary_backend m \<and> healthy e s b) s m (loop_range m);
            (case r1 of
               Some (i, a) \<Rightarrow> Some (Some a)
             | None \<Rightarrow> do {
                 r2 \<leftarrow> (if auto_failover m
                        then find_backend (\<lambda>b. itype b = fallback_backend m \<and> healthy e s b) s m (loop_range m)
                        else Some None);
                 (case r2 of
                    Some (i, a) \<Rightarrow> Some (Some a)
                  | None \<Rightarrow> do {
                      r3 \<leftarrow> find_backend (healthy e s) s m (loop_range m);
                      Some (map_option snd r3) }) }) })"

definition update_stats :: "bool \<Rightarrow> u64 \<Rightarrow> u64 \<Rightarrow> storage_manager \<Rightarrow> storage_manager" where
  "update_stats is_read bytes lat m = m\<lparr>global_stats :=
     (if is_read then stats_read bytes lat (global_stats m) else stats_write bytes lat (global_stats m))\<rparr>"

definition count_error :: "storage_manager \<Rightarrow> storage_manager" where
  "count_error m = m\<lparr>global_stats := stats_error (global_stats m)\<rparr>"

definition storage_manager_read ::
  "call_env \<Rightarrow> ('p, 'w) sys \<Rightarrow> storage_manager option \<Rightarrow> string option \<Rightarrow> u64 \<Rightarrow> byte list option \<Rightarrow> u64
     \<Rightarrow> (xdevice_error \<times> byte list option \<times> storage_manager option \<times> ('p, 'w) sys) option" where
  "storage_manager_read e s manager path offset buffer sz =
     (case (manager, path, buffer) of
        (Some m, Some _, Some _) \<Rightarrow>
          if sz = 0 then Some (XDEVICE_ERROR_INVALID_PARAM, buffer, manager, s)
          else do {
            sel \<leftarrow> select_backend e s manager;
            (case sel of
               None \<Rightarrow> Some (XDEVICE_ERROR, buffer, manager, s)
             | Some a \<Rightarrow> do {
                 b \<leftarrow> objs s a;
                 f \<leftarrow> read_sync_fn b;
                 (ret, buf, i, w) \<leftarrow> f e (os s) (Some (self_of b)) path offset buffer sz;
                 Some (ret, buf,
                   Some (if ret = XDEVICE_OK
                         then update_stats True sz (latency_ns (m_start e) (m_end e)) m
                         else count_error m),
                   s\<lparr>objs := (objs s)(a \<mapsto> put_self i b), os := w\<rparr>) }) }
      | _ \<Rightarrow> Some (XDEVICE_ERROR_INVALID_PARAM, buffer, manager, s))"

definition storage_manager_write ::
  "call_env \<Rightarrow> ('p, 'w) sys \<Rightarrow> storage_manager option \<Rightarrow> string option \<Rightarrow> u64 \<Rightarrow> byte list option \<Rightarrow> u64
     \<Rightarrow> (xdevice_error \<times> storage_manager option \<times> ('p, 'w) sys) option" where
  "storage_manager_write e s manager path offset data sz =
     (case (manager, path, data) of
        (Some m, Some _, Some _) \<Rightarrow>
          if sz = 0 then Some (XDEVICE_ERROR_INVALID_PARAM, manager, s)
          else do {
            sel \<leftarrow> select_backend e s manager;
            (case sel of
               None \<Rightarrow> Some (XDEVICE_ERROR, manager, s)
             | Some a \<Rightarrow> do {
                 b \<leftarrow> objs s a;
                 f \<leftarrow> write_sync_fn b;
                 (ret, i, w) \<leftarrow> f e (os s) (Some (self_of b)) path offset data sz;
                 Some (ret,
                   Some (if ret = XDEVICE_OK
                         then update_stats False sz (latency_ns (m_start e) (m_end e)) m
                         else count_error m),
                   s\<lparr>objs := (objs s)(a \<mapsto> put_self i b), os := w\<rparr>) }) }
      | _ \<Rightarrow> Some (XDEVICE_ERROR_INVALID_PARAM, manager, s))"

definition storage_manager_sync ::
  "call_env \<Rightarrow> ('p, 'w) sys \<Rightarrow> storage_manager option \<Rightarrow> string option
     \<Rightarrow> (xdevice_error \<times> ('p, 'w) sys) option" where
  "storage_manager_sync e s manager path =
     (case (manager, path) of
        (Some m, Some _) \<Rightarrow> do {
          sel \<leftarrow> select_backend e s manager;
          (case sel of
             None \<Rightarrow> Some (XDEVICE_ERROR, s)
           | Some a \<Rightarrow> do {
               b \<leftarrow> objs s a;
               (case fsync_fn b of
                  None \<Rightarrow> Some (XDEVICE_OK, s)
                | Some f \<Rightarrow> do {
                    (ret, i, w) \<leftarrow> f e (os s) (Some (self_of b)) path;
                    Some (ret, s\<lparr>objs := (objs s)(a \<mapsto> put_self i b), os := w\<rparr>) }) }) }
      | _ \<Rightarrow> Some (XDEVICE_ERROR_INVALID_PARAM, s))"

section \<open>Well-formed managers\<close>

text \<open>The addresses of the registered backends in order, and the representation of such a list in
  the array and the counter.\<close>

definition registered :: "storage_manager \<Rightarrow> nat list" where
  "registered m = map the (take (unat (backend_count m)) (backends m))"

definition manager_rep :: "storage_manager \<Rightarrow> nat list \<Rightarrow> bool" where
  "manager_rep m as \<longleftrightarrow> backends m = map Some as @ replicate (MAX_STORAGE_BACKENDS - length as) None \<and>
     unat (backend_count m) = length as \<and> length as \<le> MAX_STORAGE_BACKENDS"

definition type_at :: "('p, 'w) sys \<Rightarrow> nat \<Rightarrow> storage_backend_type option" where
  "type_at s a = map_option itype (objs s a)"

definition manager_wf :: "('p, 'w) sys \<Rightarrow> storage_manager \<Rightarrow> bool" where
  "manager_wf s m \<longleftrightarrow> manager_rep m (registered m) \<and> None \<notin> type_at s ` set (registered m) \<and>
     distinct (map (type_at s) (registered m))"

lemma manager_rep_registered: "manager_rep m as \<Longrightarrow> registered m = as"
  by (simp add: manager_rep_def registered_def comp_def)

lemma manager_repD:
  assumes "manager_rep m as"
  shows "length (backends m) = MAX_STORAGE_BACKENDS" "unat (backend_count m) = length as"
    "length as \<le> MAX_STORAGE_BACKENDS" "loop_range m = [0..<length as]"
    "i < length as \<Longrightarrow> slot m i = Some (Some (as ! i))"
  using assms by (auto simp: manager_rep_def loop_range_def slot_def nth_append)

lemma manager_wf_cong: "type_at s' = type_at s \<Longrightarrow> manager_wf s' m = manager_wf s m"
  by (simp add: manager_wf_def)

lemma manager_rep_stats [simp]:
  "manager_rep (m\<lparr>global_stats := g\<rparr>) as = manager_rep m as"
  "registered (m\<lparr>global_stats := g\<rparr>) = registered m"
  by (simp_all add: manager_rep_def registered_def)

lemma manager_wf_stats [simp]:
  "manager_wf s (update_stats r n l m) = manager_wf s m" "manager_wf s (count_error m) = manager_wf s m"
  by (simp_all add: manager_wf_def update_stats_def count_error_def)

definition obj_at :: "('p, 'w) sys \<Rightarrow> nat \<Rightarrow> ('p, 'w) storage_interface" where
  "obj_at s a = the (objs s a)"

lemma type_at_Some: "type_at s a = Some t \<longleftrightarrow> (\<exists>b. objs s a = Some b \<and> itype b = t)"
  by (auto simp: type_at_def)

lemma type_at_not_None: "type_at s a \<noteq> None \<Longrightarrow> objs s a = Some (obj_at s a)"
  by (auto simp: type_at_def obj_at_def)

lemma itype_obj_at: "type_at s a \<noteq> None \<Longrightarrow> itype (obj_at s a) = t \<longleftrightarrow> type_at s a = Some t"
  by (auto simp: type_at_def obj_at_def)

text \<open>The search loops on a well-formed manager.\<close>

lemma find_backend_eq:
  assumes rep: "manager_rep m as" and objs: "None \<notin> type_at s ` set as"
    and "set is \<subseteq> {..<length as}"
  shows "find_backend P s m is = Some (map_option (\<lambda>i. (i, as ! i)) (List.find (\<lambda>i. P (obj_at s (as ! i))) is))"
  using assms(3)
proof (induction "is")
  case Nil
  then show ?case by simp
next
  case (Cons i "is")
  then have "i < length as" by simp
  moreover from this objs have "type_at s (as ! i) \<noteq> None" by (metis image_eqI nth_mem)
  ultimately have "backend_at s m i = Some (as ! i, obj_at s (as ! i))"
    by (simp add: backend_at_def manager_repD(5) [OF rep] type_at_not_None)
  with Cons show ?case by simp
qed

lemma find_upt_nth: "List.find (\<lambda>i. P (as ! i)) [0..<length as] = None \<longleftrightarrow> \<not> (\<exists>a \<in> set as. P a)"
  by (force simp: find_None_iff in_set_conv_nth)

lemma find_upt_nth_Some:
  "List.find (\<lambda>i. P (as ! i)) [0..<length as] = Some i \<Longrightarrow> i < length as \<and> P (as ! i)"
  by (auto simp: find_Some_iff)

lemma find_backend_None:
  assumes "manager_wf s m"
  shows "find_backend P s m (loop_range m) = Some None \<longleftrightarrow> \<not> (\<exists>a \<in> set (registered m). P (obj_at s a))"
    and "find_backend P s m (loop_range m) \<noteq> None"
proof -
  have rep: "manager_rep m (registered m)" and o: "None \<notin> type_at s ` set (registered m)"
    using assms by (simp_all add: manager_wf_def)
  note eq = find_backend_eq [OF rep o, of "loop_range m" P] manager_repD(4) [OF rep]
  then show "find_backend P s m (loop_range m) \<noteq> None" by (simp add: atLeast_upt)
  show "find_backend P s m (loop_range m) = Some None \<longleftrightarrow> \<not> (\<exists>a \<in> set (registered m). P (obj_at s a))"
    using eq find_upt_nth [of "\<lambda>a. P (obj_at s a)" "registered m"] by (simp add: atLeast_upt)
qed

lemma find_backend_Some:
  assumes "manager_wf s m" and "find_backend P s m (loop_range m) = Some (Some (i, a))"
  shows "i < length (registered m)" "registered m ! i = a" "a \<in> set (registered m)"
    "P (obj_at s a)" "objs s a = Some (obj_at s a)"
proof -
  have rep: "manager_rep m (registered m)" and o: "None \<notin> type_at s ` set (registered m)"
    using assms by (simp_all add: manager_wf_def)
  have "map_option (\<lambda>i. (i, registered m ! i))
      (List.find (\<lambda>i. P (obj_at s (registered m ! i))) [0..<length (registered m)]) = Some (i, a)"
    using assms(2) find_backend_eq [OF rep o, of "loop_range m" P] manager_repD(4) [OF rep]
    by (simp add: atLeast_upt)
  then have "List.find (\<lambda>i. P (obj_at s (registered m ! i))) [0..<length (registered m)] = Some i \<and>
      registered m ! i = a"
    by auto
  then show i: "i < length (registered m)" "registered m ! i = a" "P (obj_at s a)"
    using find_upt_nth_Some [of "\<lambda>a. P (obj_at s a)" "registered m" i] by auto
  then show a: "a \<in> set (registered m)" by auto
  then show "objs s a = Some (obj_at s a)"
    using o by (intro type_at_not_None) (metis image_eqI)
qed

lemma find_backend_cases:
  assumes "manager_wf s m"
  obtains (none) "find_backend P s m (loop_range m) = Some None"
      and "\<forall>a \<in> set (registered m). \<not> P (obj_at s a)"
  | (found) i a where "find_backend P s m (loop_range m) = Some (Some (i, a))"
      and "i < length (registered m)" and "registered m ! i = a" and "a \<in> set (registered m)"
      and "P (obj_at s a)" and "objs s a = Some (obj_at s a)"
proof (cases "find_backend P s m (loop_range m)")
  case None
  with find_backend_None(2) [OF assms] show ?thesis by blast
next
  case (Some r)
  show ?thesis
  proof (cases r)
    case None
    with Some find_backend_None(1) [OF assms] show ?thesis by (intro none) auto
  next
    case (Some ia)
    then obtain i a where "r = Some (i, a)" by (cases ia) auto
    with \<open>find_backend P s m (loop_range m) = Some r\<close> find_backend_Some [OF assms, of P i a]
    show ?thesis by (intro found) auto
  qed
qed

section \<open>Backends that keep their type\<close>

text \<open>No operation of the table changes the type of the object.\<close>

definition same_type :: "'p iface \<Rightarrow> 'p iface option \<Rightarrow> bool" where
  "same_type i j \<longleftrightarrow> (case j of None \<Rightarrow> True | Some f \<Rightarrow> itype f = itype i)"

definition keeps_type :: "('p, 'w) storage_interface \<Rightarrow> bool" where
  "keeps_type b \<longleftrightarrow>
     (\<forall>f e w i r j v. cleanup_fn b = Some f \<longrightarrow> f e w (Some i) = Some (r, j, v) \<longrightarrow> same_type i j) \<and>
     (\<forall>f e w i p n d z r j v. write_sync_fn b = Some f \<longrightarrow>
        f e w (Some i) p n d z = Some (r, j, v) \<longrightarrow> same_type i j) \<and>
     (\<forall>f e w i p n d z r c j v. read_sync_fn b = Some f \<longrightarrow>
        f e w (Some i) p n d z = Some (r, c, j, v) \<longrightarrow> same_type i j) \<and>
     (\<forall>f e w i p r j v. fsync_fn b = Some f \<longrightarrow> f e w (Some i) p = Some (r, j, v) \<longrightarrow> same_type i j)"

definition heap_ok :: "('p, 'w) sys \<Rightarrow> bool" where
  "heap_ok s \<longleftrightarrow> (\<forall>b \<in> ran (objs s). keeps_type b)"

lemma put_self_table [simp]:
  "cleanup_fn (put_self i b) = cleanup_fn b" "read_sync_fn (put_self i b) = read_sync_fn b"
  "write_sync_fn (put_self i b) = write_sync_fn b" "fsync_fn (put_self i b) = fsync_fn b"
  "health_check_fn (put_self i b) = health_check_fn b"
  by (simp_all add: put_self_def split: option.split)

lemma keeps_typeD:
  assumes "keeps_type b"
  shows "cleanup_fn b = Some f \<Longrightarrow> f e w (Some i) = Some (r, j, v) \<Longrightarrow> same_type i j"
    and "write_sync_fn b = Some g \<Longrightarrow> g e w (Some i) p n d z = Some (r, j, v) \<Longrightarrow> same_type i j"
    and "read_sync_fn b = Some h \<Longrightarrow> h e w (Some i) p n d z = Some (r, c, j, v) \<Longrightarrow> same_type i j"
    and "fsync_fn b = Some k \<Longrightarrow> k e w (Some i) p = Some (r, j, v) \<Longrightarrow> same_type i j"
  using assms unfolding keeps_type_def by metis+

lemma keeps_type_put_self [simp]: "keeps_type (put_self i b) = keeps_type b"
  by (simp add: keeps_type_def)

text \<open>The state after a call into the object at \<open>a\<close>.\<close>

definition after_call ::
  "('p, 'w) sys \<Rightarrow> nat \<Rightarrow> ('p, 'w) storage_interface \<Rightarrow> 'p iface option \<Rightarrow> 'w \<Rightarrow> ('p, 'w) sys" where
  "after_call s a b i w = s\<lparr>objs := (objs s)(a \<mapsto> put_self i b), os := w\<rparr>"

lemma after_call_frame:
  assumes "heap_ok s" and "objs s a = Some b" and "same_type (self_of b) i"
  shows "heap_ok (after_call s a b i w)" and "type_at (after_call s a b i w) = type_at s"
proof -
  have "keeps_type b" using assms(1,2) by (auto simp: heap_ok_def ran_def)
  then show "heap_ok (after_call s a b i w)"
    using assms(1) by (auto simp: heap_ok_def ran_def after_call_def)
  show "type_at (after_call s a b i w) = type_at s"
    using assms(2,3)
    by (auto simp: fun_eq_iff type_at_def after_call_def put_self_def same_type_def split: option.splits)
qed

lemma call_cleanup_frame:
  assumes "heap_ok s" and "objs s a = Some b" and "call_cleanup e s a b = Some s'"
  shows "heap_ok s'" and "type_at s' = type_at s"
proof -
  have k: "keeps_type b" using assms(1,2) by (auto simp: heap_ok_def ran_def)
  have "s' = s \<or> (\<exists>i w. same_type (self_of b) i \<and> s' = after_call s a b i w)"
  proof (cases "cleanup_fn b")
    case None
    with assms(3) show ?thesis by (simp add: call_cleanup_def)
  next
    case (Some f)
    with assms(3) obtain r i w where "f e (os s) (Some (self_of b)) = Some (r, i, w)"
        "s' = after_call s a b i w"
      by (auto simp: call_cleanup_def after_call_def bind_eq_Some_conv)
    with keeps_typeD(1) [OF k Some] show ?thesis by blast
  qed
  with assms(1) after_call_frame [OF assms(1,2)] show "heap_ok s'" "type_at s' = type_at s" by auto
qed

section \<open>Registration\<close>

text \<open>The abstract registry: the list of addresses with the types at those addresses.\<close>

definition spec_register :: "(nat \<Rightarrow> storage_backend_type option) \<Rightarrow> nat \<Rightarrow> nat list \<Rightarrow> nat list" where
  "spec_register ty p as =
     (if ty p \<in> ty ` set as then map (\<lambda>a. if ty a = ty p then p else a) as else as @ [p])"

definition spec_unregister ::
  "(nat \<Rightarrow> storage_backend_type option) \<Rightarrow> storage_backend_type \<Rightarrow> nat list \<Rightarrow> nat list" where
  "spec_unregister ty t as = filter (\<lambda>a. ty a \<noteq> Some t) as"

lemma distinct_map_nth_eq:
  assumes "distinct (map f xs)" and "i < length xs" and "j < length xs"
  shows "f (xs ! i) = f (xs ! j) \<longleftrightarrow> i = j"
  using assms by (auto simp: distinct_conv_nth)

lemma map_if_update:
  assumes "distinct (map f xs)" and "i < length xs"
  shows "map (\<lambda>x. if f x = f (xs ! i) then p else x) xs = xs[i := p]"
  using assms by (intro nth_equalityI) (auto simp: nth_list_update distinct_map_nth_eq)

lemma filter_remove_nth:
  assumes "distinct (map f xs)" and "i < length xs"
  shows "filter (\<lambda>x. f x \<noteq> f (xs ! i)) xs = take i xs @ drop (Suc i) xs"
proof -
  let ?P = "\<lambda>x. f x \<noteq> f (xs ! i)"
  have xs: "xs = take i xs @ xs ! i # drop (Suc i) xs" using assms(2) by (rule id_take_nth_drop)
  have "\<forall>x \<in> set (take i xs). ?P x"
    using assms by (auto simp: in_set_conv_nth distinct_map_nth_eq)
  moreover have "\<forall>x \<in> set (drop (Suc i) xs). ?P x"
  proof
    fix x assume "x \<in> set (drop (Suc i) xs)"
    then obtain k where "x = xs ! (Suc i + k)" "Suc i + k < length xs"
      by (auto simp: in_set_conv_nth)
    then show "?P x" using assms by (simp add: distinct_map_nth_eq)
  qed
  ultimately show ?thesis by (subst xs) (simp only: filter_append filter.simps filter_True simp_thms if_False)
qed

lemma set_slot_rep:
  assumes "manager_rep m as" and "i < length as"
  shows "\<exists>m'. set_slot i (Some p) m = Some m' \<and> manager_rep m' (as[i := p])"
  using assms by (simp add: set_slot_def manager_rep_def list_update_append map_update)

lemma set_slot_append:
  assumes "manager_rep m as" and "length as < MAX_STORAGE_BACKENDS"
  shows "\<exists>m'. set_slot (unat (backend_count m)) (Some p) m = Some m' \<and>
    backend_count m' = backend_count m \<and>
    manager_rep (m'\<lparr>backend_count := backend_count m' + 1\<rparr>) (as @ [p])"
proof -
  have "MAX_STORAGE_BACKENDS - length as = Suc (MAX_STORAGE_BACKENDS - Suc (length as))"
    using assms(2) by simp
  moreover have "unat (backend_count m + 1) = Suc (unat (backend_count m))"
    using assms by (intro unat_Suc_no_wrap) (simp add: manager_rep_def MAX_STORAGE_BACKENDS_def)
  ultimately show ?thesis
    using assms by (simp add: set_slot_def manager_rep_def list_update_append)
qed

lemma shift_down_eq:
  "i \<le> n \<Longrightarrow> n < length (backends m) \<Longrightarrow>
   shift_down m [i..<n] = Some (m\<lparr>backends := take i (backends m) @ take (n - i) (drop (Suc i) (backends m)) @
     drop n (backends m)\<rparr>)"
proof (induction "n - i" arbitrary: i m)
  case 0
  then show ?case by simp
next
  case (Suc k)
  let ?xs = "backends m"
  let ?m = "m\<lparr>backends := ?xs[i := ?xs ! Suc i]\<rparr>"
  have i: "i < n" using Suc.hyps(2) by simp
  have step: "shift_down m [i..<n] = shift_down ?m [Suc i..<n]"
    using i Suc.prems by (simp add: upt_conv_Cons slot_def set_slot_def)
  have "shift_down ?m [Suc i..<n] = Some (?m\<lparr>backends := take (Suc i) (?xs[i := ?xs ! Suc i]) @
      take (n - Suc i) (drop (Suc (Suc i)) (?xs[i := ?xs ! Suc i])) @ drop n (?xs[i := ?xs ! Suc i])\<rparr>)"
    using Suc.hyps(1) [of "Suc i" ?m] Suc.hyps(2) Suc.prems i by simp
  moreover have "take (Suc i) (?xs[i := ?xs ! Suc i]) = take i ?xs @ [?xs ! Suc i]"
    using i Suc.prems by (simp add: take_Suc_conv_app_nth)
  moreover have "?xs ! Suc i # take (n - Suc i) (drop (Suc (Suc i)) ?xs) = take (n - i) (drop (Suc i) ?xs)"
    using i Suc.prems by (simp add: Cons_nth_drop_Suc [symmetric] Suc_diff_Suc [symmetric])
  ultimately show ?case using step i by simp
qed

lemma unregister_rep:
  assumes rep: "manager_rep m as" and i: "i < length as"
  shows "\<exists>m1 m2. shift_down m [i..<unat (backend_count m - 1)] = Some m1 \<and>
    set_slot (unat (backend_count m1 - 1)) None (m1\<lparr>backend_count := backend_count m1 - 1\<rparr>) = Some m2 \<and>
    manager_rep m2 (take i as @ drop (Suc i) as)"
proof -
  let ?n = "length as - 1"
  have "0 < unat (backend_count m)" using assms by (auto simp: manager_rep_def)
  then have n: "unat (backend_count m - 1) = ?n"
    using manager_repD(2) [OF rep] by (metis unat_gt_0 unat_minus_one less_numeral_extra(3) unsigned_0)
  have lt: "?n < MAX_STORAGE_BACKENDS" "i \<le> ?n" using i manager_repD(3) [OF rep] by simp_all
  then have b: "?n < length (backends m)" using manager_repD(1) [OF rep] by simp
  have "MAX_STORAGE_BACKENDS - ?n = Suc (MAX_STORAGE_BACKENDS - length as)"
    using i manager_repD(3) [OF rep] by (simp add: Suc_diff_le)
  moreover have "length as = Suc ?n" using i by simp
  moreover have "drop ?n (map Some as) = [Some (last as)]"
    using i by (cases as rule: rev_cases) auto
  ultimately show ?thesis
    using shift_down_eq [OF lt(2) b] n rep lt i
    by (auto simp: manager_rep_def set_slot_def list_update_append drop_map take_map)
qed

text \<open>A registration that finds room changes the registry as specified.\<close>

lemma register_refines:
  assumes wf: "manager_wf s m" and heap: "heap_ok s" and p: "objs s p = Some new"
    and room: "length (registered m) < MAX_STORAGE_BACKENDS"
    and run: "storage_manager_register_backend e s (Some m) (Some p) = Some (ret, m', s')"
  shows "ret = XDEVICE_OK" and "\<exists>v. m' = Some v \<and> manager_wf s' v \<and>
    registered v = spec_register (type_at s) p (registered m)"
    and "heap_ok s'" and "type_at s' = type_at s"
proof -
  let ?as = "registered m"
  have rep: "manager_rep m ?as" and tys: "None \<notin> type_at s ` set ?as" "distinct (map (type_at s) ?as)"
    using wf by (simp_all add: manager_wf_def)
  have tp: "type_at s p = Some (itype new)" using p by (simp add: type_at_def)
  have count: "\<not> unat (backend_count m) \<ge> MAX_STORAGE_BACKENDS"
    using room manager_repD(2) [OF rep] by simp
  have wfI: "manager_wf s v" if v: "manager_rep v bs" and "None \<notin> type_at s ` set bs"
      "distinct (map (type_at s) bs)" for v bs
    using that manager_rep_registered [OF v] by (simp add: manager_wf_def)
  have "ret = XDEVICE_OK \<and> (\<exists>v. m' = Some v \<and> manager_wf s' v \<and> registered v = spec_register (type_at s) p ?as) \<and>
      heap_ok s' \<and> type_at s' = type_at s"
  proof (cases rule: find_backend_cases [OF wf, of "\<lambda>b. itype b = itype new"], goal_cases none found)
    case none
    have "type_at s a \<noteq> Some (itype new)" if "a \<in> set ?as" for a
      using none(2) that tys(1) itype_obj_at [of s a] by (metis image_eqI)
    then have nt: "type_at s p \<notin> type_at s ` set ?as" using tp by (metis imageE)
    obtain v where v: "set_slot (unat (backend_count m)) (Some p) m = Some v"
        "manager_rep (v\<lparr>backend_count := backend_count v + 1\<rparr>) (?as @ [p])"
      using set_slot_append [OF rep room, of p] by auto
    have "manager_wf s (v\<lparr>backend_count := backend_count v + 1\<rparr>)"
      by (rule wfI [OF v(2)]) (use tys nt tp in auto)
    then show ?thesis
      using run count p none(1) v heap nt manager_rep_registered [OF v(2)]
      by (auto simp: storage_manager_register_backend_def spec_register_def)
  next
    case (found i a)
    have ta: "type_at s (?as ! i) = type_at s p" using found tp by (auto simp: type_at_def)
    obtain v where v: "set_slot i (Some p) m = Some v" "manager_rep v (?as[i := p])"
      using set_slot_rep [OF rep found(2), of p] by auto
    have "type_at s p \<in> type_at s ` set ?as" using ta found(2) by (metis image_eqI nth_mem)
    then have spec: "spec_register (type_at s) p ?as = ?as[i := p]"
      using map_if_update [OF tys(2) found(2)] ta by (simp add: spec_register_def)
    have mt: "map (type_at s) (?as[i := p]) = map (type_at s) ?as"
      using ta found(2) by (intro nth_equalityI) (auto simp: nth_list_update)
    moreover from this have "type_at s ` set (?as[i := p]) = type_at s ` set ?as"
      by (metis list.set_map)
    ultimately have "manager_wf s v"
      using tys by (intro wfI [OF v(2)]) simp_all
    moreover obtain s1 where "call_cleanup e s a (obj_at s a) = Some s1" "s' = s1" "m' = Some v" "ret = XDEVICE_OK"
      using run count p found v
      by (auto simp: storage_manager_register_backend_def bind_eq_Some_conv)
    moreover note call_cleanup_frame [OF heap found(6) this(1)]
    ultimately show ?thesis
      using manager_rep_registered [OF v(2)] spec manager_wf_cong [of s1 s v] by auto
  qed
  then show "ret = XDEVICE_OK" and "\<exists>v. m' = Some v \<and> manager_wf s' v \<and>
      registered v = spec_register (type_at s) p (registered m)"
    and "heap_ok s'" and "type_at s' = type_at s" by simp_all
qed


lemma unregister_refines:
  assumes wf: "manager_wf s m" and heap: "heap_ok s"
    and run: "storage_manager_unregister_backend e s (Some m) ty = Some (ret, m', s')"
  shows "ret = (if Some ty \<in> type_at s ` set (registered m) then XDEVICE_OK else XDEVICE_ERROR_NOT_FOUND)"
    and "\<exists>v. m' = Some v \<and> manager_wf s' v \<and> registered v = spec_unregister (type_at s) ty (registered m)"
    and "heap_ok s'" and "type_at s' = type_at s"
proof -
  let ?as = "registered m"
  have rep: "manager_rep m ?as" and tys: "None \<notin> type_at s ` set ?as" "distinct (map (type_at s) ?as)"
    using wf by (simp_all add: manager_wf_def)
  have "ret = (if Some ty \<in> type_at s ` set ?as then XDEVICE_OK else XDEVICE_ERROR_NOT_FOUND) \<and>
      (\<exists>v. m' = Some v \<and> manager_wf s' v \<and> registered v = spec_unregister (type_at s) ty ?as) \<and>
      heap_ok s' \<and> type_at s' = type_at s"
  proof (cases rule: find_backend_cases [OF wf, of "\<lambda>b. itype b = ty"], goal_cases none found)
    case none
    have no: "\<forall>a \<in> set ?as. type_at s a \<noteq> Some ty"
      using none(2) tys(1) itype_obj_at [of s] by (metis image_eqI)
    then have "Some ty \<notin> type_at s ` set ?as" "spec_unregister (type_at s) ty ?as = ?as"
      by (auto simp: spec_unregister_def image_iff)
    with none wf heap run show ?thesis
      by (auto simp: storage_manager_unregister_backend_def)
  next
    case (found i a)
    have ta: "type_at s (?as ! i) = Some ty" using found by (auto simp: type_at_def)
    obtain m1 m2 where m: "shift_down m [i..<unat (backend_count m - 1)] = Some m1"
        "set_slot (unat (backend_count m1 - 1)) None (m1\<lparr>backend_count := backend_count m1 - 1\<rparr>) = Some m2"
        "manager_rep m2 (take i ?as @ drop (Suc i) ?as)"
      using unregister_rep [OF rep found(2)] by blast
    have spec: "take i ?as @ drop (Suc i) ?as = spec_unregister (type_at s) ty ?as"
      using filter_remove_nth [OF tys(2) found(2)] ta by (simp add: spec_unregister_def)
    have wf2: "manager_wf s m2"
      using manager_rep_registered [OF m(3)] m(3) tys
      by (auto simp: manager_wf_def spec spec_unregister_def distinct_map_filter)
    obtain s1 where s1: "call_cleanup e s a (obj_at s a) = Some s1" and
        "s' = s1" "m' = Some m2" "ret = XDEVICE_OK"
      using run found m by (auto simp: storage_manager_unregister_backend_def bind_eq_Some_conv)
    moreover have "Some ty \<in> type_at s ` set ?as" using ta found(2) by (metis image_eqI nth_mem)
    moreover note call_cleanup_frame [OF heap found(6) s1]
    ultimately show ?thesis
      using manager_rep_registered [OF m(3)] spec wf2 manager_wf_cong [of s1 s m2] by auto
  qed
  then show "ret = (if Some ty \<in> type_at s ` set ?as then XDEVICE_OK else XDEVICE_ERROR_NOT_FOUND)"
    and "\<exists>v. m' = Some v \<and> manager_wf s' v \<and> registered v = spec_unregister (type_at s) ty ?as"
    and "heap_ok s'" and "type_at s' = type_at s" by simp_all
qed

text \<open>Cleaning up empties the array.\<close>

lemma cleanup_loop_ConsE:
  assumes h: "heap_ok s" and r: "cleanup_loop e s m (k # is) = Some (s', m')"
  obtains s1 where "cleanup_loop e s1 (m\<lparr>backends := (backends m)[k := None]\<rparr>) is = Some (s', m')"
    and "heap_ok s1" and "type_at s1 = type_at s"
proof -
  from r obtain q s1 m1 where q: "slot m k = Some q"
      "(case q of None \<Rightarrow> Some s | Some a \<Rightarrow> do { b \<leftarrow> objs s a; call_cleanup e s a b }) = Some s1"
      "set_slot k None m = Some m1" "cleanup_loop e s1 m1 is = Some (s', m')"
    by (auto simp: bind_eq_Some_conv)
  have "heap_ok s1 \<and> type_at s1 = type_at s"
  proof (cases q)
    case None
    with q(2) h show ?thesis by simp
  next
    case (Some a)
    with q(2) obtain b where b: "objs s a = Some b" "call_cleanup e s a b = Some s1"
      by (auto simp: bind_eq_Some_conv)
    from call_cleanup_frame [OF h this] show ?thesis by simp
  qed
  with q(3,4) show thesis by (intro that [of s1]) (auto simp: set_slot_def split: if_splits)
qed

lemma cleanup_loop_spec:
  "heap_ok s \<Longrightarrow> cleanup_loop e s m is = Some (s', m') \<Longrightarrow>
   heap_ok s' \<and> type_at s' = type_at s \<and> length (backends m') = length (backends m) \<and>
   (\<forall>i < length (backends m). backends m' ! i = (if i \<in> set is then None else backends m ! i))"
proof (induction "is" arbitrary: s m)
  case Nil
  then show ?case by simp
next
  case (Cons k "is")
  obtain s1 where s1: "cleanup_loop e s1 (m\<lparr>backends := (backends m)[k := None]\<rparr>) is = Some (s', m')"
      "heap_ok s1" "type_at s1 = type_at s"
    by (rule cleanup_loop_ConsE [OF Cons.prems])
  from Cons.IH [OF this(2,1)] this(3) show ?case by (auto simp: nth_list_update)
qed

lemma manager_cleanup_spec:
  assumes wf: "manager_wf s m" and heap: "heap_ok s"
    and run: "storage_manager_cleanup e s (Some m) = Some (ret, m', s')"
  shows "ret = XDEVICE_OK" and "\<exists>v. m' = Some v \<and> manager_wf s' v \<and> registered v = []"
    and "heap_ok s'" and "type_at s' = type_at s"
proof -
  let ?as = "registered m"
  have rep: "manager_rep m ?as" using wf by (simp add: manager_wf_def)
  obtain s1 m1 where loop: "cleanup_loop e s m (loop_range m) = Some (s1, m1)"
      and r: "ret = XDEVICE_OK" "m' = Some (m1\<lparr>backend_count := 0\<rparr>)" "s' = s1"
    using run by (auto simp: storage_manager_cleanup_def bind_eq_Some_conv)
  note spec = cleanup_loop_spec [OF heap loop]
  have "backends m1 = replicate MAX_STORAGE_BACKENDS None"
    using spec manager_repD(1,4) [OF rep] rep
    by (intro nth_equalityI) (auto simp: manager_rep_def nth_append)
  then have "manager_rep (m1\<lparr>backend_count := 0\<rparr>) []" by (simp add: manager_rep_def)
  note this manager_rep_registered [OF this]
  then show "\<exists>v. m' = Some v \<and> manager_wf s' v \<and> registered v = []"
    using r by (simp add: manager_wf_def)
  show "ret = XDEVICE_OK" "heap_ok s'" "type_at s' = type_at s" using r spec by simp_all
qed

section \<open>Selection\<close>

definition healthy_at :: "call_env \<Rightarrow> ('p, 'w) sys \<Rightarrow> nat \<Rightarrow> bool" where
  "healthy_at e s a = healthy e s (obj_at s a)"

definition serves :: "call_env \<Rightarrow> ('p, 'w) sys \<Rightarrow> storage_manager \<Rightarrow> storage_backend_type \<Rightarrow> bool" where
  "serves e s m t = list_ex (\<lambda>a. type_at s a = Some t \<and> healthy_at e s a) (registered m)"

lemma wf_type_at: "manager_wf s m \<Longrightarrow> a \<in> set (registered m) \<Longrightarrow> type_at s a \<noteq> None"
  by (metis image_eqI manager_wf_def)

lemma wf_itype:
  "manager_wf s m \<Longrightarrow> a \<in> set (registered m) \<Longrightarrow> itype (obj_at s a) = t \<longleftrightarrow> type_at s a = Some t"
  by (rule itype_obj_at) (rule wf_type_at)

text \<open>The three passes of the selection, with the choices they leave.\<close>

lemma select_backend_cases:
  assumes wf: "manager_wf s m"
  obtains (primary) a where "select_backend e s (Some m) = Some (Some a)" "a \<in> set (registered m)"
      "type_at s a = Some (primary_backend m)" "healthy_at e s a"
  | (fallback) a where "select_backend e s (Some m) = Some (Some a)" "a \<in> set (registered m)"
      "\<not> serves e s m (primary_backend m)" "auto_failover m"
      "type_at s a = Some (fallback_backend m)" "healthy_at e s a"
  | (any) a where "select_backend e s (Some m) = Some (Some a)" "a \<in> set (registered m)"
      "\<not> serves e s m (primary_backend m)" "auto_failover m \<Longrightarrow> \<not> serves e s m (fallback_backend m)"
      "healthy_at e s a"
  | (none) "select_backend e s (Some m) = Some None" "\<forall>a \<in> set (registered m). \<not> healthy_at e s a"
proof (cases "backend_count m = 0")
  case True
  then show thesis by (intro none) (simp_all add: select_backend_def registered_def)
next
  case False
  let ?pass = "\<lambda>t. find_backend (\<lambda>b. itype b = t \<and> healthy e s b) s m (loop_range m)"
  have no_pass: "\<not> serves e s m t" if "\<forall>a \<in> set (registered m). \<not> (itype (obj_at s a) = t \<and> healthy e s (obj_at s a))" for t
    using that wf_itype [OF wf] by (auto simp: serves_def list_ex_iff healthy_at_def)
  have sel: "select_backend e s (Some m) = Some (Some a)" if "?pass (primary_backend m) = Some (Some (i, a))" for i a
    using that False by (simp add: select_backend_def)
  have last: thesis if p1: "?pass (primary_backend m) = Some None" and p2: "auto_failover m \<Longrightarrow> ?pass (fallback_backend m) = Some None"
      and "\<not> serves e s m (primary_backend m)" "auto_failover m \<Longrightarrow> \<not> serves e s m (fallback_backend m)"
  proof (cases rule: find_backend_cases [OF wf, of "healthy e s"], goal_cases none3 found3)
    case none3
    then have "select_backend e s (Some m) = Some None" using p1 p2 False by (simp add: select_backend_def)
    with none3 show ?thesis by (intro none) (auto simp: healthy_at_def)
  next
    case (found3 i a)
    then have "select_backend e s (Some m) = Some (Some a)" using p1 p2 False by (simp add: select_backend_def)
    with found3 that show ?thesis by (intro any) (auto simp: healthy_at_def)
  qed
  show thesis
  proof (cases rule: find_backend_cases [OF wf, of "\<lambda>b. itype b = primary_backend m \<and> healthy e s b"], goal_cases none1 found1)
    case (found1 i a)
    with sel wf_itype [OF wf found1(4)] show ?thesis by (intro primary) (auto simp: healthy_at_def)
  next
    case none1
    note p = none1(1) no_pass [OF none1(2)]
    show ?thesis
    proof (cases "auto_failover m")
      case af: True
      show ?thesis
      proof (cases rule: find_backend_cases [OF wf, of "\<lambda>b. itype b = fallback_backend m \<and> healthy e s b"], goal_cases none2 found2)
        case none2
        with p no_pass show ?thesis by (intro last) auto
      next
        case (found2 i a)
        then have "select_backend e s (Some m) = Some (Some a)"
          using p False af by (simp add: select_backend_def)
        with found2 af p wf_itype [OF wf found2(4)] show ?thesis by (intro fallback) (auto simp: healthy_at_def)
      qed
    next
      case False
      with p show ?thesis by (intro last) auto
    qed
  qed
qed

section \<open>Routing to one backend\<close>

text \<open>The backend that serves every request while it is healthy: the registered one of the primary
  type, or the fallback one when no backend of the primary type is registered.\<close>

definition route :: "('p, 'w) sys \<Rightarrow> storage_manager \<Rightarrow> nat option" where
  "route s m =
     (case List.find (\<lambda>a. type_at s a = Some (primary_backend m)) (registered m) of
        Some a \<Rightarrow> Some a
      | None \<Rightarrow>
          if auto_failover m
          then List.find (\<lambda>a. type_at s a = Some (fallback_backend m)) (registered m)
          else None)"

lemma wf_unique_type:
  assumes "manager_wf s m" and "a \<in> set (registered m)" and "b \<in> set (registered m)"
    and "type_at s a = type_at s b"
  shows "a = b"
  using assms by (auto simp: manager_wf_def distinct_map dest: inj_onD)

lemma find_SomeD: "List.find P xs = Some x \<Longrightarrow> x \<in> set xs \<and> P x"
  by (auto simp: find_Some_iff)

lemma select_route:
  assumes wf: "manager_wf s m" and r: "route s m = Some a" and h: "healthy_at e s a"
  shows "select_backend e s (Some m) = Some (Some a)"
proof -
  have a: "a \<in> set (registered m)" "type_at s a = Some (primary_backend m) \<or>
      type_at s a = Some (fallback_backend m) \<and> auto_failover m \<and>
      (\<forall>c \<in> set (registered m). type_at s c \<noteq> Some (primary_backend m))"
    using r by (auto simp: route_def find_None_iff split: option.splits if_splits dest!: find_SomeD)
  then have sv: "serves e s m (primary_backend m) \<or> serves e s m (fallback_backend m) \<and> auto_failover m"
    using h by (auto simp: serves_def list_ex_iff)
  have np: "type_at s c = Some (primary_backend m) \<Longrightarrow> c \<in> set (registered m) \<Longrightarrow> type_at s a = type_at s c" for c
    using a(2) by auto
  show ?thesis
  proof (cases rule: select_backend_cases [OF wf, of e], goal_cases p f any none)
    case (p c)
    with wf_unique_type [OF wf a(1) p(2) np] show ?case by simp
  next
    case (f c)
    with a h have "type_at s a = type_at s c" by (auto simp: serves_def list_ex_iff)
    with wf_unique_type [OF wf a(1) f(2)] f(1) show ?case by simp
  next
    case (any c)
    with sv show ?case by auto
  next
    case none
    with a(1) h show ?case by blast
  qed
qed

section \<open>The contract of a managed backend\<close>

text \<open>The object \<open>b\<close> uses the functions of \<open>table\<close>.\<close>

definition on_table :: "('p, 'w) storage_interface \<Rightarrow> ('p, 'w) storage_interface \<Rightarrow> bool" where
  "on_table table b \<longleftrightarrow> put_self (Some (self_of b)) table = b"

lemma self_of_put_self [simp]: "self_of (put_self (Some i) b) = i"
  by (cases i) (simp add: self_of_def put_self_def)

lemma put_self_twice: "put_self (Some i) (put_self (Some j) b) = put_self (Some i) b"
  by (simp add: put_self_def)

lemma on_table_put_self: "on_table table b \<Longrightarrow> on_table table (put_self (Some i) b)"
  by (metis on_table_def put_self_twice self_of_put_self)

lemma on_table_fns:
  assumes "on_table table b"
  shows "write_sync_fn b = write_sync_fn table" "read_sync_fn b = read_sync_fn table"
    "health_check_fn b = health_check_fn table"
  using assms by (metis on_table_def put_self_table(3), metis on_table_def put_self_table(2),
      metis on_table_def put_self_table(5))

text \<open>
  A backend as the manager sees it: a byte store on the object and the operating system, whose
  operations are the entries of a function table and which is healthy whenever it is well formed.
\<close>

locale storage_backend = byte_store invar quiet contents wr rd
  for invar :: "'p iface \<times> 'w \<Rightarrow> bool" and quiet contents wr rd +
  fixes table :: "('p, 'w) storage_interface"
  assumes health_entry: "\<exists>f. health_check_fn table = Some f \<and>
      (\<forall>e w i. invar (i, w) \<longrightarrow> f e w (Some i) = XDEVICE_OK)"
    and write_entry: "\<exists>f. write_sync_fn table = Some f \<and>
      (\<forall>e w i p off d sz. f e w (Some i) (Some p) off (Some d) sz =
        map_option (\<lambda>(ret, j, v). (ret, Some j, v)) (wr e (i, w) p off d sz))"
    and read_entry: "\<exists>f. read_sync_fn table = Some f \<and>
      (\<forall>e w i p off buf sz. f e w (Some i) (Some p) off (Some buf) sz =
        map_option (\<lambda>(ret, c, j, v). (ret, Some c, Some j, v)) (rd e (i, w) p off buf sz))"
    and write_type: "wr e (i, w) p off d sz = Some (ret, j, v) \<Longrightarrow> itype j = itype i"
    and read_type: "rd e (i, w) p off buf sz = Some (ret, c, j, v) \<Longrightarrow> itype j = itype i"

text \<open>The store that a manager presents, in terms of the backend it routes to.\<close>

type_synonym ('p, 'w) mgr_state = "('p, 'w) sys \<times> storage_manager"

definition routed :: "('p, 'w) mgr_state \<Rightarrow> ('p, 'w) storage_interface option" where
  "routed x = (case x of (s, m) \<Rightarrow> Option.bind (route s m) (objs s))"

definition mgr_invar ::
  "('p iface \<times> 'w \<Rightarrow> bool) \<Rightarrow> ('p, 'w) storage_interface \<Rightarrow> ('p, 'w) mgr_state \<Rightarrow> bool" where
  "mgr_invar invar table x \<longleftrightarrow> manager_wf (fst x) (snd x) \<and>
     (case routed x of None \<Rightarrow> False | Some b \<Rightarrow> on_table table b \<and> invar (self_of b, os (fst x)))"

definition mgr_quiet ::
  "(call_env \<Rightarrow> 'p iface \<times> 'w \<Rightarrow> bool) \<Rightarrow> call_env \<Rightarrow> ('p, 'w) mgr_state \<Rightarrow> bool" where
  "mgr_quiet quiet e x = (case routed x of None \<Rightarrow> False | Some b \<Rightarrow> quiet e (self_of b, os (fst x)))"

definition mgr_contents ::
  "('p iface \<times> 'w \<Rightarrow> string \<Rightarrow> byte list option) \<Rightarrow> ('p, 'w) mgr_state \<Rightarrow> string \<Rightarrow> byte list option" where
  "mgr_contents contents x p =
     (case routed x of None \<Rightarrow> None | Some b \<Rightarrow> contents (self_of b, os (fst x)) p)"

definition mgr_wr ::
  "call_env \<Rightarrow> ('p, 'w) mgr_state \<Rightarrow> string \<Rightarrow> u64 \<Rightarrow> byte list \<Rightarrow> u64
     \<Rightarrow> (xdevice_error \<times> ('p, 'w) mgr_state) option" where
  "mgr_wr e x p off d sz = do {
     (ret, m', s') \<leftarrow> storage_manager_write e (fst x) (Some (snd x)) (Some p) off (Some d) sz;
     m \<leftarrow> m';
     Some (ret, s', m) }"

definition mgr_rd ::
  "call_env \<Rightarrow> ('p, 'w) mgr_state \<Rightarrow> string \<Rightarrow> u64 \<Rightarrow> byte list \<Rightarrow> u64
     \<Rightarrow> (xdevice_error \<times> byte list \<times> ('p, 'w) mgr_state) option" where
  "mgr_rd e x p off buf sz = do {
     (ret, out, m', s') \<leftarrow> storage_manager_read e (fst x) (Some (snd x)) (Some p) off (Some buf) sz;
     b \<leftarrow> out;
     m \<leftarrow> m';
     Some (ret, b, s', m) }"

lemma route_stats [simp]:
  "route s (update_stats r n l m) = route s m" "route s (count_error m) = route s m"
  by (simp_all add: route_def update_stats_def count_error_def split: option.split)

lemma route_cong: "type_at s' = type_at s \<Longrightarrow> route s' m = route s m"
  by (simp add: route_def split: option.split)

lemma after_call_routed:
  assumes "route s m = Some a" and "objs s a = Some b" and "itype i = itype b"
  shows "routed (after_call s a b (Some i) w, m) = Some (put_self (Some i) b)"
    and "type_at (after_call s a b (Some i) w) = type_at s"
proof -
  show t: "type_at (after_call s a b (Some i) w) = type_at s"
    using assms(2,3) by (auto simp: fun_eq_iff type_at_def after_call_def put_self_def)
  show "routed (after_call s a b (Some i) w, m) = Some (put_self (Some i) b)"
    using assms(1) route_cong [OF t, of m] by (simp add: routed_def after_call_def)
qed

context storage_backend
begin

lemma routed_select:
  assumes "mgr_invar invar table (s, m)"
  obtains a b where "route s m = Some a" and "objs s a = Some b" and "on_table table b"
    and "invar (self_of b, os s)" and "\<And>e. select_backend e s (Some m) = Some (Some a)"
    and "manager_wf s m"
proof -
  from assms obtain a b where ab: "route s m = Some a" "objs s a = Some b" "on_table table b"
      "invar (self_of b, os s)" and wf: "manager_wf s m"
    by (auto simp: mgr_invar_def routed_def split: option.splits bind_splits)
  have "healthy_at e s a" for e
    using health_entry ab on_table_fns(3) [OF ab(3)] by (auto simp: healthy_at_def healthy_def obj_at_def)
  with select_route [OF wf ab(1)] ab wf show thesis by (intro that) auto
qed

text \<open>A call through the manager is the call of the routed backend.\<close>

lemma mgr_wr_eq:
  assumes inv: "mgr_invar invar table (s, m)" and nz: "sz \<noteq> 0"
  obtains a b where "route s m = Some a" and "objs s a = Some b" and "on_table table b"
    and "invar (self_of b, os s)" and "manager_wf s m"
    and "\<And>e p off d. mgr_wr e (s, m) p off d sz =
      map_option (\<lambda>(ret, j, v). (ret, after_call s a b (Some j) v,
         if ret = XDEVICE_OK then update_stats False sz (latency_ns (m_start e) (m_end e)) m else count_error m))
       (wr e (self_of b, os s) p off d sz)"
proof -
  obtain a b where ab: "route s m = Some a" "objs s a = Some b" "on_table table b"
      "invar (self_of b, os s)" "\<And>e. select_backend e s (Some m) = Some (Some a)" "manager_wf s m"
    by (rule routed_select [OF inv]) blast
  obtain f where "write_sync_fn b = Some f" and "\<And>e w i p off d sz. f e w (Some i) (Some p) off (Some d) sz =
        map_option (\<lambda>(ret, j, v). (ret, Some j, v)) (wr e (i, w) p off d sz)"
    using write_entry on_table_fns(1) [OF ab(3)] by metis
  with ab nz show thesis
    by (intro that [OF ab(1-4,6)])
       (auto simp: mgr_wr_def storage_manager_write_def after_call_def map_option_case split: option.splits)
qed

lemma mgr_rd_eq:
  assumes inv: "mgr_invar invar table (s, m)" and nz: "sz \<noteq> 0"
  obtains a b where "route s m = Some a" and "objs s a = Some b" and "on_table table b"
    and "invar (self_of b, os s)" and "manager_wf s m"
    and "\<And>e p off buf. mgr_rd e (s, m) p off buf sz =
      map_option (\<lambda>(ret, c, j, v). (ret, c, after_call s a b (Some j) v,
         if ret = XDEVICE_OK then update_stats True sz (latency_ns (m_start e) (m_end e)) m else count_error m))
       (rd e (self_of b, os s) p off buf sz)"
proof -
  obtain a b where ab: "route s m = Some a" "objs s a = Some b" "on_table table b"
      "invar (self_of b, os s)" "\<And>e. select_backend e s (Some m) = Some (Some a)" "manager_wf s m"
    by (rule routed_select [OF inv]) blast
  obtain f where "read_sync_fn b = Some f" and "\<And>e w i p off buf sz. f e w (Some i) (Some p) off (Some buf) sz =
        map_option (\<lambda>(ret, c, j, v). (ret, Some c, Some j, v)) (rd e (i, w) p off buf sz)"
    using read_entry on_table_fns(2) [OF ab(3)] by metis
  with ab nz show thesis
    by (intro that [OF ab(1-4,6)])
       (auto simp: mgr_rd_def storage_manager_read_def after_call_def map_option_case split: option.splits)
qed

end

sublocale storage_backend \<subseteq> managed: byte_store "mgr_invar invar table" "mgr_quiet quiet"
  "mgr_contents contents" mgr_wr mgr_rd
proof
  fix x :: "('p, 'w) mgr_state" and p :: string and sz off :: u64 and d :: "byte list" and e :: call_env
  assume inv: "mgr_invar invar table x" and len: "length p < MAX_PATH_LEN" "sz \<noteq> 0" "unat sz \<le> length d"
    "unat off + unat sz < 2 ^ 63"
  obtain s m where x: "x = (s, m)" by (cases x)
  obtain a b where ab: "route s m = Some a" "objs s a = Some b" "on_table table b"
      "invar (self_of b, os s)" "manager_wf s m"
    and run: "\<And>e p off d. mgr_wr e (s, m) p off d sz =
      map_option (\<lambda>(ret, j, v). (ret, after_call s a b (Some j) v,
         if ret = XDEVICE_OK then update_stats False sz (latency_ns (m_start e) (m_end e)) m else count_error m))
       (wr e (self_of b, os s) p off d sz)"
    using mgr_wr_eq [OF inv [unfolded x] len(2)] by blast
  obtain ret j v where w: "wr e (self_of b, os s) p off d sz = Some (ret, j, v)" "invar (j, v)"
      "\<forall>e'. quiet e' (j, v) = quiet e' (self_of b, os s)"
    using write_defined [OF ab(4) len] by fastforce
  let ?s = "after_call s a b (Some j) v"
  have jt: "itype j = itype b" using write_type [OF w(1)] by simp
  have os: "os ?s = v" by (simp add: after_call_def)
  have m': "routed (?s, if ret = XDEVICE_OK then update_stats False sz l m else count_error m) =
      Some (put_self (Some j) b)" "manager_wf ?s (if ret = XDEVICE_OK then update_stats False sz l m else count_error m)" for l
    using after_call_routed [OF ab(1,2) jt, of v] ab(5) manager_wf_cong by (auto simp: routed_def)
  show "\<exists>ret s'. mgr_wr e x p off d sz = Some (ret, s') \<and> mgr_invar invar table s' \<and>
      (\<forall>e'. mgr_quiet quiet e' s' = mgr_quiet quiet e' x)"
    using run w m' ab(1,2) on_table_put_self [OF ab(3)]
    by (simp add: x mgr_invar_def mgr_quiet_def os) (simp add: routed_def)
  fix y assume "mgr_wr e x p off d sz = Some (XDEVICE_OK, y)"
  then have "ret = XDEVICE_OK" and y: "y = (?s, update_stats False sz (latency_ns (m_start e) (m_end e)) m)"
    using run [of e p off d] w by (auto simp: x)
  with w have "contents (j, v) = (contents (self_of b, os s))(p \<mapsto>
      file_write (contents (self_of b, os s) p) (unat off) (take (unat sz) d))"
    by (intro write_effect [OF ab(4) len]) simp
  then show "mgr_contents contents y = (mgr_contents contents x)(p \<mapsto>
      file_write (mgr_contents contents x p) (unat off) (take (unat sz) d))"
    using m'(1) [of "latency_ns (m_start e) (m_end e)"] ab(1,2) \<open>ret = XDEVICE_OK\<close>
    by (simp add: fun_eq_iff mgr_contents_def y os x) (simp add: routed_def)
next
  fix x :: "('p, 'w) mgr_state" and p :: string and sz off :: u64 and buf c :: "byte list" and e :: call_env
  assume inv: "mgr_invar invar table x" and q: "mgr_quiet quiet e x" and len: "sz \<noteq> 0" "unat sz \<le> length buf"
    "unat off + unat sz < 2 ^ 64" and c: "mgr_contents contents x p = Some c" "unat off < length c"
  obtain s m where x: "x = (s, m)" by (cases x)
  obtain a b where ab: "route s m = Some a" "objs s a = Some b" "on_table table b"
      "invar (self_of b, os s)" "manager_wf s m"
    and run: "\<And>e p off buf. mgr_rd e (s, m) p off buf sz =
      map_option (\<lambda>(ret, c, j, v). (ret, c, after_call s a b (Some j) v,
         if ret = XDEVICE_OK then update_stats True sz (latency_ns (m_start e) (m_end e)) m else count_error m))
       (rd e (self_of b, os s) p off buf sz)"
    using mgr_rd_eq [OF inv [unfolded x] len(1)] by blast
  have q': "quiet e (self_of b, os s)" and c': "contents (self_of b, os s) p = Some c"
    using q c ab(1,2) by (simp_all add: x mgr_quiet_def mgr_contents_def routed_def)
  obtain j v where r: "rd e (self_of b, os s) p off buf sz =
      Some (XDEVICE_OK, overlay buf 0 (file_read c (unat off) (unat sz)), j, v)" "invar (j, v)"
      "contents (j, v) = contents (self_of b, os s)"
    using read_effect [OF ab(4) q' len c' c(2)] by fastforce
  have jt: "itype j = itype b" using read_type [OF r(1)] by simp
  let ?s = "after_call s a b (Some j) v"
  have os: "os ?s = v" by (simp add: after_call_def)
  have m': "routed (?s, update_stats True sz l m) = Some (put_self (Some j) b)"
      "manager_wf ?s (update_stats True sz l m)" for l
    using after_call_routed [OF ab(1,2) jt, of v] ab(5) manager_wf_cong by (auto simp: routed_def)
  show "\<exists>s'. mgr_rd e x p off buf sz = Some (XDEVICE_OK, overlay buf 0 (file_read c (unat off) (unat sz)), s') \<and>
      mgr_invar invar table s' \<and> mgr_contents contents s' = mgr_contents contents x"
    using run r m' ab(1,2) on_table_put_self [OF ab(3)]
    by (simp add: x mgr_invar_def mgr_contents_def os fun_eq_iff) (simp add: routed_def)
qed

section \<open>The in-memory backend under the manager\<close>

definition mock_binv :: "mock_iface \<times> 'w \<Rightarrow> bool" where
  "mock_binv x = mock_iface_inv (fst x)"

definition mock_bquiet :: "call_env \<Rightarrow> mock_iface \<times> 'w \<Rightarrow> bool" where
  "mock_bquiet e x = mock_iface_quiet e (fst x)"

definition mock_bcontents :: "mock_iface \<times> 'w \<Rightarrow> string \<Rightarrow> byte list option" where
  "mock_bcontents x = mock_iface_contents (fst x)"

definition mock_bwr :: "call_env \<Rightarrow> mock_iface \<times> 'w \<Rightarrow> string \<Rightarrow> u64 \<Rightarrow> byte list \<Rightarrow> u64
    \<Rightarrow> (xdevice_error \<times> mock_iface \<times> 'w) option" where
  "mock_bwr e x p off d sz = map_option (\<lambda>(ret, j). (ret, j, snd x)) (mock_wr e (fst x) p off d sz)"

definition mock_brd :: "call_env \<Rightarrow> mock_iface \<times> 'w \<Rightarrow> string \<Rightarrow> u64 \<Rightarrow> byte list \<Rightarrow> u64
    \<Rightarrow> (xdevice_error \<times> byte list \<times> mock_iface \<times> 'w) option" where
  "mock_brd e x p off buf sz = map_option (\<lambda>(ret, c, j). (ret, c, j, snd x)) (mock_rd e (fst x) p off buf sz)"

lemma mock_write_sync_object:
  assumes "mock_storage_write_sync e (Some i) p off d sz = Some (ret, j)"
  obtains k where "j = Some k" and "itype k = itype i"
  using assms
  by (auto simp: mock_storage_write_sync_def bind_eq_Some_conv set_priv_def split: option.splits if_splits)

lemma mock_read_sync_object:
  assumes "mock_storage_read_sync e (Some i) p off buf sz = Some (ret, c, j)"
  obtains k where "j = Some k" and "itype k = itype i" and "buf \<noteq> None \<Longrightarrow> c \<noteq> None"
  using assms
  by (auto simp: mock_storage_read_sync_def bind_eq_Some_conv set_priv_def split: option.splits if_splits)

lemma mock_cleanup_object:
  assumes "mock_storage_cleanup (Some i) = (ret, j)"
  shows "same_type i j"
  using assms by (auto simp: mock_storage_cleanup_def same_type_def set_priv_def split: option.splits)

lemma mock_table_keeps_type: "keeps_type mock_table"
  by (auto simp: keeps_type_def mock_table_def same_type_def split: prod.splits
      elim!: mock_write_sync_object mock_read_sync_object dest!: mock_cleanup_object)

lemma mock_wr_type: "mock_wr e i p off d sz = Some (ret, j) \<Longrightarrow> itype j = itype i"
  by (auto simp: mock_wr_def bind_eq_Some_conv elim!: mock_write_sync_object)

lemma mock_rd_type: "mock_rd e i p off buf sz = Some (ret, c, j) \<Longrightarrow> itype j = itype i"
  by (auto simp: mock_rd_def bind_eq_Some_conv elim!: mock_read_sync_object)

lemma mock_wr_entry:
  "map_option (\<lambda>(ret, j). (ret, j, w)) (mock_storage_write_sync e (Some i) (Some p) off (Some d) sz) =
   map_option (\<lambda>(ret, j, v). (ret, Some j, v)) (mock_bwr e (i, w) p off d sz)"
proof (cases "mock_storage_write_sync e (Some i) (Some p) off (Some d) sz")
  case None
  then show ?thesis by (simp add: mock_bwr_def mock_wr_def)
next
  case (Some r)
  obtain ret j where r: "r = (ret, j)" by (cases r)
  from Some [unfolded r] show ?thesis
    by (rule mock_write_sync_object) (use Some r in \<open>simp add: mock_bwr_def mock_wr_def\<close>)
qed

lemma mock_rd_entry:
  "map_option (\<lambda>(ret, c, j). (ret, c, j, w)) (mock_storage_read_sync e (Some i) (Some p) off (Some buf) sz) =
   map_option (\<lambda>(ret, c, j, v). (ret, Some c, Some j, v)) (mock_brd e (i, w) p off buf sz)"
proof (cases "mock_storage_read_sync e (Some i) (Some p) off (Some buf) sz")
  case None
  then show ?thesis by (simp add: mock_brd_def mock_rd_def)
next
  case (Some r)
  obtain ret c j where r: "r = (ret, c, j)" by (cases r)
  from Some [unfolded r] show ?thesis
    by (rule mock_read_sync_object) (use Some r in \<open>auto simp: mock_brd_def mock_rd_def\<close>)
qed

interpretation mock_mgr: storage_backend mock_binv mock_bquiet mock_bcontents mock_bwr mock_brd mock_table
proof
  fix x :: "mock_iface \<times> 'w" and p :: string and sz off :: u64 and d :: "byte list" and e :: call_env
  assume a: "mock_binv x" "length p < MAX_PATH_LEN" "sz \<noteq> 0" "unat sz \<le> length d"
    "unat off + unat sz < 2 ^ 63"
  show "\<exists>ret s'. mock_bwr e x p off d sz = Some (ret, s') \<and> mock_binv s' \<and>
      (\<forall>e'. mock_bquiet e' s' = mock_bquiet e' x)"
    using mock_store.write_defined [OF a(1) [unfolded mock_binv_def] a(2-), of e]
    by (auto simp: mock_bwr_def mock_binv_def mock_bquiet_def)
  fix y assume "mock_bwr e x p off d sz = Some (XDEVICE_OK, y)"
  then have "mock_wr e (fst x) p off d sz = Some (XDEVICE_OK, fst y)" by (auto simp: mock_bwr_def)
  then show "mock_bcontents y = (mock_bcontents x)(p \<mapsto>
      file_write (mock_bcontents x p) (unat off) (take (unat sz) d))"
    unfolding mock_bcontents_def by (rule mock_store.write_effect [OF a(1) [unfolded mock_binv_def] a(2-)])
next
  fix x :: "mock_iface \<times> 'w" and p :: string and sz off :: u64 and buf c :: "byte list" and e :: call_env
  assume a: "mock_binv x" "mock_bquiet e x" "sz \<noteq> 0" "unat sz \<le> length buf"
    "unat off + unat sz < 2 ^ 64" "mock_bcontents x p = Some c" "unat off < length c"
  show "\<exists>s'. mock_brd e x p off buf sz =
      Some (XDEVICE_OK, overlay buf 0 (file_read c (unat off) (unat sz)), s') \<and>
      mock_binv s' \<and> mock_bcontents s' = mock_bcontents x"
    using mock_store.read_effect [OF a(1,2) [unfolded mock_binv_def mock_bquiet_def] a(3-5)
        a(6) [unfolded mock_bcontents_def] a(7)]
    by (auto simp: mock_brd_def mock_binv_def mock_bcontents_def)
next
  show "\<exists>f. health_check_fn mock_table = Some f \<and> (\<forall>e w i. mock_binv (i, w :: 'w) \<longrightarrow> f e w (Some i) = XDEVICE_OK)"
    by (auto simp: mock_table_def mock_storage_health_check_def mock_binv_def mock_iface_inv_def split: option.splits)
  show "\<exists>f. write_sync_fn mock_table = Some f \<and> (\<forall>e (w :: 'w) i p off d sz. f e w (Some i) (Some p) off (Some d) sz =
        map_option (\<lambda>(ret, j, v). (ret, Some j, v)) (mock_bwr e (i, w) p off d sz))"
    by (simp add: mock_table_def mock_wr_entry)
  show "\<exists>f. read_sync_fn mock_table = Some f \<and> (\<forall>e (w :: 'w) i p off buf sz. f e w (Some i) (Some p) off (Some buf) sz =
        map_option (\<lambda>(ret, c, j, v). (ret, Some c, Some j, v)) (mock_brd e (i, w) p off buf sz))"
    by (simp add: mock_table_def mock_rd_entry)
next
  fix e i p off d sz ret j and w v :: 'w
  show "mock_bwr e (i, w) p off d sz = Some (ret, j, v) \<Longrightarrow> itype j = itype i"
    by (auto simp: mock_bwr_def dest: mock_wr_type)
next
  fix e i p off buf sz ret c j and w v :: 'w
  show "mock_brd e (i, w) p off buf sz = Some (ret, c, j, v) \<Longrightarrow> itype j = itype i"
    by (auto simp: mock_brd_def dest: mock_rd_type)
qed

section \<open>Reachable managers\<close>

text \<open>The calls of a client that passes pointers to live objects; \<open>fresh\<close> is the allocation of
  another interface object.\<close>

inductive mgr_step :: "('p, 'w) mgr_state \<Rightarrow> ('p, 'w) mgr_state \<Rightarrow> bool" where
  fresh: "objs s a = None \<Longrightarrow> keeps_type b \<Longrightarrow> mgr_step (s, m) (s\<lparr>objs := (objs s)(a \<mapsto> b)\<rparr>, m)"
| register: "p \<in> dom (objs s) \<Longrightarrow>
    storage_manager_register_backend e s (Some m) (Some p) = Some (ret, Some m', s') \<Longrightarrow> mgr_step (s, m) (s', m')"
| unregister: "storage_manager_unregister_backend e s (Some m) ty = Some (ret, Some m', s') \<Longrightarrow>
    mgr_step (s, m) (s', m')"
| cleanup: "storage_manager_cleanup e s (Some m) = Some (ret, Some m', s') \<Longrightarrow> mgr_step (s, m) (s', m')"
| wr: "storage_manager_write e s (Some m) p off d sz = Some (ret, Some m', s') \<Longrightarrow> mgr_step (s, m) (s', m')"
| rd: "storage_manager_read e s (Some m) p off buf sz = Some (ret, out, Some m', s') \<Longrightarrow> mgr_step (s, m) (s', m')"
| sync: "storage_manager_sync e s (Some m) p = Some (ret, s') \<Longrightarrow> mgr_step (s, m) (s', m)"

inductive mgr_reachable :: "('p, 'w) mgr_state \<Rightarrow> bool" where
  init: "storage_manager_init e (Some m0) = (XDEVICE_OK, Some m) \<Longrightarrow> objs s = Map.empty \<Longrightarrow> mgr_reachable (s, m)"
| step: "mgr_reachable x \<Longrightarrow> mgr_step x y \<Longrightarrow> mgr_reachable y"

definition mgr_ok :: "('p, 'w) mgr_state \<Rightarrow> bool" where
  "mgr_ok x \<longleftrightarrow> manager_wf (fst x) (snd x) \<and> heap_ok (fst x)"

lemma after_call_ok:
  assumes "mgr_ok (s, m)" and "objs s a = Some b" and "same_type (self_of b) i"
  shows "mgr_ok (after_call s a b i w, m)"
  using assms after_call_frame [of s a b i w] manager_wf_cong [of "after_call s a b i w" s m]
  by (simp add: mgr_ok_def)

lemma mgr_ok_stats [simp]:
  "mgr_ok (s, update_stats r n l m) = mgr_ok (s, m)" "mgr_ok (s, count_error m) = mgr_ok (s, m)"
  by (simp_all add: mgr_ok_def)

lemma mgr_ok_keeps: "mgr_ok (s, m) \<Longrightarrow> objs s a = Some b \<Longrightarrow> keeps_type b"
  by (auto simp: mgr_ok_def heap_ok_def ran_def)

lemma mgr_write_cases:
  assumes "storage_manager_write e s (Some m) p off d sz = Some (ret, Some m', s')"
  obtains (refused) "s' = s" and "m' = m"
  | (call) a b f i w where "objs s a = Some b" and "write_sync_fn b = Some f"
      and "f e (os s) (Some (self_of b)) p off d sz = Some (ret, i, w)" and "s' = after_call s a b i w"
      and "m' = (if ret = XDEVICE_OK then update_stats False sz (latency_ns (m_start e) (m_end e)) m
                 else count_error m)"
proof (cases "p = None \<or> d = None \<or> sz = 0")
  case True
  with assms show thesis by (intro refused) (auto simp: storage_manager_write_def split: option.splits)
next
  case False
  then obtain q c where "p = Some q" "d = Some c" by auto
  with assms False obtain sel where sel: "select_backend e s (Some m) = Some sel"
    by (cases "select_backend e s (Some m)") (auto simp: storage_manager_write_def)
  show thesis
  proof (cases sel)
    case None
    with assms False sel show thesis
      by (intro refused) (auto simp: storage_manager_write_def)
  next
    case (Some a)
    note run = assms [unfolded storage_manager_write_def \<open>p = Some q\<close> \<open>d = Some c\<close>]
    from run False sel Some obtain b where b: "objs s a = Some b"
      by (cases "objs s a") auto
    with run False sel Some obtain f where f: "write_sync_fn b = Some f"
      by (cases "write_sync_fn b") auto
    show thesis
    proof (cases "f e (os s) (Some (self_of b)) p off d sz")
      case None
      with run False sel Some b f \<open>p = Some q\<close> \<open>d = Some c\<close> show thesis by simp
    next
      case r: (Some r)
      with run False sel Some b f \<open>p = Some q\<close> \<open>d = Some c\<close> show thesis
        by (cases r) (auto simp: after_call_def intro: call [OF b f])
    qed
  qed
qed

lemma mgr_write_ok:
  assumes "mgr_ok (s, m)" and "storage_manager_write e s (Some m) p off d sz = Some (ret, Some m', s')"
  shows "mgr_ok (s', m')"
  using assms(2)
proof (cases rule: mgr_write_cases)
  case refused
  with assms(1) show ?thesis by simp
next
  case (call a b f i w)
  have "same_type (self_of b) i"
    by (rule keeps_typeD(2) [OF mgr_ok_keeps [OF assms(1) call(1)] call(2,3)])
  then have "mgr_ok (s', m)" unfolding call(4) by (rule after_call_ok [OF assms(1) call(1)])
  with call(5) show ?thesis by simp
qed

lemma mgr_read_cases:
  assumes "storage_manager_read e s (Some m) p off buf sz = Some (ret, out, Some m', s')"
  obtains (refused) "s' = s" and "m' = m"
  | (call) a b f i w where "objs s a = Some b" and "read_sync_fn b = Some f"
      and "f e (os s) (Some (self_of b)) p off buf sz = Some (ret, out, i, w)" and "s' = after_call s a b i w"
      and "m' = (if ret = XDEVICE_OK then update_stats True sz (latency_ns (m_start e) (m_end e)) m
                 else count_error m)"
proof (cases "p = None \<or> buf = None \<or> sz = 0")
  case True
  with assms show thesis by (intro refused) (auto simp: storage_manager_read_def split: option.splits)
next
  case False
  then obtain q c where "p = Some q" "buf = Some c" by auto
  with assms False obtain sel where sel: "select_backend e s (Some m) = Some sel"
    by (cases "select_backend e s (Some m)") (auto simp: storage_manager_read_def)
  show thesis
  proof (cases sel)
    case None
    with assms False sel show thesis
      by (intro refused) (auto simp: storage_manager_read_def)
  next
    case (Some a)
    note run = assms [unfolded storage_manager_read_def \<open>p = Some q\<close> \<open>buf = Some c\<close>]
    from run False sel Some obtain b where b: "objs s a = Some b"
      by (cases "objs s a") auto
    with run False sel Some obtain f where f: "read_sync_fn b = Some f"
      by (cases "read_sync_fn b") auto
    show thesis
    proof (cases "f e (os s) (Some (self_of b)) p off buf sz")
      case None
      with run False sel Some b f \<open>p = Some q\<close> \<open>buf = Some c\<close> show thesis by simp
    next
      case r: (Some r)
      with run False sel Some b f \<open>p = Some q\<close> \<open>buf = Some c\<close> show thesis
        by (cases r) (auto simp: after_call_def intro: call [OF b f])
    qed
  qed
qed

lemma mgr_read_ok:
  assumes "mgr_ok (s, m)" and "storage_manager_read e s (Some m) p off buf sz = Some (ret, out, Some m', s')"
  shows "mgr_ok (s', m')"
  using assms(2)
proof (cases rule: mgr_read_cases)
  case refused
  with assms(1) show ?thesis by simp
next
  case (call a b f i w)
  have "same_type (self_of b) i"
    by (rule keeps_typeD(3) [OF mgr_ok_keeps [OF assms(1) call(1)] call(2,3)])
  then have "mgr_ok (s', m)" unfolding call(4) by (rule after_call_ok [OF assms(1) call(1)])
  with call(5) show ?thesis by simp
qed

lemma mgr_sync_ok:
  assumes "mgr_ok (s, m)" and "storage_manager_sync e s (Some m) p = Some (ret, s')"
  shows "mgr_ok (s', m)"
proof (cases "s' = s")
  case False
  with assms(2) obtain a b f i w where ab: "objs s a = Some b" "fsync_fn b = Some f"
      "f e (os s) (Some (self_of b)) p = Some (ret, i, w)" "s' = after_call s a b i w"
    by (auto simp: storage_manager_sync_def after_call_def bind_eq_Some_conv split: option.splits if_splits)
  have "same_type (self_of b) i"
    by (rule keeps_typeD(4) [OF mgr_ok_keeps [OF assms(1) ab(1)] ab(2,3)])
  then show ?thesis unfolding ab(4) by (rule after_call_ok [OF assms(1) ab(1)])
qed (use assms in simp)

lemma spec_register_full:
  assumes "manager_wf s m"
  shows "length (registered m) < MAX_STORAGE_BACKENDS"
proof -
  have d: "distinct (map (type_at s) (registered m))" and n: "None \<notin> type_at s ` set (registered m)"
    using assms by (simp_all add: manager_wf_def)
  from d have "length (registered m) = card (type_at s ` set (registered m))"
    by (metis distinct_card length_map list.set_map)
  also have "\<dots> \<le> card (Some ` (UNIV :: storage_backend_type set))"
    using n by (intro card_mono) (auto simp: image_iff, metis option.exhaust)
  also have "\<dots> = 4" by (simp add: card_image card_storage_backend_type)
  finally show ?thesis by (simp add: MAX_STORAGE_BACKENDS_def)
qed

lemma mgr_step_ok:
  assumes "mgr_step x y" and "mgr_ok x"
  shows "mgr_ok y"
  using assms
proof cases
  case (fresh s a b m)
  have t: "type_at (s\<lparr>objs := (objs s)(a \<mapsto> b)\<rparr>) c = type_at s c" if "type_at s c \<noteq> None" for c
    using that fresh(3) by (auto simp: type_at_def)
  have "heap_ok (s\<lparr>objs := (objs s)(a \<mapsto> b)\<rparr>)"
    using assms(2) fresh by (auto simp: mgr_ok_def heap_ok_def ran_def)
  moreover have "map (type_at (s\<lparr>objs := (objs s)(a \<mapsto> b)\<rparr>)) (registered m) = map (type_at s) (registered m)"
    using assms(2) fresh t by (intro map_cong refl) (auto simp: mgr_ok_def dest: wf_type_at)
  then have "manager_wf (s\<lparr>objs := (objs s)(a \<mapsto> b)\<rparr>) m"
    using assms(2) fresh(1) unfolding mgr_ok_def manager_wf_def by (metis fst_conv list.set_map snd_conv)
  ultimately show ?thesis using fresh(2) by (simp add: mgr_ok_def)
next
  case (register p s e m ret m' s')
  then obtain new where "objs s p = Some new" by auto
  with register assms(2) register_refines [of s m p new e ret "Some m'" s'] spec_register_full [of s m]
  show ?thesis by (auto simp: mgr_ok_def)
next
  case (unregister e s m ty ret m' s')
  with assms(2) unregister_refines [of s m e ty ret "Some m'" s'] show ?thesis by (auto simp: mgr_ok_def)
next
  case (cleanup e s m ret m' s')
  with assms(2) manager_cleanup_spec [of s m e ret "Some m'" s'] show ?thesis by (auto simp: mgr_ok_def)
next
  case (wr e s m p off d sz ret m' s')
  with assms(2) mgr_write_ok show ?thesis by metis
next
  case (rd e s m p off buf sz ret out m' s')
  with assms(2) mgr_read_ok show ?thesis by metis
next
  case (sync e s m p ret s')
  with assms(2) mgr_sync_ok show ?thesis by metis
qed

lemma mgr_reachable_ok: "mgr_reachable x \<Longrightarrow> mgr_ok x"
proof (induction rule: mgr_reachable.induct)
  case (init e m0 m s)
  then have "m = manager_defaults" by (simp add: storage_manager_init_def split: if_splits)
  moreover have "manager_rep manager_defaults []" by (simp add: manager_rep_def manager_defaults_def)
  ultimately show ?case
    using init manager_rep_registered [of manager_defaults "[]"]
    by (simp add: mgr_ok_def heap_ok_def manager_wf_def)
qed (rule mgr_step_ok)

section \<open>When registration is defined\<close>

definition cleanup_total :: "('p, 'w) storage_interface \<Rightarrow> bool" where
  "cleanup_total b \<longleftrightarrow> (case cleanup_fn b of None \<Rightarrow> True | Some f \<Rightarrow> \<forall>e w i. f e w (Some i) \<noteq> None)"

lemma call_cleanup_total:
  assumes "cleanup_total b"
  obtains s' where "call_cleanup e s a b = Some s'"
proof (cases "cleanup_fn b")
  case None
  then show thesis by (intro that [of s]) (simp add: call_cleanup_def)
next
  case (Some f)
  with assms have "f e (os s) (Some (self_of b)) \<noteq> None" unfolding cleanup_total_def by simp
  then obtain r where "f e (os s) (Some (self_of b)) = Some r" by blast
  with Some that show thesis by (cases r) (simp add: call_cleanup_def)
qed

lemma register_defined:
  assumes wf: "manager_wf s m" and p: "objs s p = Some new"
    and total: "list_all (\<lambda>a. cleanup_total (obj_at s a)) (registered m)"
  shows "\<exists>r. storage_manager_register_backend e s (Some m) (Some p) = Some r"
proof -
  have rep: "manager_rep m (registered m)" using wf by (simp add: manager_wf_def)
  have room: "length (registered m) < MAX_STORAGE_BACKENDS" by (rule spec_register_full [OF wf])
  then have count: "\<not> unat (backend_count m) \<ge> MAX_STORAGE_BACKENDS"
    using manager_repD(2) [OF rep] by simp
  show ?thesis
  proof (cases rule: find_backend_cases [OF wf, of "\<lambda>b. itype b = itype new"], goal_cases none found)
    case none
    with count p set_slot_append [OF rep room, of p] show ?case
      by (auto simp: storage_manager_register_backend_def)
  next
    case (found i a)
    have "cleanup_total (obj_at s a)" using total found(4) by (simp add: list_all_iff)
    then obtain s1 where "call_cleanup e s a (obj_at s a) = Some s1" by (rule call_cleanup_total)
    with count p found set_slot_rep [OF rep found(2), of p] show ?case
      by (auto simp: storage_manager_register_backend_def)
  qed
qed

lemma unregister_defined:
  assumes wf: "manager_wf s m" and total: "list_all (\<lambda>a. cleanup_total (obj_at s a)) (registered m)"
  shows "\<exists>r. storage_manager_unregister_backend e s (Some m) ty = Some r"
proof (cases rule: find_backend_cases [OF wf, of "\<lambda>b. itype b = ty"], goal_cases none found)
  case none
  then show ?case by (auto simp: storage_manager_unregister_backend_def)
next
  case (found i a)
  have rep: "manager_rep m (registered m)" using wf by (simp add: manager_wf_def)
  have "cleanup_total (obj_at s a)" using total found(4) by (simp add: list_all_iff)
  then obtain s1 where "call_cleanup e s a (obj_at s a) = Some s1" by (rule call_cleanup_total)
  moreover obtain m1 m2 where "shift_down m [i..<unat (backend_count m - 1)] = Some m1"
      "set_slot (unat (backend_count m1 - 1)) None (m1\<lparr>backend_count := backend_count m1 - 1\<rparr>) = Some m2"
    using unregister_rep [OF rep found(2)] by blast
  ultimately show ?case using found by (auto simp: storage_manager_unregister_backend_def)
qed

section \<open>A manager with one in-memory backend\<close>

definition mock_obj :: "(mock_storage_private, unit) storage_interface" where
  "mock_obj = mock_table\<lparr>private_data := Some mock_default_private\<rparr>"

definition demo_sys :: "(mock_storage_private, unit) sys" where
  "demo_sys = \<lparr>objs = [7 \<mapsto> mock_obj], os = ()\<rparr>"

definition demo_mgr :: storage_manager where
  "demo_mgr = manager_defaults\<lparr>backends := Some 7 # replicate 7 None, backend_count := 1\<rparr>"

lemma mock_obj_put_self: "mock_obj = put_self (Some fresh_mock) mock_table"
  by (simp add: mock_obj_def put_self_def fresh_mock_def mock_table_def)

lemma mock_obj_simps [simp]:
  "keeps_type mock_obj" "self_of mock_obj = fresh_mock" "on_table mock_table mock_obj"
  "itype mock_obj = STORAGE_BACKEND_MOCK" "cleanup_total mock_obj"
proof -
  show "keeps_type mock_obj" unfolding mock_obj_put_self by (simp add: mock_table_keeps_type)
  show s: "self_of mock_obj = fresh_mock" by (simp add: mock_obj_put_self)
  show "on_table mock_table mock_obj" by (simp add: on_table_def s flip: mock_obj_put_self)
  show "itype mock_obj = STORAGE_BACKEND_MOCK" by (simp add: mock_obj_def mock_table_def)
  show "cleanup_total mock_obj" by (simp add: cleanup_total_def mock_obj_def mock_table_def)
qed

lemma demo_registered [simp]: "registered demo_mgr = [7]"
  by (simp add: registered_def demo_mgr_def)

lemma demo_obj_at [simp]: "obj_at demo_sys 7 = mock_obj" "objs demo_sys 7 = Some mock_obj"
  by (simp_all add: obj_at_def demo_sys_def)

text \<open>The state after the calls a program makes to set the manager up.\<close>

lemma demo_reachable: "mgr_reachable (demo_sys, demo_mgr)"
proof -
  let ?s0 = "\<lparr>objs = Map.empty, os = ()\<rparr> :: (mock_storage_private, unit) sys"
  have "mgr_reachable (?s0, manager_defaults)"
    by (rule mgr_reachable.init [of calm_env manager_defaults])
       (simp_all add: storage_manager_init_def calm_env_def)
  moreover have "mgr_step (?s0, manager_defaults) (demo_sys, manager_defaults)"
    using mgr_step.fresh [of ?s0 7 mock_obj manager_defaults] by (simp add: demo_sys_def)
  ultimately have r: "mgr_reachable (demo_sys, manager_defaults)" by (rule mgr_reachable.step)
  have "storage_manager_register_backend calm_env demo_sys (Some manager_defaults) (Some 7) =
      Some (XDEVICE_OK, Some demo_mgr, demo_sys)"
    by (simp add: storage_manager_register_backend_def loop_range_def manager_defaults_def demo_mgr_def
        MAX_STORAGE_BACKENDS_def set_slot_def demo_sys_def numeral_eq_Suc)
  then have "mgr_step (demo_sys, manager_defaults) (demo_sys, demo_mgr)"
    by (rule mgr_step.register [rotated]) (simp add: demo_sys_def)
  with r show ?thesis by (rule mgr_reachable.step)
qed

lemma demo_wf: "manager_wf demo_sys demo_mgr" "heap_ok demo_sys"
  using mgr_reachable_ok [OF demo_reachable] by (simp_all add: mgr_ok_def)

lemma demo_routed: "routed (demo_sys, demo_mgr) = Some mock_obj"
  by (simp add: routed_def route_def type_at_def) (simp add: demo_mgr_def manager_defaults_def)

lemma demo_mgr_invar: "mgr_invar mock_binv mock_table (demo_sys, demo_mgr)"
  using demo_wf(1) fresh_mock_ok
  by (simp add: mgr_invar_def demo_routed mock_binv_def)

lemma demo_mgr_quiet: "mgr_quiet mock_bquiet e (demo_sys, demo_mgr)"
  using fresh_mock_ok by (simp add: mgr_quiet_def demo_routed mock_bquiet_def)

section \<open>Properties\<close>

lemma mgr_wr_run:
  "storage_manager_write e s (Some m) (Some p) off (Some d) sz = Some (ret, Some m', s') \<Longrightarrow>
   mgr_wr e (s, m) p off d sz = Some (ret, s', m')"
  by (simp add: mgr_wr_def)

lemma storage_manager_read_shape:
  assumes "mgr_rd e (s, m) p off buf sz = Some (ret, b, s', m')"
  shows "storage_manager_read e s (Some m) (Some p) off (Some buf) sz = Some (ret, Some b, Some m', s')"
  using assms by (auto simp: mgr_rd_def bind_eq_Some_conv)

text \<open>Property C5.  Through the manager, too, what a successful write stored is what a read of the
  same range returns, when the manager routes to an in-memory backend that does not inject read
  errors.  Routed to the local backend, its default, the read fails.\<close>

theorem manager_read_your_write:
  assumes "mgr_invar mock_binv mock_table (s, m)" and "length p < MAX_PATH_LEN" and "sz \<noteq> 0"
    and "unat sz = length d" and "unat off + unat sz < 2 ^ 63" and "length buf = length d"
    and "mgr_quiet mock_bquiet e' (s, m)"
    and "storage_manager_write e s (Some m) (Some p) off (Some d) sz = Some (XDEVICE_OK, Some m', s')"
  shows "\<exists>m'' s''. storage_manager_read e' s' (Some m') (Some p) off (Some buf) sz =
    Some (XDEVICE_OK, Some d, Some m'', s'')"
proof -
  obtain y where "mgr_rd e' (s', m') p off buf sz = Some (XDEVICE_OK, d, y)"
    using mock_mgr.managed.read_your_write [OF assms(1-6) mgr_wr_run [OF assms(8)] assms(7)] by blast
  then show ?thesis using storage_manager_read_shape by (cases y) blast
qed

lemma demo_write: "\<exists>m' s'. storage_manager_write calm_env demo_sys (Some demo_mgr) (Some ''wal.log'') 2
    (Some [7, 8, 9]) 3 = Some (XDEVICE_OK, Some m', s')"
proof -
  have "healthy_at calm_env demo_sys 7"
    by (simp add: healthy_at_def healthy_def)
       (simp add: mock_obj_def mock_table_def mock_storage_health_check_def fresh_mock_def)
  moreover have "route demo_sys demo_mgr = Some 7"
    by (simp add: route_def type_at_def) (simp add: demo_mgr_def manager_defaults_def)
  ultimately have "select_backend calm_env demo_sys (Some demo_mgr) = Some (Some 7)"
    using select_route [OF demo_wf(1)] by blast
  moreover have "write_sync_fn mock_obj = Some (\<lambda>e w i p off d n.
       map_option (\<lambda>(ret, i'). (ret, i', w)) (mock_storage_write_sync e i p off d n))"
    by (simp add: mock_obj_def mock_table_def)
  ultimately show ?thesis by (simp add: storage_manager_write_def fresh_mock_write)
qed

theorem manager_read_your_write_witness:
  "\<exists>m' s' m'' s''. storage_manager_write calm_env demo_sys (Some demo_mgr) (Some ''wal.log'') 2
      (Some [7, 8, 9]) 3 = Some (XDEVICE_OK, Some m', s') \<and>
    storage_manager_read calm_env s' (Some m') (Some ''wal.log'') 2 (Some [0, 0, 0]) 3 =
      Some (XDEVICE_OK, Some [7, 8, 9], Some m'', s'')"
proof -
  obtain m' s' where w: "storage_manager_write calm_env demo_sys (Some demo_mgr) (Some ''wal.log'') 2
      (Some [7, 8, 9]) 3 = Some (XDEVICE_OK, Some m', s')"
    using demo_write by blast
  have "\<exists>m'' s''. storage_manager_read calm_env s' (Some m') (Some ''wal.log'') 2 (Some [0, 0, 0]) 3 =
      Some (XDEVICE_OK, Some [7, 8, 9], Some m'', s'')"
    by (rule manager_read_your_write [OF demo_mgr_invar _ _ _ _ _ demo_mgr_quiet w])
       (simp_all add: MAX_PATH_LEN_def)
  with w show ?thesis by blast
qed

text \<open>Property C6.  In every state a manager can reach, registering a live object succeeds (there is
  always room, because at most one backend of each of the four types is registered) and changes the
  registry exactly as specified: the new object takes the place of the one of its type, or is added
  at the end.\<close>

theorem manager_register_refines:
  assumes "mgr_reachable (s, m)" and "p \<in> dom (objs s)"
    and "list_all (\<lambda>a. cleanup_total (obj_at s a)) (registered m)"
  shows "\<exists>m' s'. storage_manager_register_backend e s (Some m) (Some p) = Some (XDEVICE_OK, Some m', s') \<and>
    registered m' = spec_register (type_at s) p (registered m) \<and> manager_wf s' m' \<and> type_at s' = type_at s"
proof -
  have ok: "manager_wf s m" "heap_ok s" using mgr_reachable_ok [OF assms(1)] by (simp_all add: mgr_ok_def)
  obtain new where new: "objs s p = Some new" using assms(2) by auto
  obtain ret m' s' where "storage_manager_register_backend e s (Some m) (Some p) = Some (ret, m', s')"
    using register_defined [OF ok(1) new assms(3), of e] by auto
  with register_refines [OF ok new spec_register_full [OF ok(1)] this] show ?thesis by auto
qed

theorem manager_register_refines_witness:
  "\<exists>m' s'. storage_manager_register_backend calm_env demo_sys (Some demo_mgr) (Some 7) =
      Some (XDEVICE_OK, Some m', s') \<and>
    registered m' = spec_register (type_at demo_sys) 7 (registered demo_mgr) \<and> manager_wf s' m' \<and>
    type_at s' = type_at demo_sys"
  by (rule manager_register_refines [OF demo_reachable]) (simp_all add: demo_sys_def obj_at_def)

text \<open>Property C7.  Unregistering a type removes exactly the backend of that type from the array, with
  the later ones moved down, and reports when there was none.\<close>

theorem manager_unregister_refines:
  assumes "mgr_reachable (s, m)" and "list_all (\<lambda>a. cleanup_total (obj_at s a)) (registered m)"
  shows "\<exists>ret m' s'. storage_manager_unregister_backend e s (Some m) ty = Some (ret, Some m', s') \<and>
    ret = (if Some ty \<in> type_at s ` set (registered m) then XDEVICE_OK else XDEVICE_ERROR_NOT_FOUND) \<and>
    registered m' = spec_unregister (type_at s) ty (registered m) \<and> manager_wf s' m' \<and> type_at s' = type_at s"
proof -
  have ok: "manager_wf s m" "heap_ok s" using mgr_reachable_ok [OF assms(1)] by (simp_all add: mgr_ok_def)
  obtain ret m' s' where "storage_manager_unregister_backend e s (Some m) ty = Some (ret, m', s')"
    using unregister_defined [OF ok(1) assms(2), of e ty] by auto
  with unregister_refines [OF ok this] show ?thesis by auto
qed

theorem manager_unregister_refines_witness:
  "\<exists>ret m' s'. storage_manager_unregister_backend calm_env demo_sys (Some demo_mgr) STORAGE_BACKEND_MOCK =
      Some (ret, Some m', s') \<and>
    ret = (if Some STORAGE_BACKEND_MOCK \<in> type_at demo_sys ` set (registered demo_mgr)
           then XDEVICE_OK else XDEVICE_ERROR_NOT_FOUND) \<and>
    registered m' = spec_unregister (type_at demo_sys) STORAGE_BACKEND_MOCK (registered demo_mgr) \<and>
    manager_wf s' m' \<and> type_at s' = type_at demo_sys"
  by (rule manager_unregister_refines [OF demo_reachable]) simp

text \<open>Property C33.  Selection in a well-formed manager: a backend is found exactly when a registered
  one is healthy; the chosen one is registered and healthy, is of the primary type whenever a healthy
  backend of that type exists, and otherwise, with failover enabled, of the fallback type whenever a
  healthy one exists.\<close>

theorem select_backend_priority:
  assumes "manager_wf s m"
  shows "\<exists>sel. select_backend e s (Some m) = Some sel \<and>
    (case sel of
       None \<Rightarrow> \<not> list_ex (healthy_at e s) (registered m)
     | Some a \<Rightarrow> a \<in> set (registered m) \<and> healthy_at e s a \<and>
         (type_at s a = Some (primary_backend m) \<or>
          \<not> serves e s m (primary_backend m) \<and>
            (type_at s a = Some (fallback_backend m) \<or>
             \<not> (auto_failover m \<and> serves e s m (fallback_backend m)))))"
  by (cases rule: select_backend_cases [OF assms, of e]) (auto simp: list_ex_iff)

theorem select_backend_priority_witness:
  "select_backend calm_env demo_sys (Some demo_mgr) = Some (Some 7)"
proof -
  have "list_ex (healthy_at calm_env demo_sys) (registered demo_mgr)"
    by (simp add: healthy_at_def healthy_def)
       (simp add: mock_obj_def mock_table_def mock_storage_health_check_def fresh_mock_def)
  with select_backend_priority [OF demo_wf(1), of calm_env] show ?thesis
    by (auto split: option.splits)
qed

text \<open>Fact.  Disabling \<open>auto_failover\<close> does not disable failover: the last pass of the selection
  ignores the flag, and a request is refused for want of a backend with the flag off exactly when it
  is with the flag on.\<close>

theorem failover_flag_ineffective:
  assumes "manager_wf s m"
  shows "select_backend e s (Some (m\<lparr>auto_failover := False\<rparr>)) = Some None \<longleftrightarrow>
    select_backend e s (Some (m\<lparr>auto_failover := True\<rparr>)) = Some None"
proof -
  have same: "registered (m\<lparr>auto_failover := b\<rparr>) = registered m" for b by (simp add: registered_def)
  have wf: "manager_wf s (m\<lparr>auto_failover := b\<rparr>)" for b
    using assms by (simp add: manager_wf_def same) (simp add: manager_rep_def)
  have "select_backend e s (Some (m\<lparr>auto_failover := b\<rparr>)) = Some None \<longleftrightarrow>
      \<not> list_ex (healthy_at e s) (registered m)" for b
    by (cases rule: select_backend_cases [OF wf [of b], of e]) (auto simp: list_ex_iff same)
  then show ?thesis by simp
qed

theorem failover_flag_ineffective_witness:
  "select_backend calm_env demo_sys (Some (demo_mgr\<lparr>auto_failover := False\<rparr>)) = Some None \<longleftrightarrow>
   select_backend calm_env demo_sys (Some (demo_mgr\<lparr>auto_failover := True\<rparr>)) = Some None"
  by (rule failover_flag_ineffective) (rule demo_wf(1))

text \<open>Fact.  Registering the same object twice leaves a manager without a working backend: the
  second call cleans the object up before it stores the same pointer again, reports success, and
  every later write is refused.\<close>

theorem register_twice_kills:
  assumes wf: "manager_wf s m" and one: "registered m = [p]" and b: "objs s p = Some b" "on_table mock_table b"
    and "sz \<noteq> 0"
  shows "\<exists>s'. storage_manager_register_backend e s (Some m) (Some p) = Some (XDEVICE_OK, Some m, s') \<and>
    storage_manager_write e' s' (Some m) (Some q) off (Some d) sz = Some (XDEVICE_ERROR, Some m, s')"
proof -
  have rep: "manager_rep m [p]" using wf one by (simp add: manager_wf_def)
  then have len: "length (backends m) = 8" "backends m ! 0 = Some p" "unat (backend_count m) = 1"
    by (simp_all add: manager_rep_def MAX_STORAGE_BACKENDS_def)
  obtain i where i: "cleanup_fn b = cleanup_fn mock_table" "health_check_fn b = health_check_fn mock_table"
    "mock_storage_cleanup (Some (self_of b)) = i"
    using b(2) by (metis on_table_def put_self_table(1) put_self_table(5))
  define c where "c = put_self (Some ((self_of b)\<lparr>private_data := None\<rparr>)) b"
  define s' where "s' = s\<lparr>objs := (objs s)(p \<mapsto> c)\<rparr>"
  have "put_self (snd (mock_storage_cleanup (Some (self_of b)))) b = c"
    by (cases "private_data b") (simp_all add: mock_storage_cleanup_def c_def put_self_def)
  then have "call_cleanup e s p b = Some s'"
    by (auto simp: call_cleanup_def i(1) s'_def mock_table_def split: prod.splits)
  moreover have "(backends m)[0 := Some p] = backends m" using len(2) by (metis list_update_id)
  then have "m\<lparr>backends := (backends m)[0 := Some p]\<rparr> = m" by (cases m) simp
  ultimately have reg: "storage_manager_register_backend e s (Some m) (Some p) = Some (XDEVICE_OK, Some m, s')"
    using len b by (simp add: storage_manager_register_backend_def MAX_STORAGE_BACKENDS_def loop_range_def
        backend_at_def slot_def set_slot_def)
  have "\<not> healthy e' s' c"
    using i(2) by (simp add: healthy_def mock_table_def mock_storage_health_check_def c_def)
  then have "select_backend e' s' (Some m) = Some None"
    using len by (auto simp: select_backend_def loop_range_def backend_at_def slot_def s'_def)
  then have "storage_manager_write e' s' (Some m) (Some q) off (Some d) sz = Some (XDEVICE_ERROR, Some m, s')"
    using assms(5) by (simp add: storage_manager_write_def)
  with reg show ?thesis by blast
qed

theorem register_twice_kills_witness:
  "\<exists>s'. storage_manager_register_backend calm_env demo_sys (Some demo_mgr) (Some 7) =
      Some (XDEVICE_OK, Some demo_mgr, s') \<and>
    storage_manager_write calm_env s' (Some demo_mgr) (Some ''x'') 0 (Some [1]) 1 =
      Some (XDEVICE_ERROR, Some demo_mgr, s')"
  by (rule register_twice_kills [OF demo_wf(1), where b = mock_obj]) simp_all

end
