(* ===== verification/XD_Adapter.thy ===== *)
theory XD_Adapter
  imports XD_Manager
begin

text \<open>
  The Raft storage adapter of \<open>src/storage/storage_manager.c\<close> (lines 302 to 481): it stores log
  entries, named state and snapshots as files of the storage manager, under names built from a device
  prefix, a kind and a key.  The clients' view is the locale \<open>keyed_store\<close>.
\<close>

section \<open>State and operations\<close>

text \<open>\<open>attached\<close> says whether the pointer \<open>storage_manager\<close> is set; a program has one manager, which
  the operations take and return.\<close>

record raft_storage_adapter =
  attached :: bool
  device_prefix :: string
  log_prefix :: string
  state_prefix :: string
  snapshot_prefix :: string
  metadata_prefix :: string
  log_backend :: storage_backend_type
  state_backend :: storage_backend_type
  snapshot_backend :: storage_backend_type
  metadata_backend :: storage_backend_type
  batch_writes_enabled :: bool
  batch_size :: u64
  batch_timeout_ms :: u32
  async_writes_enabled :: bool

definition raft_storage_adapter_init ::
  "raft_storage_adapter option \<Rightarrow> storage_manager option \<Rightarrow> string option
     \<Rightarrow> xdevice_error \<times> raft_storage_adapter option" where
  "raft_storage_adapter_init adapter manager prefix =
     (case (adapter, manager, prefix) of
        (Some _, Some m, Some p) \<Rightarrow>
          (XDEVICE_OK, Some \<lparr>attached = True, device_prefix = c_strncpy 63 p, log_prefix = ''log_'',
             state_prefix = ''state_'', snapshot_prefix = ''snap_'', metadata_prefix = ''meta_'',
             log_backend = primary_backend m, state_backend = primary_backend m,
             snapshot_backend = primary_backend m, metadata_backend = primary_backend m,
             batch_writes_enabled = True, batch_size = 64, batch_timeout_ms = 10,
             async_writes_enabled = False\<rparr>)
      | _ \<Rightarrow> (XDEVICE_ERROR_INVALID_PARAM, adapter))"

definition raft_storage_adapter_cleanup ::
  "raft_storage_adapter option \<Rightarrow> xdevice_error \<times> raft_storage_adapter option" where
  "raft_storage_adapter_cleanup adapter =
     (case adapter of
        None \<Rightarrow> (XDEVICE_ERROR_INVALID_PARAM, None)
      | Some ad \<Rightarrow> (XDEVICE_OK, Some (ad\<lparr>attached := False\<rparr>)))"

definition build_full_path :: "raft_storage_adapter \<Rightarrow> string \<Rightarrow> string \<Rightarrow> nat \<Rightarrow> string" where
  "build_full_path ad prefix key path_size = c_snprintf path_size (device_prefix ad @ prefix @ key)"

text \<open>\<open>snprintf(key, 64, "%lu", index)\<close>\<close>

definition index_key :: "u64 \<Rightarrow> string" where
  "index_key n = c_snprintf 64 (dec_string (unat n))"

text \<open>The calls into the manager: the code, the manager and the system afterwards.\<close>

definition manager_of :: "raft_storage_adapter \<Rightarrow> storage_manager \<Rightarrow> storage_manager option" where
  "manager_of ad m = (if attached ad then Some m else None)"

definition adapter_write ::
  "call_env \<Rightarrow> ('p, 'w) mgr_state \<Rightarrow> raft_storage_adapter \<Rightarrow> string \<Rightarrow> byte list option \<Rightarrow> u64
     \<Rightarrow> (xdevice_error \<times> ('p, 'w) mgr_state) option" where
  "adapter_write e x ad path data sz = (case x of (s, m) \<Rightarrow> do {
     (ret, m', s') \<leftarrow> storage_manager_write e s (manager_of ad m) (Some path) 0 data sz;
     Some (ret, s', case m' of None \<Rightarrow> m | Some v \<Rightarrow> v) })"

definition adapter_read ::
  "call_env \<Rightarrow> ('p, 'w) mgr_state \<Rightarrow> raft_storage_adapter \<Rightarrow> string \<Rightarrow> byte list option \<Rightarrow> u64
     \<Rightarrow> (xdevice_error \<times> byte list option \<times> ('p, 'w) mgr_state) option" where
  "adapter_read e x ad path buffer sz = (case x of (s, m) \<Rightarrow> do {
     (ret, buf, m', s') \<leftarrow> storage_manager_read e s (manager_of ad m) (Some path) 0 buffer sz;
     Some (ret, buf, s', case m' of None \<Rightarrow> m | Some v \<Rightarrow> v) })"

definition raft_storage_append_log ::
  "call_env \<Rightarrow> ('p, 'w) mgr_state \<Rightarrow> raft_storage_adapter option \<Rightarrow> u64 \<Rightarrow> byte list option \<Rightarrow> u64
     \<Rightarrow> (xdevice_error \<times> ('p, 'w) mgr_state) option" where
  "raft_storage_append_log e x adapter log_index entry_data entry_size =
     (case adapter of
        None \<Rightarrow> Some (XDEVICE_ERROR_INVALID_PARAM, x)
      | Some ad \<Rightarrow>
          if entry_data = None \<or> entry_size = 0 then Some (XDEVICE_ERROR_INVALID_PARAM, x)
          else adapter_write e x ad (build_full_path ad (log_prefix ad) (index_key log_index) MAX_PATH_LEN)
                 entry_data entry_size)"

text \<open>\<open>sz\<close> is the pointer to the size of the buffer; no load operation writes through it.\<close>

definition raft_storage_read_log ::
  "call_env \<Rightarrow> ('p, 'w) mgr_state \<Rightarrow> raft_storage_adapter option \<Rightarrow> u64 \<Rightarrow> byte list option \<Rightarrow> u64 option
     \<Rightarrow> (xdevice_error \<times> byte list option \<times> ('p, 'w) mgr_state) option" where
  "raft_storage_read_log e x adapter log_index buffer sz =
     (case (adapter, buffer, sz) of
        (Some ad, Some _, Some n) \<Rightarrow>
          adapter_read e x ad (build_full_path ad (log_prefix ad) (index_key log_index) MAX_PATH_LEN) buffer n
      | _ \<Rightarrow> Some (XDEVICE_ERROR_INVALID_PARAM, buffer, x))"

definition raft_storage_save_state ::
  "call_env \<Rightarrow> ('p, 'w) mgr_state \<Rightarrow> raft_storage_adapter option \<Rightarrow> string option \<Rightarrow> byte list option \<Rightarrow> u64
     \<Rightarrow> (xdevice_error \<times> ('p, 'w) mgr_state) option" where
  "raft_storage_save_state e x adapter state_key state_data sz =
     (case (adapter, state_key) of
        (Some ad, Some key) \<Rightarrow>
          if state_data = None \<or> sz = 0 then Some (XDEVICE_ERROR_INVALID_PARAM, x)
          else adapter_write e x ad (build_full_path ad (state_prefix ad) key MAX_PATH_LEN) state_data sz
      | _ \<Rightarrow> Some (XDEVICE_ERROR_INVALID_PARAM, x))"

definition raft_storage_load_state ::
  "call_env \<Rightarrow> ('p, 'w) mgr_state \<Rightarrow> raft_storage_adapter option \<Rightarrow> string option \<Rightarrow> byte list option
     \<Rightarrow> u64 option \<Rightarrow> (xdevice_error \<times> byte list option \<times> ('p, 'w) mgr_state) option" where
  "raft_storage_load_state e x adapter state_key buffer sz =
     (case (adapter, state_key, buffer, sz) of
        (Some ad, Some key, Some _, Some n) \<Rightarrow>
          adapter_read e x ad (build_full_path ad (state_prefix ad) key MAX_PATH_LEN) buffer n
      | _ \<Rightarrow> Some (XDEVICE_ERROR_INVALID_PARAM, buffer, x))"

definition raft_storage_save_snapshot ::
  "call_env \<Rightarrow> ('p, 'w) mgr_state \<Rightarrow> raft_storage_adapter option \<Rightarrow> u64 \<Rightarrow> byte list option \<Rightarrow> u64
     \<Rightarrow> (xdevice_error \<times> ('p, 'w) mgr_state) option" where
  "raft_storage_save_snapshot e x adapter snapshot_index snapshot_data sz =
     (case adapter of
        None \<Rightarrow> Some (XDEVICE_ERROR_INVALID_PARAM, x)
      | Some ad \<Rightarrow>
          if snapshot_data = None \<or> sz = 0 then Some (XDEVICE_ERROR_INVALID_PARAM, x)
          else adapter_write e x ad
                 (build_full_path ad (snapshot_prefix ad) (index_key snapshot_index) MAX_PATH_LEN)
                 snapshot_data sz)"

definition raft_storage_load_snapshot ::
  "call_env \<Rightarrow> ('p, 'w) mgr_state \<Rightarrow> raft_storage_adapter option \<Rightarrow> u64 \<Rightarrow> byte list option \<Rightarrow> u64 option
     \<Rightarrow> (xdevice_error \<times> byte list option \<times> ('p, 'w) mgr_state) option" where
  "raft_storage_load_snapshot e x adapter snapshot_index buffer sz =
     (case (adapter, buffer, sz) of
        (Some ad, Some _, Some n) \<Rightarrow>
          adapter_read e x ad
            (build_full_path ad (snapshot_prefix ad) (index_key snapshot_index) MAX_PATH_LEN) buffer n
      | _ \<Rightarrow> Some (XDEVICE_ERROR_INVALID_PARAM, buffer, x))"

section \<open>A store of values by key\<close>

text \<open>What a client gets from a byte store when every value has a file of its own.\<close>

locale keyed_store = byte_store invar quiet contents wr rd
  for invar :: "'s \<Rightarrow> bool" and quiet contents wr rd +
  fixes key_ok :: "'k \<Rightarrow> bool" and key_path :: "'k \<Rightarrow> string"
  assumes key_short: "key_ok k \<Longrightarrow> length (key_path k) < MAX_PATH_LEN"
    and key_inj: "key_ok k \<Longrightarrow> key_ok k' \<Longrightarrow> key_path k = key_path k' \<Longrightarrow> k = k'"
begin

text \<open>Saving replaces the value from its first byte on, but not the bytes of a longer old value.\<close>

lemma save_effect:
  assumes "invar s" and "key_ok k" and "sz \<noteq> 0" and "unat sz = length d" and "length d < 2 ^ 63"
    and "wr e s (key_path k) 0 d sz = Some (XDEVICE_OK, s')"
  shows "contents s' (key_path k) =
      Some (d @ drop (length d) (case contents s (key_path k) of None \<Rightarrow> [] | Some old \<Rightarrow> old))"
    and "\<And>k'. key_ok k' \<Longrightarrow> k' \<noteq> k \<Longrightarrow> contents s' (key_path k') = contents s (key_path k')"
    and "invar s'" and "quiet e' s' = quiet e' s"
proof -
  have b: "unat (0 :: u64) + unat sz < 2 ^ 63" "unat sz \<le> length d" using assms(4,5) by simp_all
  note pre = assms(1) key_short [OF assms(2)] assms(3) b(2,1)
  note eff = write_effect [OF pre assms(6)]
  show "contents s' (key_path k) =
      Some (d @ drop (length d) (case contents s (key_path k) of None \<Rightarrow> [] | Some old \<Rightarrow> old))"
    using eff assms(4) by (simp add: file_write_def overlay_def Let_def)
  show "contents s' (key_path k') = contents s (key_path k')" if "key_ok k'" "k' \<noteq> k" for k'
    using eff key_inj [OF that(1) assms(2)] that(2) by auto
  show "invar s'" "quiet e' s' = quiet e' s"
    using write_invar [OF pre assms(6)] by simp_all
qed

lemma load_value:
  assumes "invar s" and "quiet e s" and "sz \<noteq> 0" and "unat sz = length buf"
    and "contents s (key_path k) = Some c" and "c \<noteq> []"
  shows "\<exists>s'. rd e s (key_path k) 0 buf sz =
    Some (XDEVICE_OK, take (length buf) c @ replicate (length buf - length c) 0, s')"
  using read_effect [OF assms(1,2,3) _ _ assms(5), where off = 0 and buf = buf] assms(4,6)
    unat_u64_bound [of sz]
  by (auto simp: file_read_def overlay_def simp del: unat_u64_bound)

end

section \<open>The names of the adapter\<close>

datatype raft_key = LogKey u64 | StateKey string | SnapKey u64

fun key_string :: "raft_key \<Rightarrow> string" where
  "key_string (LogKey n) = ''log_'' @ dec_string (unat n)"
| "key_string (StateKey k) = ''state_'' @ k"
| "key_string (SnapKey n) = ''snap_'' @ dec_string (unat n)"

definition adapter_path :: "raft_storage_adapter \<Rightarrow> raft_key \<Rightarrow> string" where
  "adapter_path ad k = c_snprintf MAX_PATH_LEN (device_prefix ad @ key_string k)"

text \<open>An adapter as initialisation leaves it; a key whose name fits in the path buffer.\<close>

definition adapter_wf :: "raft_storage_adapter \<Rightarrow> bool" where
  "adapter_wf ad \<longleftrightarrow> attached ad \<and> length (device_prefix ad) \<le> 63 \<and> log_prefix ad = ''log_'' \<and>
     state_prefix ad = ''state_'' \<and> snapshot_prefix ad = ''snap_''"

definition key_fits :: "raft_storage_adapter \<Rightarrow> raft_key \<Rightarrow> bool" where
  "key_fits ad k \<longleftrightarrow> length (device_prefix ad @ key_string k) < MAX_PATH_LEN"

lemma adapter_init_wf:
  "raft_storage_adapter_init (Some a0) (Some m) (Some p) = (ret, Some ad) \<Longrightarrow> adapter_wf ad"
  by (auto simp: raft_storage_adapter_init_def adapter_wf_def intro: length_c_strncpy)

lemma index_key_eq: "index_key n = dec_string (unat n)"
  using length_dec_string_u64 [of n] by (simp add: index_key_def)

lemma index_keys_fit:
  assumes "adapter_wf ad"
  shows "key_fits ad (LogKey n)" "key_fits ad (SnapKey n)"
  using assms length_dec_string_u64 [of n] by (simp_all add: key_fits_def adapter_wf_def MAX_PATH_LEN_def)

lemma key_string_inj: "key_string k = key_string k' \<longleftrightarrow> k = k'"
  by (cases k; cases k') (auto simp: dec_string_inj word_unat_eq_iff)

interpretation adapter_keys: keyed_store "mgr_invar mock_binv mock_table" "mgr_quiet mock_bquiet"
  "mgr_contents mock_bcontents" mgr_wr mgr_rd "key_fits ad" "adapter_path ad" for ad
proof
  show "length (adapter_path ad k) < MAX_PATH_LEN" for k
    unfolding adapter_path_def by (rule length_c_snprintf) (simp add: MAX_PATH_LEN_def)
  show "k = k'" if "key_fits ad k" "key_fits ad k'" "adapter_path ad k = adapter_path ad k'" for k k'
    using that by (simp add: adapter_path_def key_fits_def key_string_inj)
qed

text \<open>The operations are the reads and writes of the keyed store.\<close>

lemma adapter_write_eq:
  assumes "attached ad"
  shows "adapter_write e x ad path (Some d) sz = mgr_wr e x path 0 d sz"
proof -
  obtain s m where x: "x = (s, m)" by (cases x)
  have "m' \<noteq> None" if "storage_manager_write e s (Some m) (Some path) 0 (Some d) sz = Some (ret, m', s')" for ret m' s'
    using that by (auto simp: storage_manager_write_def bind_eq_Some_conv split: if_splits option.splits)
  then show ?thesis
    using assms
    by (cases "storage_manager_write e s (Some m) (Some path) 0 (Some d) sz")
       (auto simp: adapter_write_def mgr_wr_def manager_of_def x split: option.splits)
qed

lemma adapter_read_Some:
  assumes "attached ad" and "mgr_rd e x path 0 buf sz = Some (ret, b, y)"
  shows "adapter_read e x ad path (Some buf) sz = Some (ret, Some b, y)"
proof -
  obtain s m s' m' where xy: "x = (s, m)" "y = (s', m')" by (cases x; cases y)
  from storage_manager_read_shape [OF assms(2) [unfolded xy]] assms(1) show ?thesis
    by (simp add: adapter_read_def manager_of_def xy)
qed

lemma adapter_path_eqs:
  assumes "adapter_wf ad"
  shows "build_full_path ad (log_prefix ad) (index_key n) MAX_PATH_LEN = adapter_path ad (LogKey n)"
    "build_full_path ad (state_prefix ad) key MAX_PATH_LEN = adapter_path ad (StateKey key)"
    "build_full_path ad (snapshot_prefix ad) (index_key n) MAX_PATH_LEN = adapter_path ad (SnapKey n)"
  using assms by (simp_all add: build_full_path_def adapter_path_def adapter_wf_def index_key_eq)

lemma adapter_saves:
  assumes "adapter_wf ad" and "sz \<noteq> 0"
  shows "raft_storage_append_log e x (Some ad) n (Some d) sz = mgr_wr e x (adapter_path ad (LogKey n)) 0 d sz"
    "raft_storage_save_state e x (Some ad) (Some key) (Some d) sz = mgr_wr e x (adapter_path ad (StateKey key)) 0 d sz"
    "raft_storage_save_snapshot e x (Some ad) n (Some d) sz = mgr_wr e x (adapter_path ad (SnapKey n)) 0 d sz"
proof -
  have "attached ad" using assms(1) by (simp add: adapter_wf_def)
  then show "raft_storage_append_log e x (Some ad) n (Some d) sz = mgr_wr e x (adapter_path ad (LogKey n)) 0 d sz"
    "raft_storage_save_state e x (Some ad) (Some key) (Some d) sz = mgr_wr e x (adapter_path ad (StateKey key)) 0 d sz"
    "raft_storage_save_snapshot e x (Some ad) n (Some d) sz = mgr_wr e x (adapter_path ad (SnapKey n)) 0 d sz"
    using assms(2)
    by (simp_all add: raft_storage_append_log_def raft_storage_save_state_def raft_storage_save_snapshot_def
        adapter_path_eqs [OF assms(1)] adapter_write_eq)
qed

lemma adapter_loads:
  assumes "adapter_wf ad"
  shows "mgr_rd e x (adapter_path ad (LogKey n)) 0 buf sz = Some (ret, b, y) \<Longrightarrow>
      raft_storage_read_log e x (Some ad) n (Some buf) (Some sz) = Some (ret, Some b, y)"
    and "mgr_rd e x (adapter_path ad (StateKey key)) 0 buf sz = Some (ret, b, y) \<Longrightarrow>
      raft_storage_load_state e x (Some ad) (Some key) (Some buf) (Some sz) = Some (ret, Some b, y)"
    and "mgr_rd e x (adapter_path ad (SnapKey n)) 0 buf sz = Some (ret, b, y) \<Longrightarrow>
      raft_storage_load_snapshot e x (Some ad) n (Some buf) (Some sz) = Some (ret, Some b, y)"
proof -
  have "attached ad" using assms by (simp add: adapter_wf_def)
  note rd = adapter_read_Some [OF this]
  show "mgr_rd e x (adapter_path ad (LogKey n)) 0 buf sz = Some (ret, b, y) \<Longrightarrow>
      raft_storage_read_log e x (Some ad) n (Some buf) (Some sz) = Some (ret, Some b, y)"
    by (simp add: raft_storage_read_log_def adapter_path_eqs [OF assms] rd)
  show "mgr_rd e x (adapter_path ad (StateKey key)) 0 buf sz = Some (ret, b, y) \<Longrightarrow>
      raft_storage_load_state e x (Some ad) (Some key) (Some buf) (Some sz) = Some (ret, Some b, y)"
    by (simp add: raft_storage_load_state_def adapter_path_eqs [OF assms] rd)
  show "mgr_rd e x (adapter_path ad (SnapKey n)) 0 buf sz = Some (ret, b, y) \<Longrightarrow>
      raft_storage_load_snapshot e x (Some ad) n (Some buf) (Some sz) = Some (ret, Some b, y)"
    by (simp add: raft_storage_load_snapshot_def adapter_path_eqs [OF assms] rd)
qed

section \<open>Properties\<close>

text \<open>The size argument for a value, and the values an adapter call accepts.\<close>

definition size_arg :: "byte list \<Rightarrow> u64" where
  "size_arg d = of_nat (length d)"

definition storable :: "byte list \<Rightarrow> bool" where
  "storable d \<longleftrightarrow> d \<noteq> [] \<and> length d < 2 ^ 63"

lemma storable_size:
  assumes "storable d"
  shows "size_arg d \<noteq> 0" "unat (size_arg d) = length d" "length d < 2 ^ 63"
proof -
  show l: "length d < 2 ^ 63" using assms by (simp add: storable_def)
  show u: "unat (size_arg d) = length d" using l by (simp add: size_arg_def unat_of_nat)
  show "size_arg d \<noteq> 0" using u assms by (auto simp: storable_def)
qed

lemma load_exact:
  assumes "mgr_invar mock_binv mock_table x" and "mgr_quiet mock_bquiet e x"
    and "mgr_contents mock_bcontents x (adapter_path ad k) = Some c" and "storable c"
    and "storable buf"
  shows "\<exists>y. mgr_rd e x (adapter_path ad k) 0 buf (size_arg buf) =
    Some (XDEVICE_OK, take (length buf) c @ replicate (length buf - length c) 0, y)"
  using adapter_keys.load_value [OF assms(1,2) storable_size(1,2) [OF assms(5)] assms(3)] assms(4)
  by (simp add: storable_def)

text \<open>Property C2.  A log entry survives what is stored after it, when the manager under the adapter routes to
  an in-memory backend into whose reads no failure is injected: an entry saved under an index that
  held nothing is read back unchanged after a state value, a snapshot and an entry with another index
  have been saved, whatever their keys (the state key fitting in the path buffer).  The local backend,
  which the manager prefers by default, does not give that.\<close>

theorem adapter_log_roundtrip:
  assumes wf: "adapter_wf ad" and inv: "mgr_invar mock_binv mock_table x" and q: "mgr_quiet mock_bquiet e x"
    and sizes: "storable d" "storable ds" "storable dn" "storable dj" "length buf = length d"
    and fresh: "mgr_contents mock_bcontents x (adapter_path ad (LogKey i)) = None"
    and keys: "key_fits ad (StateKey key)" "j \<noteq> i"
    and 1: "raft_storage_append_log e1 x (Some ad) i (Some d) (size_arg d) = Some (XDEVICE_OK, x1)"
    and 2: "raft_storage_save_state e2 x1 (Some ad) (Some key) (Some ds) (size_arg ds) = Some (XDEVICE_OK, x2)"
    and 3: "raft_storage_save_snapshot e3 x2 (Some ad) n (Some dn) (size_arg dn) = Some (XDEVICE_OK, x3)"
    and 4: "raft_storage_append_log e4 x3 (Some ad) j (Some dj) (size_arg dj) = Some (XDEVICE_OK, x4)"
  shows "\<exists>y. raft_storage_read_log e x4 (Some ad) i (Some buf) (Some (size_arg buf)) =
    Some (XDEVICE_OK, Some d, y)"
proof -
  note k = index_keys_fit [OF wf]
  note w1 = adapter_keys.save_effect [OF inv k(1) storable_size [OF sizes(1)] 1 [unfolded adapter_saves [OF wf storable_size(1) [OF sizes(1)]]]]
  note w2 = adapter_keys.save_effect [OF w1(3) keys(1) storable_size [OF sizes(2)] 2 [unfolded adapter_saves [OF wf storable_size(1) [OF sizes(2)]]]]
  note w3 = adapter_keys.save_effect [OF w2(3) k(2) storable_size [OF sizes(3)] 3 [unfolded adapter_saves [OF wf storable_size(1) [OF sizes(3)]]]]
  note w4 = adapter_keys.save_effect [OF w3(3) k(1) storable_size [OF sizes(4)] 4 [unfolded adapter_saves [OF wf storable_size(1) [OF sizes(4)]]]]
  have "mgr_contents mock_bcontents x4 (adapter_path ad (LogKey i)) = Some d"
    using w1(1) w2(2) [OF k(1)] w3(2) [OF k(1)] w4(2) [OF k(1)] keys(2) fresh by simp
  moreover have "storable buf" using sizes by (auto simp: storable_def)
  ultimately obtain y where "mgr_rd e x4 (adapter_path ad (LogKey i)) 0 buf (size_arg buf) =
      Some (XDEVICE_OK, d, y)"
    using load_exact [OF w4(3), of e ad "LogKey i" d buf] w1(4) w2(4) w3(4) w4(4) q sizes(1,5) by auto
  then show ?thesis using adapter_loads(1) [OF wf] by blast
qed

text \<open>Fact.  Saving a shorter value over a longer one leaves the end of the old value in place:
  loading the old length returns the new bytes followed by the stale ones.\<close>

theorem adapter_stale_tail:
  assumes wf: "adapter_wf ad" and inv: "mgr_invar mock_binv mock_table x" and q: "mgr_quiet mock_bquiet e x"
    and sizes: "storable old" "storable new" "length new < length old" "length buf = length old"
    and fresh: "mgr_contents mock_bcontents x (adapter_path ad (StateKey key)) = None"
    and key: "key_fits ad (StateKey key)"
    and 1: "raft_storage_save_state e1 x (Some ad) (Some key) (Some old) (size_arg old) = Some (XDEVICE_OK, x1)"
    and 2: "raft_storage_save_state e2 x1 (Some ad) (Some key) (Some new) (size_arg new) = Some (XDEVICE_OK, x2)"
  shows "\<exists>y. raft_storage_load_state e x2 (Some ad) (Some key) (Some buf) (Some (size_arg buf)) =
    Some (XDEVICE_OK, Some (new @ drop (length new) old), y)"
proof -
  note w1 = adapter_keys.save_effect [OF inv key storable_size [OF sizes(1)] 1 [unfolded adapter_saves [OF wf storable_size(1) [OF sizes(1)]]]]
  note w2 = adapter_keys.save_effect [OF w1(3) key storable_size [OF sizes(2)] 2 [unfolded adapter_saves [OF wf storable_size(1) [OF sizes(2)]]]]
  have "mgr_contents mock_bcontents x2 (adapter_path ad (StateKey key)) = Some (new @ drop (length new) old)"
    using w1(1) w2(1) fresh by simp
  moreover have "storable buf" "storable (new @ drop (length new) old)" using sizes by (auto simp: storable_def)
  ultimately obtain y where "mgr_rd e x2 (adapter_path ad (StateKey key)) 0 buf (size_arg buf) =
      Some (XDEVICE_OK, new @ drop (length new) old, y)"
    using load_exact [OF w2(3), of e ad "StateKey key"] w1(4) w2(4) q sizes by fastforce
  then show ?thesis using adapter_loads(2) [OF wf] by blast
qed

text \<open>Fact.  Loading with a buffer larger than the value succeeds: the rest of the buffer is
  filled with zeros and nothing tells the caller how long the value is.\<close>

theorem adapter_load_padding:
  assumes wf: "adapter_wf ad" and inv: "mgr_invar mock_binv mock_table x" and q: "mgr_quiet mock_bquiet e x"
    and sizes: "storable d" "storable buf" "length d \<le> length buf"
    and stored: "mgr_contents mock_bcontents x (adapter_path ad (SnapKey n)) = Some d"
  shows "\<exists>y. raft_storage_load_snapshot e x (Some ad) n (Some buf) (Some (size_arg buf)) =
    Some (XDEVICE_OK, Some (d @ replicate (length buf - length d) 0), y)"
  using load_exact [OF inv q stored sizes(1,2)] adapter_loads(3) [OF wf] sizes(3) by fastforce

text \<open>Fact.  State keys are cut off with the path: two keys whose names agree on the first 511
  characters are one file, and loading the second key returns what was saved under the first.\<close>

theorem adapter_long_keys_collide:
  assumes wf: "adapter_wf ad" and inv: "mgr_invar mock_binv mock_table x" and q: "mgr_quiet mock_bquiet e x"
    and sizes: "storable d" "length buf = length d"
    and fresh: "mgr_contents mock_bcontents x (adapter_path ad (StateKey k1)) = None"
    and same: "take 511 (device_prefix ad @ ''state_'' @ k1) = take 511 (device_prefix ad @ ''state_'' @ k2)"
    and 1: "raft_storage_save_state e1 x (Some ad) (Some k1) (Some d) (size_arg d) = Some (XDEVICE_OK, x1)"
  shows "\<exists>y. raft_storage_load_state e x1 (Some ad) (Some k2) (Some buf) (Some (size_arg buf)) =
    Some (XDEVICE_OK, Some d, y)"
proof -
  have p: "adapter_path ad (StateKey k2) = adapter_path ad (StateKey k1)"
    using same by (simp add: adapter_path_def c_snprintf_def MAX_PATH_LEN_def)
  have "length (adapter_path ad (StateKey k1)) < MAX_PATH_LEN"
    unfolding adapter_path_def by (rule length_c_snprintf) (simp add: MAX_PATH_LEN_def)
  moreover note sz = storable_size [OF sizes(1)]
  moreover have "unat (0 :: u64) + unat (size_arg d) < 2 ^ 63" using sz(2,3) by simp
  moreover have w: "mgr_wr e1 x (adapter_path ad (StateKey k1)) 0 d (size_arg d) = Some (XDEVICE_OK, x1)"
    using 1 by (simp add: adapter_saves [OF wf sz(1)])
  ultimately have "mgr_contents mock_bcontents x1 (adapter_path ad (StateKey k2)) = Some d"
    and x1: "mgr_invar mock_binv mock_table x1" "mgr_quiet mock_bquiet e x1"
    using mock_mgr.managed.write_effect [OF inv _ _ _ _ w] mock_mgr.managed.write_invar [OF inv _ _ _ _ w] fresh q
    by (simp_all add: p file_write_fresh_0)
  moreover have "storable buf" using sizes by (auto simp: storable_def)
  ultimately obtain y where "mgr_rd e x1 (adapter_path ad (StateKey k2)) 0 buf (size_arg buf) =
      Some (XDEVICE_OK, d, y)"
    using load_exact [OF x1, of ad "StateKey k2" d buf] sizes by auto
  then show ?thesis using adapter_loads(2) [OF wf] by blast
qed

section \<open>Concrete runs\<close>

definition demo_ad :: raft_storage_adapter where
  "demo_ad = \<lparr>attached = True, device_prefix = ''dev0_'', log_prefix = ''log_'',
     state_prefix = ''state_'', snapshot_prefix = ''snap_'', metadata_prefix = ''meta_'',
     log_backend = STORAGE_BACKEND_LOCAL, state_backend = STORAGE_BACKEND_LOCAL,
     snapshot_backend = STORAGE_BACKEND_LOCAL, metadata_backend = STORAGE_BACKEND_LOCAL,
     batch_writes_enabled = True, batch_size = 64, batch_timeout_ms = 10, async_writes_enabled = False\<rparr>"

type_synonym demo_state = "(mock_storage_private, unit) mgr_state"

definition demo_x1 :: demo_state where
  "demo_x1 = snd (the (raft_storage_append_log calm_env (demo_sys, demo_mgr) (Some demo_ad) 1
     (Some [1, 2, 3]) (size_arg [1, 2, 3])))"

definition demo_x2 :: demo_state where
  "demo_x2 = snd (the (raft_storage_save_state calm_env demo_x1 (Some demo_ad) (Some ''term'')
     (Some [9]) (size_arg [9])))"

definition demo_x3 :: demo_state where
  "demo_x3 = snd (the (raft_storage_save_snapshot calm_env demo_x2 (Some demo_ad) 1
     (Some [4, 4]) (size_arg [4, 4])))"

definition demo_x4 :: demo_state where
  "demo_x4 = snd (the (raft_storage_append_log calm_env demo_x3 (Some demo_ad) 2 (Some [5]) (size_arg [5])))"

lemma run_status: "map_option fst r = Some c \<Longrightarrow> r = Some (c, snd (the r))"
  by (cases r) auto

lemma demo_runs:
  "raft_storage_append_log calm_env (demo_sys, demo_mgr) (Some demo_ad) 1 (Some [1, 2, 3])
     (size_arg [1, 2, 3]) = Some (XDEVICE_OK, demo_x1)"
  "raft_storage_save_state calm_env demo_x1 (Some demo_ad) (Some ''term'') (Some [9]) (size_arg [9]) =
     Some (XDEVICE_OK, demo_x2)"
  "raft_storage_save_snapshot calm_env demo_x2 (Some demo_ad) 1 (Some [4, 4]) (size_arg [4, 4]) =
     Some (XDEVICE_OK, demo_x3)"
  "raft_storage_append_log calm_env demo_x3 (Some demo_ad) 2 (Some [5]) (size_arg [5]) =
     Some (XDEVICE_OK, demo_x4)"
  unfolding demo_x4_def demo_x3_def demo_x2_def demo_x1_def
  by (rule run_status, code_simp)+

lemma demo_ad_wf: "adapter_wf demo_ad"
  by (simp add: adapter_wf_def demo_ad_def)

lemma demo_contents: "mgr_contents mock_bcontents (demo_sys, demo_mgr) p = None"
  by (simp add: mgr_contents_def demo_routed mock_bcontents_def)

lemma demo_storable [simp]: "storable (b # bs) \<longleftrightarrow> length bs < 9223372036854775807"
  by (auto simp: storable_def)

theorem adapter_log_roundtrip_witness:
  "\<exists>y. raft_storage_read_log calm_env demo_x4 (Some demo_ad) 1 (Some [0, 0, 0])
      (Some (size_arg [0, 0, 0 :: byte])) = Some (XDEVICE_OK, Some [1, 2, 3], y)"
  by (rule adapter_log_roundtrip [OF demo_ad_wf demo_mgr_invar demo_mgr_quiet _ _ _ _ _ demo_contents _ _
        demo_runs(1) demo_runs(2) demo_runs(3) demo_runs(4)])
     (simp_all add: key_fits_def demo_ad_def MAX_PATH_LEN_def)

definition demo_t1 :: demo_state where
  "demo_t1 = snd (the (raft_storage_save_state calm_env (demo_sys, demo_mgr) (Some demo_ad) (Some ''vote'')
     (Some [1, 2, 3, 4]) (size_arg [1, 2, 3, 4])))"

definition demo_t2 :: demo_state where
  "demo_t2 = snd (the (raft_storage_save_state calm_env demo_t1 (Some demo_ad) (Some ''vote'')
     (Some [7, 8]) (size_arg [7, 8])))"

lemma demo_state_runs:
  "raft_storage_save_state calm_env (demo_sys, demo_mgr) (Some demo_ad) (Some ''vote'')
     (Some [1, 2, 3, 4]) (size_arg [1, 2, 3, 4]) = Some (XDEVICE_OK, demo_t1)"
  "raft_storage_save_state calm_env demo_t1 (Some demo_ad) (Some ''vote'') (Some [7, 8]) (size_arg [7, 8]) =
     Some (XDEVICE_OK, demo_t2)"
  unfolding demo_t2_def demo_t1_def by (rule run_status, code_simp)+

theorem adapter_stale_tail_witness:
  "\<exists>y. raft_storage_load_state calm_env demo_t2 (Some demo_ad) (Some ''vote'') (Some [0, 0, 0, 0])
      (Some (size_arg [0, 0, 0, 0 :: byte])) =
    Some (XDEVICE_OK, Some ([7, 8] @ drop (length [7, 8 :: byte]) [1, 2, 3, 4]), y)"
  by (rule adapter_stale_tail [OF demo_ad_wf demo_mgr_invar demo_mgr_quiet _ _ _ _ demo_contents _
        demo_state_runs])
     (simp_all add: key_fits_def demo_ad_def MAX_PATH_LEN_def)

definition demo_s1 :: demo_state where
  "demo_s1 = snd (the (raft_storage_save_snapshot calm_env (demo_sys, demo_mgr) (Some demo_ad) 5
     (Some [4, 4]) (size_arg [4, 4])))"

lemma demo_snapshot_run:
  "raft_storage_save_snapshot calm_env (demo_sys, demo_mgr) (Some demo_ad) 5 (Some [4, 4]) (size_arg [4, 4]) =
     Some (XDEVICE_OK, demo_s1)"
  unfolding demo_s1_def by (rule run_status, code_simp)

theorem adapter_load_padding_witness:
  "\<exists>y. raft_storage_load_snapshot calm_env demo_s1 (Some demo_ad) 5 (Some [1, 1, 1])
      (Some (size_arg [1, 1, 1 :: byte])) =
    Some (XDEVICE_OK, Some ([4, 4] @ replicate (length [1, 1, 1 :: byte] - length [4, 4 :: byte]) 0), y)"
proof -
  have "storable [4, 4]" by simp
  note w = adapter_keys.save_effect [OF demo_mgr_invar index_keys_fit(2) [OF demo_ad_wf] storable_size [OF this]
      demo_snapshot_run [unfolded adapter_saves [OF demo_ad_wf storable_size(1) [OF this]]]]
  show ?thesis
    by (rule adapter_load_padding [OF demo_ad_wf w(3) _ _ _ _ w(1) [unfolded demo_contents, simplified]])
       (simp_all add: w(4) demo_mgr_quiet)
qed

definition long_key :: string where
  "long_key = replicate 500 CHR ''k''"

definition demo_c1 :: demo_state where
  "demo_c1 = snd (the (raft_storage_save_state calm_env (demo_sys, demo_mgr) (Some demo_ad)
     (Some (long_key @ ''_one'')) (Some [6, 7]) (size_arg [6, 7])))"

lemma demo_collision_run:
  "raft_storage_save_state calm_env (demo_sys, demo_mgr) (Some demo_ad) (Some (long_key @ ''_one''))
     (Some [6, 7]) (size_arg [6, 7]) = Some (XDEVICE_OK, demo_c1)"
  unfolding demo_c1_def by (rule run_status, code_simp)

theorem adapter_long_keys_collide_witness:
  "\<exists>y. raft_storage_load_state calm_env demo_c1 (Some demo_ad) (Some (long_key @ ''_two'')) (Some [0, 0])
      (Some (size_arg [0, 0 :: byte])) = Some (XDEVICE_OK, Some [6, 7], y)"
  by (rule adapter_long_keys_collide [OF demo_ad_wf demo_mgr_invar demo_mgr_quiet _ _ demo_contents _
        demo_collision_run])
     (simp_all add: demo_ad_def long_key_def)

end
