(* ===== verification/XD_Log.thy ===== *)
theory XD_Log
  imports XD_Types
begin

text \<open>
  The contract of an append-only log, which the write-ahead log (\<open>XD_Wal\<close>) and the replicated log
  of a Raft node (\<open>XD_Raft\<close>) provide: an append either adds exactly one entry at the end and
  reports success, or reports an error and adds nothing.
\<close>

locale append_log =
  fixes invar :: "'s \<Rightarrow> bool"
    and legal :: "'a \<Rightarrow> bool"
    and log :: "'s \<Rightarrow> 'r list"
    and app :: "'s \<Rightarrow> 'a \<Rightarrow> (xdevice_error \<times> 's) option"
    and entry :: "'s \<Rightarrow> 'a \<Rightarrow> 'r"
  assumes app_defined: "invar s \<Longrightarrow> legal a \<Longrightarrow> \<exists>ret s'. app s a = Some (ret, s') \<and> invar s'"
    and app_ok: "invar s \<Longrightarrow> legal a \<Longrightarrow> app s a = Some (XDEVICE_OK, s') \<Longrightarrow>
      log s' = log s @ [entry s a]"
    and app_error: "invar s \<Longrightarrow> legal a \<Longrightarrow> app s a = Some (ret, s') \<Longrightarrow> ret \<noteq> XDEVICE_OK \<Longrightarrow>
      log s' = log s"
begin

text \<open>A client that issues one append after another, whatever each of them returns.\<close>

primrec run_appends :: "'a list \<Rightarrow> 's \<Rightarrow> (xdevice_error list \<times> 's) option" where
  "run_appends [] s = Some ([], s)"
| "run_appends (a # as) s = do {
     (ret, s1) \<leftarrow> app s a;
     (rets, s2) \<leftarrow> run_appends as s1;
     Some (ret # rets, s2) }"

lemma app_invar: "invar s \<Longrightarrow> legal a \<Longrightarrow> app s a = Some (ret, s') \<Longrightarrow> invar s'"
  using app_defined by fastforce

text \<open>No run is undefined, and the log only grows: by one entry for each success.\<close>

lemma run_appends_spec:
  "invar s \<Longrightarrow> list_all legal as \<Longrightarrow>
   \<exists>rets s' new. run_appends as s = Some (rets, s') \<and> invar s' \<and> log s' = log s @ new \<and>
     length rets = length as \<and> length new = length (filter (\<lambda>r. r = XDEVICE_OK) rets)"
proof (induction as arbitrary: s)
  case Nil
  then show ?case by simp
next
  case (Cons a as)
  then obtain ret s1 where a: "app s a = Some (ret, s1)" "invar s1"
    using app_defined by fastforce
  with Cons obtain rets s' new where r: "run_appends as s1 = Some (rets, s')" "invar s'"
      "log s' = log s1 @ new" "length rets = length as"
      "length new = length (filter (\<lambda>r. r = XDEVICE_OK) rets)"
    by (metis list.pred_inject(2))
  show ?case
  proof (cases "ret = XDEVICE_OK")
    case True
    with a Cons.prems have "log s1 = log s @ [entry s a]" by (auto dest: app_ok)
    with True a r show ?thesis
      by (intro exI [of _ "ret # rets"] exI [of _ s'] exI [of _ "entry s a # new"]) simp
  next
    case False
    with a Cons.prems have "log s1 = log s" by (auto dest: app_error)
    with False a r show ?thesis by (intro exI [of _ "ret # rets"] exI [of _ s']) simp
  qed
qed

end

end
