(* ===== verification/XD_Crc32.thy ===== *)
theory XD_Crc32
  imports XD_Prelude
begin

text \<open>
  The checksum of the write-ahead log (\<open>crc32\<close> in \<open>src/storage/wal_engine.c\<close>): the table the
  code builds on its first call, the table-driven loop, the polynomial division of the CRC-32 standard it
  must agree with, and what the checksum can tell apart.
\<close>

section \<open>The code\<close>

text \<open>The inner loop body that fills the table, and one entry of the table.\<close>

definition crc_bit_step :: "u32 \<Rightarrow> u32" where
  "crc_bit_step crc =
     (if crc AND 1 \<noteq> 0 then drop_bit 1 crc XOR 0xEDB88320 else drop_bit 1 crc)"

definition crc_table_entry :: "u32 \<Rightarrow> u32" where
  "crc_table_entry i = (crc_bit_step ^^ 8) i"

definition crc_table :: "u32 list" where
  "crc_table = map (\<lambda>i. crc_table_entry (of_nat i)) [0..<256]"

definition crc_update :: "u32 \<Rightarrow> byte \<Rightarrow> u32" where
  "crc_update crc b = crc_table ! unat ((crc XOR ucast b) AND 0xFF) XOR drop_bit 8 crc"

definition crc32 :: "byte list \<Rightarrow> u32" where
  "crc32 bytes = foldl crc_update 0xFFFFFFFF bytes XOR 0xFFFFFFFF"

section \<open>The reference\<close>

text \<open>
  CRC-32 as the standard states it: the remainder of polynomial division over GF(2).  The register is a list of 32
  coefficients, the one of \<open>x ^ 31\<close> first; the generator is given by its exponents.  Every byte enters with
  its lowest bit first, the register starts with all ones, and the result is the complemented remainder with the
  coefficient of \<open>x ^ 31\<close> as its lowest bit.
\<close>

definition crc_generator :: "bool list" where
  "crc_generator = map (\<lambda>k. k \<in> set [26, 23, 22, 16, 12, 11, 10, 8, 7, 5, 4, 2, 1, 0]) (rev [0..<32])"

definition divide_bit :: "bool list \<Rightarrow> bool \<Rightarrow> bool list" where
  "divide_bit r b = (if hd r \<noteq> b then map2 (\<noteq>) (tl r @ [False]) crc_generator else tl r @ [False])"

definition byte_bits :: "byte \<Rightarrow> bool list" where
  "byte_bits b = map (bit b) [0..<8]"

definition crc32_ref :: "byte list \<Rightarrow> u32" where
  "crc32_ref bytes = horner_sum of_bool 2
     (map Not (foldl divide_bit (replicate 32 True) (concat (map byte_bits bytes))))"

text \<open>The update of the code's register without the table: the byte is added and eight bits are shifted out.\<close>

definition crc_update_ref :: "u32 \<Rightarrow> byte \<Rightarrow> u32" where
  "crc_update_ref crc b = (crc_bit_step ^^ 8) (crc XOR ucast b)"

section \<open>Algebra of the bit step\<close>

lemma and_one_nonzero_iff: "w AND 1 \<noteq> 0 \<longleftrightarrow> odd (w :: u32)"
  by (simp add: and_one_eq odd_iff_mod_2_eq_one)

lemma crc_bit_step_alt:
  "crc_bit_step w = drop_bit 1 w XOR (if odd w then 0xEDB88320 else 0)"
  by (simp add: crc_bit_step_def and_one_nonzero_iff)

lemma crc_bit_step_xor: "crc_bit_step (a XOR b) = crc_bit_step a XOR crc_bit_step b"
  by (simp add: crc_bit_step_alt even_xor_iff drop_bit_xor xor.assoc xor.left_commute xor.commute)

lemma crc_bit_steps_xor:
  "(crc_bit_step ^^ n) (a XOR b) = (crc_bit_step ^^ n) a XOR (crc_bit_step ^^ n) b"
  by (induction n) (simp_all add: crc_bit_step_xor)

lemma crc_bit_step_even: "even w \<Longrightarrow> crc_bit_step w = drop_bit 1 w"
  by (simp add: crc_bit_step_alt)

text \<open>Shifting out zero bits divides by a power of two.\<close>

lemma crc_bit_steps_push:
  "(\<forall>k<n. \<not> bit w k) \<Longrightarrow> (crc_bit_step ^^ n) w = drop_bit n w"
proof (induction n)
  case 0
  then show ?case by simp
next
  case (Suc n)
  then have "(crc_bit_step ^^ n) w = drop_bit n w" by simp
  moreover have "even (drop_bit n w)"
    using Suc.prems bit_iff_odd_drop_bit [of w n] by simp
  ultimately show ?case
    by (simp add: crc_bit_step_even drop_bit_drop_bit)
qed

lemma xor_right_cancel: "(a :: u32) XOR c = b XOR c \<longleftrightarrow> a = b"
  by (metis xor.assoc xor.right_neutral xor_self_eq)

lemma crc_bit_step_bit31: "bit (crc_bit_step w) 31 \<longleftrightarrow> odd w"
  by (simp add: crc_bit_step_alt bit_simps) (auto dest: bit_imp_le_length)

lemma crc_bit_step_inj: "crc_bit_step a = crc_bit_step b \<longleftrightarrow> a = b"
proof
  assume eq: "crc_bit_step a = crc_bit_step b"
  then have par: "odd a \<longleftrightarrow> odd b"
    by (metis crc_bit_step_bit31)
  with eq have "drop_bit 1 a = drop_bit 1 b"
    by (simp add: crc_bit_step_alt xor_right_cancel split: if_splits)
  then have "a div 2 = b div 2" by (simp add: drop_bit_eq_div)
  moreover have "a mod 2 = b mod 2" using par by (simp add: mod_2_eq_odd)
  ultimately show "a = b" by (metis div_mult_mod_eq)
qed simp

lemma crc_bit_steps_inj: "(crc_bit_step ^^ n) a = (crc_bit_step ^^ n) b \<longleftrightarrow> a = b"
  by (induction n) (simp_all add: crc_bit_step_inj)

section \<open>The table\<close>

lemma crc_table_nth: "n < 256 \<Longrightarrow> crc_table ! n = crc_table_entry (of_nat n)"
  by (simp add: crc_table_def)

lemma unat_low_byte: "unat ((w :: u32) AND 0xFF) < 256"
proof -
  have "w AND 0xFF \<le> 0xFF" by (rule word_and_le1)
  then have "unat (w AND 0xFF) \<le> unat (0xFF :: u32)" by (simp only: word_le_nat_alt)
  then show ?thesis by simp
qed

lemma split_low_byte: "(w :: u32) = (w AND 0xFF) XOR push_bit 8 (drop_bit 8 w)"
proof -
  have "(w AND mask 8) XOR push_bit 8 (drop_bit 8 w) = w"
    by (rule bit_word_eqI) (auto simp: bit_simps)
  moreover have "(mask 8 :: u32) = 0xFF" by (simp add: mask_eq_exp_minus_1)
  ultimately show ?thesis by simp
qed

lemma crc_update_eq_ref: "crc_update crc b = crc_update_ref crc b"
proof -
  let ?w = "crc XOR ucast b"
  have hi: "drop_bit 8 ?w = drop_bit 8 crc"
    by (rule bit_word_eqI) (auto simp: bit_simps dest: bit_imp_le_length)
  have "crc_update_ref crc b = (crc_bit_step ^^ 8) ((?w AND 0xFF) XOR push_bit 8 (drop_bit 8 ?w))"
    using split_low_byte [of ?w] by (simp add: crc_update_ref_def)
  also have "\<dots> = crc_table_entry (?w AND 0xFF) XOR drop_bit 8 (push_bit 8 (drop_bit 8 ?w))"
    by (simp add: crc_bit_steps_xor crc_table_entry_def crc_bit_steps_push bit_simps)
  also have "drop_bit 8 (push_bit 8 (drop_bit 8 ?w)) = drop_bit 8 crc"
    by (rule bit_word_eqI) (auto simp: bit_simps hi dest: bit_imp_le_length)
  also have "crc_table_entry (?w AND 0xFF) = crc_table ! unat (?w AND 0xFF)"
    using unat_low_byte [of ?w] by (simp add: crc_table_nth)
  finally show ?thesis by (simp add: crc_update_def)
qed

section \<open>The register as a polynomial\<close>

text \<open>The check value that the standard publishes.\<close>

lemma crc32_ref_check: "crc32_ref (map of_char ''123456789'') = 0xCBF43926"
  by code_simp

text \<open>The register of the code holds the coefficients with the one of \<open>x ^ 31\<close> in its lowest bit.\<close>

definition reg_bits :: "u32 \<Rightarrow> bool list" where
  "reg_bits w = map (bit w) [0..<32]"

lemma generator_bits: "crc_generator = reg_bits 0xEDB88320"
  by (simp add: crc_generator_def reg_bits_def upt_rec)

lemma reg_bits_step:
  "divide_bit (reg_bits w) b = reg_bits (crc_bit_step (w XOR of_bool b))"
proof -
  have hd: "hd (reg_bits w) = odd w" by (simp add: reg_bits_def hd_map bit_0)
  have tl: "tl (reg_bits w) @ [False] = reg_bits (drop_bit 1 w)"
  proof (rule nth_equalityI)
    fix i assume "i < length (tl (reg_bits w) @ [False])"
    then have i: "i < 32" by (simp add: reg_bits_def)
    show "(tl (reg_bits w) @ [False]) ! i = reg_bits (drop_bit 1 w) ! i"
      using i by (cases "i = 31") (auto simp: reg_bits_def nth_append nth_tl bit_simps dest: bit_imp_le_length)
  qed (simp add: reg_bits_def)
  have xor: "map2 (\<noteq>) (reg_bits u) (reg_bits v) = reg_bits (u XOR v)" for u v
    by (rule nth_equalityI) (simp_all add: reg_bits_def bit_simps)
  have drop: "drop_bit 1 (w XOR of_bool b) = drop_bit 1 w"
    by (rule bit_word_eqI) (auto simp: bit_simps)
  have odd: "odd (w XOR of_bool b) \<longleftrightarrow> odd w \<noteq> b" by (cases b) (simp_all add: even_xor_iff)
  show ?thesis
    by (simp only: divide_bit_def hd tl xor generator_bits crc_bit_step_alt drop odd) simp
qed

text \<open>Feeding the low bits of \<open>m\<close> one at a time is adding them to the register first.\<close>

lemma divide_bits:
  "foldl divide_bit (reg_bits w) (map (bit m) [0..<n]) = reg_bits ((crc_bit_step ^^ n) (w XOR take_bit n m))"
  if "n \<le> 32" for m :: u32
  using that
proof (induction n)
  case 0
  then show ?case by simp
next
  case (Suc n)
  have low: "(crc_bit_step ^^ n) (push_bit n (of_bool (bit m n))) = of_bool (bit m n)"
  proof -
    have "(crc_bit_step ^^ n) (push_bit n (of_bool (bit m n) :: u32)) = drop_bit n (push_bit n (of_bool (bit m n)))"
      by (rule crc_bit_steps_push) (simp add: bit_simps)
    also have "\<dots> = of_bool (bit m n)" using Suc.prems by (intro bit_word_eqI) (auto simp: bit_simps)
    finally show ?thesis .
  qed
  have split: "take_bit (Suc n) m = take_bit n m XOR push_bit n (of_bool (bit m n))"
    by (rule bit_word_eqI) (auto simp: bit_simps less_Suc_eq)
  show ?case
    using Suc by (simp add: reg_bits_step split crc_bit_steps_xor low flip: xor.assoc)
qed

lemma divide_byte: "foldl divide_bit (reg_bits w) (byte_bits b) = reg_bits (crc_update w b)"
proof -
  have "byte_bits b = map (bit (ucast b :: u32)) [0..<8]" by (simp add: byte_bits_def bit_simps)
  moreover have "take_bit 8 (ucast b :: u32) = ucast b"
    by (rule bit_word_eqI) (auto simp: bit_simps dest: bit_imp_le_length)
  ultimately show ?thesis using divide_bits [of 8 w "ucast b"] by (simp add: crc_update_eq_ref crc_update_ref_def)
qed

lemma divide_bytes: "foldl divide_bit (reg_bits w) (concat (map byte_bits bs)) = reg_bits (foldl crc_update w bs)"
  by (induction bs arbitrary: w) (simp_all add: divide_byte)

lemma reg_bits_word: "horner_sum of_bool 2 (reg_bits w) = w"
  by (rule bit_word_eqI) (simp add: reg_bits_def bit_horner_sum_bit_word_iff)

section \<open>What the checksum tells apart\<close>

text \<open>
  Any checksum whose register update is injective in the register and in the byte detects a change
  of a single byte, wherever it is.
\<close>

locale rolling_checksum =
  fixes upd :: "'s \<Rightarrow> 'b \<Rightarrow> 's"
  assumes upd_state_inj: "upd s b = upd t b \<Longrightarrow> s = t"
    and upd_byte_inj: "upd s a = upd s b \<Longrightarrow> a = b"
begin

lemma foldl_state_inj: "foldl upd s bs = foldl upd t bs \<longleftrightarrow> s = t"
  by (induction bs arbitrary: s t) (auto dest: upd_state_inj)

lemma prefix_and_suffix:
  "foldl upd s (xs @ u @ ys) = foldl upd s (xs @ v @ ys) \<longleftrightarrow>
   foldl upd (foldl upd s xs) u = foldl upd (foldl upd s xs) v"
  by (simp add: foldl_state_inj)

lemma single_byte_detected:
  "foldl upd s (xs @ a # ys) = foldl upd s (xs @ b # ys) \<longleftrightarrow> a = b"
  using upd_byte_inj by (auto simp: foldl_state_inj)

end

lemma crc_update_state_inj: "crc_update s b = crc_update t b \<longleftrightarrow> s = t"
  by (simp add: crc_update_eq_ref crc_update_ref_def crc_bit_steps_inj xor_right_cancel)

lemma ucast_byte_inj: "(ucast (a :: byte) :: u32) = ucast b \<longleftrightarrow> a = b"
proof
  assume eq: "(ucast a :: u32) = ucast b"
  show "a = b"
  proof (rule bit_word_eqI)
    fix n assume n: "n < LENGTH(8)"
    have "bit (ucast a :: u32) n = bit (ucast b :: u32) n" by (simp only: eq)
    with n show "bit a n = bit b n" by (simp add: bit_simps)
  qed
qed simp

lemma crc_update_byte_inj: "crc_update s a = crc_update s b \<longleftrightarrow> a = b"
  by (simp add: crc_update_eq_ref crc_update_ref_def crc_bit_steps_inj xor.commute [of s]
        xor_right_cancel ucast_byte_inj)

interpretation crc: rolling_checksum crc_update
  by unfold_locales (simp_all add: crc_update_state_inj crc_update_byte_inj)

text \<open>Up to four bytes fit in the register: their checksum steps are one linear map.\<close>

lemma crc_update_push:
  assumes "\<forall>k\<ge>24. \<not> bit w k"
  shows "crc_update s b XOR w = (crc_bit_step ^^ 8) (s XOR ucast b XOR push_bit 8 w)"
proof -
  have "(crc_bit_step ^^ 8) (push_bit 8 w) = drop_bit 8 (push_bit 8 w)"
    by (rule crc_bit_steps_push) (simp add: bit_simps)
  also have "\<dots> = w"
    using assms by (intro bit_word_eqI) (auto simp: bit_simps not_le [symmetric])
  finally show ?thesis
    by (simp add: crc_update_eq_ref crc_update_ref_def crc_bit_steps_xor xor.assoc)
qed

lemma of_le_Cons_xor:
  "(of_le (b # bs) :: u32) = ucast b XOR push_bit 8 (of_le bs)"
  by (rule bit_word_eqI) (auto simp: of_le_Cons bit_simps dest: bit_imp_le_length)

lemma foldl_crc_update_short:
  "length bs \<le> 4 \<Longrightarrow>
   foldl crc_update s bs = (crc_bit_step ^^ (8 * length bs)) (s XOR of_le bs)"
proof (induction bs arbitrary: s)
  case Nil
  then show ?case by (simp add: of_le_def)
next
  case (Cons b bs)
  have short: "\<forall>k\<ge>24. \<not> bit (of_le bs :: u32) k"
    using Cons.prems by (auto simp: bit_of_le)
  have "foldl crc_update s (b # bs) = (crc_bit_step ^^ (8 * length bs)) (crc_update s b XOR of_le bs)"
    using Cons by simp
  also have "\<dots> = (crc_bit_step ^^ (8 * length bs)) ((crc_bit_step ^^ 8) (s XOR of_le (b # bs)))"
    by (simp only: crc_update_push [OF short] of_le_Cons_xor xor.assoc)
  also have "\<dots> = (crc_bit_step ^^ (8 * length bs + 8)) (s XOR of_le (b # bs))"
    by (simp only: funpow_add o_apply)
  finally show ?case by (simp add: algebra_simps)
qed

lemma of_le_inj:
  assumes "length u = length v" and "length u \<le> 4"
  shows "(of_le u :: u32) = of_le v \<longleftrightarrow> u = v"
proof
  assume eq: "(of_le u :: u32) = of_le v"
  show "u = v"
  proof (rule nth_equalityI)
    fix i assume i: "i < length u"
    show "u ! i = v ! i"
    proof (rule bit_word_eqI)
      fix k assume k: "k < LENGTH(8)"
      have "bit (of_le u :: u32) (8 * i + k) = bit (of_le v :: u32) (8 * i + k)"
        by (simp only: eq)
      with i k assms show "bit (u ! i) k = bit (v ! i) k"
        by (simp add: bit_of_le)
    qed
  qed (rule assms(1))
qed simp

lemma crc32_burst:
  assumes "length u = length v" and "length u \<le> 4"
  shows "crc32 (xs @ u @ ys) = crc32 (xs @ v @ ys) \<longleftrightarrow> u = v"
proof -
  have "crc32 (xs @ u @ ys) = crc32 (xs @ v @ ys) \<longleftrightarrow>
      foldl crc_update 0xFFFFFFFF (xs @ u @ ys) = foldl crc_update 0xFFFFFFFF (xs @ v @ ys)"
    by (simp only: crc32_def xor_right_cancel)
  also have "\<dots> \<longleftrightarrow> u = v"
    using assms
    by (simp only: crc.prefix_and_suffix foldl_crc_update_short crc_bit_steps_inj
          xor.commute [of "foldl crc_update 0xFFFFFFFF xs"] xor_right_cancel of_le_inj)
  finally show ?thesis .
qed

section \<open>Properties\<close>

text \<open>Property C36.  The table-driven \<open>crc32\<close> of the code computes CRC-32 as the standard defines it, by
  polynomial division with its generator, for every input.\<close>

theorem crc32_table_driven: "crc32 bytes = crc32_ref bytes"
proof -
  have ones: "replicate 32 True = reg_bits 0xFFFFFFFF" by code_simp
  have compl: "map Not (reg_bits w) = reg_bits (w XOR 0xFFFFFFFF)" for w
  proof -
    have ones: "bit (0xFFFFFFFF :: u32) k" if "k < 32" for k
    proof -
      have "(0xFFFFFFFF :: u32) = mask 32" by (simp add: mask_eq_exp_minus_1)
      then show ?thesis using that by (simp only: bit_mask_iff) simp
    qed
    then show ?thesis by (simp add: reg_bits_def bit_simps)
  qed
  show ?thesis by (simp only: crc32_ref_def ones divide_bytes compl reg_bits_word crc32_def)
qed

text \<open>Property C37.  Two inputs of equal length that differ only within a window of at most four
  bytes never have the same checksum.\<close>

theorem crc32_detects_burst:
  assumes "length u = length v" and "length u \<le> 4" and "u \<noteq> v"
  shows "crc32 (xs @ u @ ys) \<noteq> crc32 (xs @ v @ ys)"
  using assms by (simp add: crc32_burst)

theorem crc32_detects_burst_witness:
  "crc32 ([1] @ [2, 3] @ [4]) \<noteq> crc32 ([1] @ [2, 7] @ [4])"
  by (rule crc32_detects_burst) simp_all

end
