(* ===== verification/XD_Wal.thy ===== *)
theory XD_Wal
  imports XD_Log XD_Crc32
begin

text \<open>
  The write-ahead log engine of \<open>src/storage/wal_engine.c\<close>: the file header and its validation,
  creation and opening of a log file, appending, syncing and statistics.  Structures are laid out as
  on x86-64: \<open>wal_header_t\<close> has 40 bytes and \<open>wal_record_header_t\<close> has 160, with their padding.
\<close>

section \<open>On-disk structures\<close>

text \<open>The bytes of padding are part of the structures because the checksum runs over them.\<close>

record wal_header =
  h_magic :: "byte list"
  h_version :: u32
  h_pad1 :: "byte list"
  h_created_time :: u64
  h_file_size :: u64
  h_checksum :: u32
  h_pad2 :: "byte list"

record wal_record_header =
  r_lsn :: u64
  r_length :: u32
  r_checksum :: u32
  r_timestamp :: u64
  r_op_type :: u32
  r_device_name :: "byte list"
  r_pad :: "byte list"

definition string_bytes :: "string \<Rightarrow> byte list" where
  "string_bytes s = map of_char s"

definition WAL_MAGIC :: "byte list" where
  "WAL_MAGIC = string_bytes ''XDEV_WAL''"

definition WAL_VERSION :: u32 where
  "WAL_VERSION = 1"

text \<open>The memory image of the two structures.\<close>

definition wal_header_bytes :: "wal_header \<Rightarrow> byte list" where
  "wal_header_bytes h = h_magic h @ le_bytes 4 (h_version h) @ h_pad1 h @
     le_bytes 8 (h_created_time h) @ le_bytes 8 (h_file_size h) @ le_bytes 4 (h_checksum h) @ h_pad2 h"

definition wal_header_of :: "byte list \<Rightarrow> wal_header" where
  "wal_header_of b = \<lparr>h_magic = take 8 b, h_version = of_le (take 4 (drop 8 b)),
     h_pad1 = take 4 (drop 12 b), h_created_time = of_le (take 8 (drop 16 b)),
     h_file_size = of_le (take 8 (drop 24 b)), h_checksum = of_le (take 4 (drop 32 b)),
     h_pad2 = drop 36 b\<rparr>"

definition record_header_bytes :: "wal_record_header \<Rightarrow> byte list" where
  "record_header_bytes r = le_bytes 8 (r_lsn r) @ le_bytes 4 (r_length r) @ le_bytes 4 (r_checksum r) @
     le_bytes 8 (r_timestamp r) @ le_bytes 4 (r_op_type r) @ r_device_name r @ r_pad r"

definition record_header_of :: "byte list \<Rightarrow> wal_record_header" where
  "record_header_of b = \<lparr>r_lsn = of_le (take 8 b), r_length = of_le (take 4 (drop 8 b)),
     r_checksum = of_le (take 4 (drop 12 b)), r_timestamp = of_le (take 8 (drop 16 b)),
     r_op_type = of_le (take 4 (drop 24 b)), r_device_name = take 128 (drop 28 b),
     r_pad = drop 156 b\<rparr>"

definition sizeof_wal_header :: nat where
  "sizeof_wal_header = 40"

definition sizeof_record_header :: nat where
  "sizeof_record_header = 160"

section \<open>State and environment\<close>

text \<open>
  \<open>struct xdevice_wal\<close>.  \<open>mmap_region\<close> is what the shared mapping shows, \<open>on_disk\<close> what the
  operating system has been made to write to the device by \<open>msync\<close> and \<open>fsync\<close>, starting
  with the contents of the file before it was opened.
\<close>

record xdevice_wal =
  mmap_region :: "byte list"
  on_disk :: "byte list"
  file_size :: u64
  current_offset :: u64
  next_lsn :: u64
  wal_file_path :: string
  is_syncing :: bool
  last_sync_lsn :: u64
  buffer_size :: u64
  buffer_used :: u64
  total_writes :: u64
  total_syncs :: u64
  total_bytes_written :: u64

text \<open>
  What the C library and the operating system answer during a call, and the indeterminate contents
  of the header structures the functions declare on their stack.
\<close>

record wal_env =
  w_time :: u64
  w_alloc :: "nat \<Rightarrow> bool"
  w_mutex_init :: bool
  w_cond_init :: bool
  w_open :: bool
  w_fstat :: bool
  w_ftruncate :: bool
  w_write :: bool
  w_read :: bool
  w_mmap :: bool
  w_msync :: bool
  w_fsync :: bool
  stack_header :: wal_header
  stack_record :: wal_record_header

section \<open>The code\<close>

definition create_wal_header :: "wal_env \<Rightarrow> u64 \<Rightarrow> wal_header" where
  "create_wal_header e fsz =
     (let h = (stack_header e)\<lparr>h_magic := WAL_MAGIC, h_version := WAL_VERSION,
                h_created_time := w_time e, h_file_size := fsz\<rparr>
      in h\<lparr>h_checksum := crc32 (take (sizeof_wal_header - 4) (wal_header_bytes h))\<rparr>)"

definition validate_wal_header :: "wal_header \<Rightarrow> bool" where
  "validate_wal_header h =
     (if h_magic h \<noteq> WAL_MAGIC then False
      else if h_version h \<noteq> WAL_VERSION then False
      else crc32 (take (sizeof_wal_header - 4) (wal_header_bytes h)) = h_checksum h)"

text \<open>
  \<open>xdevice_wal_create\<close> takes the contents of the file under that name, if it exists, and returns
  the engine (\<open>None\<close> for \<open>NULL\<close>) and the file afterwards.  \<open>ftruncate\<close> takes a signed length and
  \<open>mmap\<close> refuses an empty one.
\<close>

definition wal_init_struct :: "string \<Rightarrow> u64 \<Rightarrow> xdevice_wal" where
  "wal_init_struct path initial_size = \<lparr>mmap_region = [], on_disk = [], file_size = initial_size,
     current_offset = 0, next_lsn = 1, wal_file_path = c_strncpy 255 path, is_syncing = False,
     last_sync_lsn = 0, buffer_size = of_nat XDEVICE_WAL_BUFFER_SIZE, buffer_used = 0,
     total_writes = 0, total_syncs = 0, total_bytes_written = 0\<rparr>"

definition wal_map :: "wal_env \<Rightarrow> xdevice_wal \<Rightarrow> byte list \<Rightarrow> xdevice_wal option" where
  "wal_map e wal contents =
     (if w_mmap e \<and> file_size wal \<noteq> 0
      then Some (wal\<lparr>mmap_region := take (unat (file_size wal)) contents\<rparr>)
      else None)"

definition xdevice_wal_create ::
  "wal_env \<Rightarrow> byte list option \<Rightarrow> string option \<Rightarrow> u64 \<Rightarrow> xdevice_wal option \<times> byte list option" where
  "xdevice_wal_create e disk wal_file initial_size =
     (case wal_file of
        None \<Rightarrow> (None, disk)
      | Some path \<Rightarrow>
          if initial_size = 0 then (None, disk)
          else if \<not> w_alloc e 0 then (None, disk)
          else if \<not> w_mutex_init e then (None, disk)
          else if \<not> w_cond_init e then (None, disk)
          else if \<not> w_alloc e 1 then (None, disk)
          else if \<not> w_open e then (None, disk)
          else
            (let contents = (case disk of None \<Rightarrow> [] | Some b \<Rightarrow> b);
                 wal = (wal_init_struct path initial_size)\<lparr>on_disk := contents\<rparr>
             in if w_fstat e \<and> contents = [] then
                  (if \<not> (w_ftruncate e \<and> unat initial_size < 2 ^ 63) then (None, Some contents)
                   else
                     (let sized = replicate (unat initial_size) 0;
                          header = create_wal_header e initial_size
                      in if \<not> w_write e then (None, Some sized)
                         else
                           (let written = wal_header_bytes header @ drop sizeof_wal_header sized
                            in (wal_map e (wal\<lparr>current_offset := of_nat sizeof_wal_header\<rparr>) written,
                                Some written))))
                else
                  (if \<not> (w_read e \<and> sizeof_wal_header \<le> length contents) then (None, Some contents)
                   else
                     (let header = wal_header_of (take sizeof_wal_header contents)
                      in if \<not> validate_wal_header header then (None, Some contents)
                         else
                           (wal_map e (wal\<lparr>file_size := h_file_size header,
                                           current_offset := of_nat sizeof_wal_header\<rparr>) contents,
                            Some contents)))))"

text \<open>\<open>strncpy(record_header.device_name, device_name, 127)\<close> into the uninitialised array: 127
  bytes are written, zero-padded; the last one keeps its value.\<close>

definition set_device_name :: "string \<Rightarrow> byte list \<Rightarrow> byte list" where
  "set_device_name name old =
     (let n = XDEVICE_MAX_DEVICE_NAME_LEN - 1
      in take n (string_bytes name @ replicate n 0) @ drop n old)"

text \<open>The record header that \<open>xdevice_wal_append\<close> builds for \<open>len\<close> bytes of \<open>data\<close>.\<close>

definition build_record ::
  "wal_env \<Rightarrow> u64 \<Rightarrow> string \<Rightarrow> xdevice_wal_op_type \<Rightarrow> byte list \<Rightarrow> u64 \<Rightarrow> wal_record_header" where
  "build_record e lsn name op data len =
     (let h = (stack_record e)\<lparr>r_lsn := lsn, r_length := ucast len, r_timestamp := w_time e,
                r_op_type := wal_op_code op,
                r_device_name := set_device_name name (r_device_name (stack_record e))\<rparr>;
          checksum = crc32 (take (sizeof_record_header - 4) (record_header_bytes h));
          checksum' = (if len > 0 then checksum XOR crc32 data else checksum)
      in h\<lparr>r_checksum := checksum'\<rparr>)"

definition xdevice_wal_append ::
  "wal_env \<Rightarrow> xdevice_wal option \<Rightarrow> string option \<Rightarrow> xdevice_wal_op_type \<Rightarrow> byte list option \<Rightarrow> u64
     \<Rightarrow> (xdevice_error \<times> xdevice_wal option) option" where
  "xdevice_wal_append e wal device_name op_type data len =
     (case (wal, device_name) of
        (Some w, Some name) \<Rightarrow>
          if data = None \<and> len > 0 then Some (XDEVICE_ERROR_INVALID_PARAM, wal)
          else do {
            src \<leftarrow> (case data of None \<Rightarrow> Some [] | Some d \<Rightarrow> mem_read d 0 (unat len));
            let header = build_record e (next_lsn w) name op_type src len;
            let w1 = w\<lparr>next_lsn := next_lsn w + 1\<rparr>;
            let total_record_size = of_nat sizeof_record_header + len;
            if current_offset w1 + total_record_size > file_size w1 then Some (XDEVICE_ERROR_IO, Some w1)
            else do {
              m1 \<leftarrow> mem_write (mmap_region w1) (unat (current_offset w1)) (record_header_bytes header);
              let off1 = current_offset w1 + of_nat sizeof_record_header;
              (m2, off2) \<leftarrow> (if len > 0 then do { m \<leftarrow> mem_write m1 (unat off1) src; Some (m, off1 + len) }
                             else Some (m1, off1));
              Some (XDEVICE_OK, Some (w1\<lparr>mmap_region := m2, current_offset := off2,
                      total_writes := total_writes w1 + 1,
                      total_bytes_written := total_bytes_written w1 + total_record_size\<rparr>))
            }
          }
      | _ \<Rightarrow> Some (XDEVICE_ERROR_INVALID_PARAM, wal))"

definition xdevice_wal_sync :: "wal_env \<Rightarrow> xdevice_wal option \<Rightarrow> xdevice_error \<times> xdevice_wal option" where
  "xdevice_wal_sync e wal =
     (case wal of
        None \<Rightarrow> (XDEVICE_ERROR_INVALID_PARAM, wal)
      | Some w \<Rightarrow>
          if \<not> w_msync e then (XDEVICE_ERROR_IO, Some (w\<lparr>is_syncing := False\<rparr>))
          else
            (let n = unat (current_offset w);
                 w1 = w\<lparr>on_disk := take n (mmap_region w) @ drop n (on_disk w)\<rparr>
             in if \<not> w_fsync e then (XDEVICE_ERROR_IO, Some (w1\<lparr>is_syncing := False\<rparr>))
                else (XDEVICE_OK, Some (w1\<lparr>last_sync_lsn := next_lsn w1 - 1,
                        total_syncs := total_syncs w1 + 1, is_syncing := False\<rparr>))))"

text \<open>\<open>xdevice_wal_destroy\<close> syncs and then releases the engine.  What remains is the file: the
  bytes the next process to open it sees, and the bytes known to be on the device.\<close>

definition xdevice_wal_destroy :: "wal_env \<Rightarrow> xdevice_wal option \<Rightarrow> (byte list \<times> byte list) option" where
  "xdevice_wal_destroy e wal =
     map_option (\<lambda>w. (mmap_region w, on_disk w)) (snd (xdevice_wal_sync e wal))"

record xdevice_wal_stats =
  ws_total_writes :: u64
  ws_total_syncs :: u64
  ws_total_bytes_written :: u64
  ws_current_lsn :: u64
  ws_last_sync_lsn :: u64
  ws_file_size :: u64
  ws_current_offset :: u64
  ws_is_syncing :: bool

definition xdevice_wal_get_stats ::
  "xdevice_wal option \<Rightarrow> xdevice_wal_stats option \<Rightarrow> xdevice_error \<times> xdevice_wal_stats option" where
  "xdevice_wal_get_stats wal stats =
     (case (wal, stats) of
        (Some w, Some _) \<Rightarrow>
          (XDEVICE_OK, Some \<lparr>ws_total_writes = total_writes w, ws_total_syncs = total_syncs w,
             ws_total_bytes_written = total_bytes_written w, ws_current_lsn = next_lsn w - 1,
             ws_last_sync_lsn = last_sync_lsn w, ws_file_size = file_size w,
             ws_current_offset = current_offset w, ws_is_syncing = is_syncing w\<rparr>)
      | _ \<Rightarrow> (XDEVICE_ERROR_INVALID_PARAM, stats))"

section \<open>Layout lemmas\<close>

definition wal_env_wf :: "wal_env \<Rightarrow> bool" where
  "wal_env_wf e \<longleftrightarrow> length (h_pad1 (stack_header e)) = 4 \<and> length (h_pad2 (stack_header e)) = 4 \<and>
     length (r_device_name (stack_record e)) = XDEVICE_MAX_DEVICE_NAME_LEN \<and>
     length (r_pad (stack_record e)) = 4"

definition header_wf :: "wal_header \<Rightarrow> bool" where
  "header_wf h \<longleftrightarrow> length (h_magic h) = 8 \<and> length (h_pad1 h) = 4 \<and> length (h_pad2 h) = 4"

definition record_wf :: "wal_record_header \<Rightarrow> bool" where
  "record_wf r \<longleftrightarrow> length (r_device_name r) = 128 \<and> length (r_pad r) = 4"

lemma length_string_bytes [simp]: "length (string_bytes s) = length s"
  by (simp add: string_bytes_def)

lemma length_WAL_MAGIC [simp]: "length WAL_MAGIC = 8"
  by (simp add: WAL_MAGIC_def)

lemma length_wal_header_bytes: "header_wf h \<Longrightarrow> length (wal_header_bytes h) = sizeof_wal_header"
  by (simp add: header_wf_def wal_header_bytes_def sizeof_wal_header_def)

lemma length_record_header_bytes: "record_wf r \<Longrightarrow> length (record_header_bytes r) = sizeof_record_header"
  by (simp add: record_wf_def record_header_bytes_def sizeof_record_header_def)

lemma take_append_exact: "length a = n \<Longrightarrow> take n (a @ b) = a"
  by simp

lemma drop_append_plus: "length a = k \<Longrightarrow> drop (k + n) (a @ b) = drop n b"
  by simp

lemma wal_header_of_bytes [layout_simps]:
  assumes "header_wf h"
  shows "wal_header_of (wal_header_bytes h) = h"
  using assms by (cases h) (simp add: header_wf_def wal_header_of_def wal_header_bytes_def)

lemma record_header_of_bytes [layout_simps]:
  assumes "record_wf r"
  shows "record_header_of (record_header_bytes r) = r"
  using assms by (cases r) (simp add: record_wf_def record_header_of_def record_header_bytes_def)

lemma length_set_device_name [simp]:
  "length old = 128 \<Longrightarrow> length (set_device_name name old) = 128"
  by (simp add: set_device_name_def Let_def XDEVICE_MAX_DEVICE_NAME_LEN_def)

lemma build_record_wf: "wal_env_wf e \<Longrightarrow> record_wf (build_record e lsn name op d len)"
  by (simp add: record_wf_def build_record_def Let_def wal_env_wf_def XDEVICE_MAX_DEVICE_NAME_LEN_def)

lemma build_record_fields [simp]:
  "r_lsn (build_record e lsn name op d len) = lsn"
  "r_length (build_record e lsn name op d len) = ucast len"
  "r_timestamp (build_record e lsn name op d len) = w_time e"
  "r_op_type (build_record e lsn name op d len) = wal_op_code op"
  by (simp_all add: build_record_def Let_def)

lemma create_wal_header_wf: "wal_env_wf e \<Longrightarrow> header_wf (create_wal_header e n)"
  by (simp add: header_wf_def create_wal_header_def Let_def wal_env_wf_def)

section \<open>The header checksum\<close>

text \<open>The checksum covers its own field: the first 36 bytes are 32 bytes of content and the four
  bytes of \<open>checksum\<close>.\<close>

definition header_prefix :: "wal_header \<Rightarrow> byte list" where
  "header_prefix h = h_magic h @ le_bytes 4 (h_version h) @ h_pad1 h @
     le_bytes 8 (h_created_time h) @ le_bytes 8 (h_file_size h)"

lemma header_checksummed_bytes:
  "header_wf h \<Longrightarrow> take (sizeof_wal_header - 4) (wal_header_bytes h) =
     header_prefix h @ le_bytes 4 (h_checksum h)"
  by (simp add: header_wf_def wal_header_bytes_def header_prefix_def sizeof_wal_header_def)

lemma header_prefix_checksum [simp]: "header_prefix (h\<lparr>h_checksum := c\<rparr>) = header_prefix h"
  by (simp add: header_prefix_def)

lemma crc32_tail_inject: "crc32 (xs @ le_bytes 4 (a :: u32)) = crc32 (xs @ le_bytes 4 b) \<longleftrightarrow> a = b"
  using crc32_burst [of "le_bytes 4 a" "le_bytes 4 b" xs "[]"] by (simp add: le_bytes_inject32)

lemma validate_created_header:
  assumes "wal_env_wf e"
  shows "validate_wal_header (create_wal_header e n) \<longleftrightarrow>
     h_checksum (create_wal_header e n) = h_checksum (stack_header e)"
proof -
  let ?h = "(stack_header e)\<lparr>h_magic := WAL_MAGIC, h_version := WAL_VERSION,
                h_created_time := w_time e, h_file_size := n\<rparr>"
  have wf: "header_wf ?h" using assms by (simp add: header_wf_def wal_env_wf_def)
  let ?c = "crc32 (header_prefix ?h @ le_bytes 4 (h_checksum (stack_header e)))"
  have created: "create_wal_header e n = ?h\<lparr>h_checksum := ?c\<rparr>"
    by (simp add: create_wal_header_def Let_def header_checksummed_bytes [OF wf])
  have wf': "header_wf (?h\<lparr>h_checksum := ?c\<rparr>)" using wf by (simp add: header_wf_def)
  have "validate_wal_header (create_wal_header e n) \<longleftrightarrow>
      crc32 (header_prefix ?h @ le_bytes 4 ?c) = ?c"
    unfolding created
    by (simp add: validate_wal_header_def header_checksummed_bytes [OF wf'] del: One_nat_def)
  also have "\<dots> \<longleftrightarrow> ?c = h_checksum (stack_header e)"
    by (rule crc32_tail_inject)
  finally show ?thesis by (simp add: created)
qed

section \<open>Scanning a log\<close>

text \<open>
  The reference reading of a log: records one after another, each a header and the number of bytes
  its length field announces.
\<close>

function wal_scan :: "byte list \<Rightarrow> (wal_record_header \<times> byte list) list option" where
  "wal_scan b =
     (if b = [] then Some []
      else if length b < sizeof_record_header then None
      else
        (let h = record_header_of (take sizeof_record_header b); n = unat (r_length h)
         in if length b < sizeof_record_header + n then None
            else map_option (Cons (h, take n (drop sizeof_record_header b)))
                   (wal_scan (drop (sizeof_record_header + n) b))))"
  by pat_completeness auto
termination
  by (relation "measure length") (auto simp: sizeof_record_header_def)

declare wal_scan.simps [simp del]

lemma wal_scan_Nil [simp]: "wal_scan [] = Some []"
  by (simp add: wal_scan.simps)

lemma wal_scan_record:
  assumes "record_wf r" and "unat (r_length r) = length d"
  shows "wal_scan (record_header_bytes r @ d @ rest) = map_option (Cons (r, d)) (wal_scan rest)"
proof -
  have len: "length (record_header_bytes r) = sizeof_record_header"
    by (rule length_record_header_bytes [OF assms(1)])
  then have "record_header_bytes r \<noteq> []" by (auto simp: sizeof_record_header_def)
  with len show ?thesis
    by (subst wal_scan.simps) (simp add: record_header_of_bytes [OF assms(1)] assms(2))
qed

lemma wal_scan_append:
  "wal_scan a = Some xs \<Longrightarrow> wal_scan (a @ b) = map_option (append xs) (wal_scan b)"
proof (induction a arbitrary: xs rule: wal_scan.induct)
  case (1 a)
  let ?s = sizeof_record_header
  show ?case
  proof (cases "a = []")
    case True
    with "1.prems" show ?thesis by (simp add: option.map_ident)
  next
    case False
    define h where "h = record_header_of (take ?s a)"
    define n where "n = unat (r_length h)"
    from False "1.prems" have len: "?s \<le> length a" "?s + n \<le> length a"
      and "map_option (Cons (h, take n (drop ?s a))) (wal_scan (drop (?s + n) a)) = Some xs"
      by (auto simp: wal_scan.simps [of a] Let_def h_def n_def split: if_splits)
    then obtain ys where ys: "wal_scan (drop (?s + n) a) = Some ys"
      and xs: "xs = (h, take n (drop ?s a)) # ys" by auto
    have IH: "wal_scan (drop (?s + n) a @ b) = map_option (append ys) (wal_scan b)"
      by (rule "1.IH" [OF False _ h_def n_def _ ys]) (use len in simp_all)
    have "wal_scan (a @ b) = map_option (Cons (h, take n (drop ?s a))) (wal_scan (drop (?s + n) a @ b))"
      using False len by (subst wal_scan.simps) (simp add: Let_def flip: h_def n_def)
    then show ?thesis by (simp add: IH xs option.map_comp comp_def)
  qed
qed

section \<open>The log of an engine\<close>

text \<open>The bytes of the records written so far, and the records.\<close>

definition wal_body :: "xdevice_wal \<Rightarrow> byte list" where
  "wal_body w = take (unat (current_offset w) - sizeof_wal_header) (drop sizeof_wal_header (mmap_region w))"

definition wal_log :: "xdevice_wal \<Rightarrow> (wal_record_header \<times> byte list) list" where
  "wal_log w = (case wal_scan (wal_body w) of None \<Rightarrow> [] | Some l \<Rightarrow> l)"

definition wal_lsns :: "xdevice_wal \<Rightarrow> u64 list" where
  "wal_lsns w = map (r_lsn \<circ> fst) (wal_log w)"

definition wal_inv :: "xdevice_wal \<Rightarrow> bool" where
  "wal_inv w \<longleftrightarrow>
     length (mmap_region w) = unat (file_size w) \<and> unat (file_size w) < 2 ^ 63 \<and>
     sizeof_wal_header \<le> unat (current_offset w) \<and>
     (unat (current_offset w) = sizeof_wal_header \<or> unat (current_offset w) \<le> unat (file_size w)) \<and>
     wal_scan (wal_body w) \<noteq> None"

lemma wal_inv_scan: "wal_inv w \<Longrightarrow> wal_scan (wal_body w) = Some (wal_log w)"
  by (auto simp: wal_inv_def wal_log_def)

lemma overlay_adjacent:
  assumes "off + length a + length b \<le> length m"
  shows "overlay (overlay m off a) (off + length a) b = overlay m off (a @ b)"
  using assms by (simp add: overlay_def ac_simps)

lemma take_drop_overlay_end:
  assumes "k \<le> off" and "off + length d \<le> length m"
  shows "take (off + length d - k) (drop k (overlay m off d)) = take (off - k) (drop k m) @ d"
proof -
  have "take (off + length d - k) (drop k (overlay m off d)) = drop k (take (off + length d) (overlay m off d))"
    by (simp add: drop_take)
  also have "\<dots> = drop k (take off m @ d)" using assms(2) by (simp only: take_overlay_upto)
  also have "\<dots> = take (off - k) (drop k m) @ d" using assms by (simp add: drop_take)
  finally show ?thesis .
qed

text \<open>One append, for the arguments the code accepts: a length below \<open>2 ^ 32\<close>, which is what the
  length field of a record can hold.\<close>

lemma wal_append_cases:
  fixes name :: string and op :: xdevice_wal_op_type
  assumes inv: "wal_inv w" and env: "wal_env_wf e" and len: "unat len < 2 ^ 32"
    and data: "case data of None \<Rightarrow> len = 0 | Some d \<Rightarrow> unat len \<le> length d"
  defines "src \<equiv> (case data of None \<Rightarrow> [] | Some d \<Rightarrow> take (unat len) d)"
  defines "r \<equiv> build_record e (next_lsn w) name op src len"
  shows "xdevice_wal_append e (Some w) (Some name) op data len =
     (if unat (current_offset w) + sizeof_record_header + unat len > unat (file_size w)
      then Some (XDEVICE_ERROR_IO, Some (w\<lparr>next_lsn := next_lsn w + 1\<rparr>))
      else Some (XDEVICE_OK, Some (w\<lparr>next_lsn := next_lsn w + 1,
        mmap_region := overlay (mmap_region w) (unat (current_offset w)) (record_header_bytes r @ src),
        current_offset := current_offset w + of_nat sizeof_record_header + len,
        total_writes := total_writes w + 1,
        total_bytes_written := total_bytes_written w + (of_nat sizeof_record_header + len)\<rparr>)))"
proof -
  let ?s = "of_nat sizeof_record_header :: u64" and ?off = "unat (current_offset w)"
  have s: "unat ?s = 160" by (simp add: sizeof_record_header_def)
  have cur: "?off < 2 ^ 63" using inv by (auto simp: wal_inv_def sizeof_wal_header_def)
  have len_src: "length src = unat len"
    using data by (auto simp: src_def split: option.splits)
  have src: "(case data of None \<Rightarrow> Some [] | Some d \<Rightarrow> mem_read d 0 (unat len)) = Some src"
    using data by (auto simp: src_def split: option.splits)
  have tot: "unat (?s + len) = 160 + unat len"
    using len s by (subst unat_add_no_wrap) simp_all
  have sum: "unat (current_offset w + (?s + len)) = ?off + 160 + unat len"
    using cur len tot by (subst unat_add_no_wrap) simp_all
  have off1: "unat (current_offset w + ?s) = ?off + 160"
    using cur s by (subst unat_add_no_wrap) simp_all
  have hdr: "length (record_header_bytes r) = 160"
    using length_record_header_bytes [OF build_record_wf [OF env]] by (simp add: r_def sizeof_record_header_def)
  have null: "\<not> (data = None \<and> len > 0)" using data by auto
  have full: "(current_offset w + (?s + len) > file_size w) \<longleftrightarrow> unat (file_size w) < ?off + 160 + unat len"
    by (simp only: word_less_nat_alt sum)
  show ?thesis
  proof (cases "unat (file_size w) < ?off + 160 + unat len")
    case True
    then show ?thesis
      using null src full by (simp add: xdevice_wal_append_def sizeof_record_header_def)
  next
    case False
    then have room: "?off + 160 + unat len \<le> length (mmap_region w)"
      using inv by (simp add: wal_inv_def)
    have w1: "mem_write (mmap_region w) ?off (record_header_bytes r) =
        Some (overlay (mmap_region w) ?off (record_header_bytes r))"
      using room hdr by simp
    have w2: "(if len > 0 then do { m \<leftarrow> mem_write (overlay (mmap_region w) ?off (record_header_bytes r))
          (unat (current_offset w + ?s)) src; Some (m, current_offset w + ?s + len) }
        else Some (overlay (mmap_region w) ?off (record_header_bytes r), current_offset w + ?s)) =
        Some (overlay (mmap_region w) ?off (record_header_bytes r @ src), current_offset w + ?s + len)"
    proof (cases "len > 0")
      case True
      then show ?thesis
        using room hdr off1 len_src overlay_adjacent [of ?off "record_header_bytes r" src "mmap_region w"]
        by simp
    next
      case False
      then have "len = 0" by (simp add: word_gt_0)
      moreover from this have "src = []" using len_src by simp
      ultimately show ?thesis by simp
    qed
    have nf: "\<not> file_size w < current_offset w + (?s + len)"
      and nf': "\<not> unat (file_size w) < ?off + sizeof_record_header + unat len"
      using False full by (simp_all add: sizeof_record_header_def)
    show ?thesis
      using null src nf nf' w1 w2
      by (simp add: xdevice_wal_append_def Let_def r_def [symmetric])
  qed
qed

lemma wal_append_ok_log:
  fixes name :: string and op :: xdevice_wal_op_type
  assumes inv: "wal_inv w" and env: "wal_env_wf e" and len: "unat len < 2 ^ 32" "length src = unat len"
    and room: "unat (current_offset w) + sizeof_record_header + unat len \<le> unat (file_size w)"
  defines "r \<equiv> build_record e (next_lsn w) name op src len"
  defines "w' \<equiv> w\<lparr>next_lsn := next_lsn w + 1,
        mmap_region := overlay (mmap_region w) (unat (current_offset w)) (record_header_bytes r @ src),
        current_offset := current_offset w + of_nat sizeof_record_header + len,
        total_writes := total_writes w + 1,
        total_bytes_written := total_bytes_written w + (of_nat sizeof_record_header + len)\<rparr>"
  shows "wal_inv w'" and "wal_log w' = wal_log w @ [(r, src)]"
proof -
  let ?off = "unat (current_offset w)" and ?d = "record_header_bytes r @ src"
  have r: "record_wf r" unfolding r_def by (rule build_record_wf [OF env])
  have dlen: "length ?d = 160 + unat len"
    using length_record_header_bytes [OF r] len(2) by (simp add: sizeof_record_header_def)
  have cur: "unat (current_offset w') = ?off + 160 + unat len"
    using room inv by (simp add: w'_def wal_inv_def sizeof_record_header_def unat_word_ariths)
  have in_region: "?off + length ?d \<le> length (mmap_region w)"
    using room inv dlen by (simp add: wal_inv_def sizeof_record_header_def)
  have hdr: "sizeof_wal_header \<le> ?off" using inv by (simp add: wal_inv_def)
  have body: "wal_body w' = wal_body w @ record_header_bytes r @ src"
    using take_drop_overlay_end [OF hdr in_region] cur dlen
    by (simp add: wal_body_def w'_def add.assoc)
  have "unat (r_length r) = length src"
    using len by (simp add: r_def unsigned_ucast_eq take_bit_nat_eq_self)
  then have "wal_scan (record_header_bytes r @ src) = Some [(r, src)]"
    using wal_scan_record [OF r, of src "[]"] by simp
  then have scan: "wal_scan (wal_body w') = Some (wal_log w @ [(r, src)])"
    unfolding body using wal_scan_append [OF wal_inv_scan [OF inv]] by simp
  then show "wal_log w' = wal_log w @ [(r, src)]" by (simp add: wal_log_def)
  show "wal_inv w'"
    using inv scan cur room in_region
    by (simp add: wal_inv_def w'_def sizeof_record_header_def sizeof_wal_header_def)
qed

lemma wal_lsn_only [simp]:
  "wal_inv (w\<lparr>next_lsn := n\<rparr>) = wal_inv w" "wal_log (w\<lparr>next_lsn := n\<rparr>) = wal_log w"
  by (simp_all add: wal_inv_def wal_log_def wal_body_def)

section \<open>The contract of an append-only log\<close>

text \<open>An append call: environment, device name, operation and data.\<close>

type_synonym wal_call = "wal_env \<times> string \<times> xdevice_wal_op_type \<times> byte list"

definition wal_app :: "xdevice_wal \<Rightarrow> wal_call \<Rightarrow> (xdevice_error \<times> xdevice_wal) option" where
  "wal_app w c = (case c of (e, name, op, d) \<Rightarrow> do {
     (ret, w') \<leftarrow> xdevice_wal_append e (Some w) (Some name) op (Some d) (of_nat (length d));
     v \<leftarrow> w';
     Some (ret, v) })"

definition wal_legal :: "wal_call \<Rightarrow> bool" where
  "wal_legal c = (case c of (e, name, op, d) \<Rightarrow> wal_env_wf e \<and> length d < 2 ^ 32)"

definition wal_entry :: "xdevice_wal \<Rightarrow> wal_call \<Rightarrow> wal_record_header \<times> byte list" where
  "wal_entry w c = (case c of (e, name, op, d) \<Rightarrow>
     (build_record e (next_lsn w) name op d (of_nat (length d)), d))"

lemma wal_app_cases:
  assumes "wal_inv w" and "wal_env_wf e" and "length d < 2 ^ 32"
  obtains (full) "wal_app w (e, name, op, d) = Some (XDEVICE_ERROR_IO, w\<lparr>next_lsn := next_lsn w + 1\<rparr>)"
      and "unat (current_offset w) + sizeof_record_header + length d > unat (file_size w)"
  | (ok) w' where "wal_app w (e, name, op, d) = Some (XDEVICE_OK, w')" and "wal_inv w'"
      and "wal_log w' = wal_log w @ [wal_entry w (e, name, op, d)]"
      and "next_lsn w' = next_lsn w + 1" and "last_sync_lsn w' = last_sync_lsn w"
      and "unat (current_offset w') = unat (current_offset w) + sizeof_record_header + length d"
proof -
  let ?len = "of_nat (length d) :: u64"
  have len: "unat ?len = length d" using assms(3) by (simp add: unat_of_nat)
  then have lt: "unat ?len < 2 ^ 32" using assms(3) by simp
  note run = wal_append_cases [OF assms(1,2) lt, where data = "Some d" and name = name and op = op]
  show thesis
  proof (cases "unat (current_offset w) + sizeof_record_header + length d > unat (file_size w)")
    case True
    with run len show thesis by (intro full) (simp_all add: wal_app_def)
  next
    case False
    with len have room: "unat (current_offset w) + sizeof_record_header + unat ?len \<le> unat (file_size w)"
      by simp
    note app = wal_append_ok_log [OF assms(1,2) lt len [symmetric] room, where name = name and op = op]
    have "unat (current_offset w + of_nat sizeof_record_header + ?len) =
        unat (current_offset w) + sizeof_record_header + length d"
      using room assms(1) len by (simp add: wal_inv_def sizeof_record_header_def unat_word_ariths)
    then show thesis
      using run False len app(2) by (intro ok [OF _ app(1)]) (simp_all add: wal_app_def wal_entry_def)
  qed
qed

interpretation wal_alog: append_log wal_inv wal_legal wal_log wal_app wal_entry
proof
  fix w c assume w: "wal_inv w" and c: "wal_legal c"
  obtain e name op d where ceq: "c = (e, name, op, d)" by (cases c)
  with c have env: "wal_env_wf e" "length d < 2 ^ 32" by (simp_all add: wal_legal_def)
  show "\<exists>ret s'. wal_app w c = Some (ret, s') \<and> wal_inv s'"
    unfolding ceq by (rule wal_app_cases [OF w env, of name op]) (use w in auto)
  fix w' assume "wal_app w c = Some (XDEVICE_OK, w')"
  then show "wal_log w' = wal_log w @ [wal_entry w c]"
    unfolding ceq by (rule_tac wal_app_cases [OF w env, of name op]) auto
next
  fix w c ret w' assume w: "wal_inv w" and c: "wal_legal c" and "wal_app w c = Some (ret, w')"
    and "ret \<noteq> XDEVICE_OK"
  obtain e name op d where ceq: "c = (e, name, op, d)" by (cases c)
  with c have env: "wal_env_wf e" "length d < 2 ^ 32" by (simp_all add: wal_legal_def)
  show "wal_log w' = wal_log w"
    by (rule wal_app_cases [OF w env, of name op])
       (use \<open>wal_app w c = Some (ret, w')\<close> \<open>ret \<noteq> XDEVICE_OK\<close> in \<open>auto simp: ceq\<close>)
qed

section \<open>Reachable engines\<close>

text \<open>An engine on a new file, used by appends of less than \<open>2 ^ 32\<close> bytes and syncs; fewer than \<open>2 ^ 64\<close>
  appends are made.  An engine on an existing file is not among them.\<close>

inductive wal_step :: "xdevice_wal \<Rightarrow> xdevice_wal \<Rightarrow> bool" where
  app: "wal_env_wf e \<Longrightarrow> length d < 2 ^ 32 \<Longrightarrow> next_lsn w \<noteq> 0xFFFFFFFFFFFFFFFF \<Longrightarrow>
    xdevice_wal_append e (Some w) (Some name) op (Some d) (of_nat (length d)) = Some (ret, Some w') \<Longrightarrow>
    wal_step w w'"
| sync: "xdevice_wal_sync e (Some w) = (ret, Some w') \<Longrightarrow> wal_step w w'"

inductive wal_reachable :: "xdevice_wal \<Rightarrow> bool" where
  create: "wal_env_wf e \<Longrightarrow> xdevice_wal_create e None (Some path) n = (Some w, f) \<Longrightarrow> wal_reachable w"
| step: "wal_reachable w \<Longrightarrow> wal_step w w' \<Longrightarrow> wal_reachable w'"

inductive_cases wal_stepE: "wal_step w w'"

text \<open>Sequence numbers: those in the log ascend, are positive and have all been handed out; the
  last synced one has been handed out too.\<close>

definition wal_seq_inv :: "xdevice_wal \<Rightarrow> bool" where
  "wal_seq_inv w \<longleftrightarrow> wal_inv w \<and> sorted_wrt (<) (wal_lsns w) \<and>
     (\<forall>l \<in> set (wal_lsns w). 0 < l \<and> l < next_lsn w) \<and> 0 < next_lsn w \<and> last_sync_lsn w < next_lsn w"

lemma less_next:
  fixes n :: u64
  assumes "n \<noteq> 0xFFFFFFFFFFFFFFFF"
  shows "n < n + 1" and "0 < n + 1" and "l < n \<Longrightarrow> l < n + 1"
proof -
  have "unat n \<noteq> 2 ^ 64 - 1"
    using assms by (auto dest: arg_cong [where f = "of_nat :: nat \<Rightarrow> u64"])
  then have "Suc (unat n) < 2 ^ LENGTH(64)" using unat_u64_bound [of n] by (simp del: unat_u64_bound)
  then have n: "unat (n + 1) = Suc (unat n)" by (rule unat_Suc_no_wrap)
  then show "n < n + 1" "0 < n + 1" "l < n \<Longrightarrow> l < n + 1" by (simp_all add: word_less_nat_alt)
qed

lemma wal_sync_frame:
  assumes "xdevice_wal_sync e (Some w) = (ret, Some w')"
  shows "mmap_region w' = mmap_region w" "current_offset w' = current_offset w"
    "file_size w' = file_size w" "next_lsn w' = next_lsn w"
    "last_sync_lsn w' = (if ret = XDEVICE_OK then next_lsn w - 1 else last_sync_lsn w)"
  using assms by (auto simp: xdevice_wal_sync_def Let_def split: if_splits)

lemma wal_frame_log:
  assumes "mmap_region w' = mmap_region w" "current_offset w' = current_offset w"
    "file_size w' = file_size w"
  shows "wal_inv w' = wal_inv w" and "wal_log w' = wal_log w" and "wal_lsns w' = wal_lsns w"
  using assms by (simp_all add: wal_inv_def wal_log_def wal_body_def wal_lsns_def)

lemma pred_less:
  fixes n :: u64
  assumes "0 < n"
  shows "n - 1 < n" and "l < n \<Longrightarrow> l \<le> n - 1"
  using assms by (simp_all add: word_less_nat_alt word_le_nat_alt unat_sub unat_gt_0 Suc_leI)

lemma wal_append_step_inv:
  assumes inv: "wal_seq_inv w" and env: "wal_env_wf e" and d: "length d < 2 ^ 32"
    and n: "next_lsn w \<noteq> 0xFFFFFFFFFFFFFFFF"
    and run: "xdevice_wal_append e (Some w) (Some name) op (Some d) (of_nat (length d)) = Some (ret, Some w')"
  shows "wal_seq_inv w'"
proof -
  have w: "wal_inv w" using inv by (simp add: wal_seq_inv_def)
  have app: "wal_app w (e, name, op, d) = Some (ret, w')" using run by (simp add: wal_app_def)
  note lt = less_next [OF n]
  show ?thesis
  proof (rule wal_app_cases [OF w env d, of name op])
    assume "wal_app w (e, name, op, d) = Some (XDEVICE_ERROR_IO, w\<lparr>next_lsn := next_lsn w + 1\<rparr>)"
    then have "w' = w\<lparr>next_lsn := next_lsn w + 1\<rparr>" using app by simp
    with inv lt show ?thesis by (auto simp: wal_seq_inv_def wal_lsns_def)
  next
    fix v assume v: "wal_app w (e, name, op, d) = Some (XDEVICE_OK, v)" "wal_inv v"
      "wal_log v = wal_log w @ [wal_entry w (e, name, op, d)]"
      "next_lsn v = next_lsn w + 1" "last_sync_lsn v = last_sync_lsn w"
    have "wal_lsns v = wal_lsns w @ [next_lsn w]"
      using v(3) by (simp add: wal_lsns_def wal_entry_def)
    with v inv lt have "wal_seq_inv v" by (auto simp: wal_seq_inv_def sorted_wrt_append)
    with v(1) app show ?thesis by simp
  qed
qed

lemma wal_create_inv:
  assumes "wal_env_wf e" and "xdevice_wal_create e None (Some path) n = (Some w, f)"
  shows "wal_seq_inv w"
proof -
  have len: "length (wal_header_bytes (create_wal_header e n)) = sizeof_wal_header"
    by (rule length_wal_header_bytes [OF create_wal_header_wf [OF assms(1)]])
  have w: "w = (wal_init_struct path n)\<lparr>current_offset := of_nat sizeof_wal_header,
      mmap_region := take (unat n) (wal_header_bytes (create_wal_header e n) @
        drop sizeof_wal_header (replicate (unat n) 0))\<rparr>" and n: "unat n < 2 ^ 63"
    using assms(2)
    by (auto simp: xdevice_wal_create_def wal_map_def wal_init_struct_def Let_def sizeof_wal_header_def
        split: if_splits)
  show ?thesis
    using n by (simp add: w wal_seq_inv_def wal_inv_def wal_init_struct_def wal_lsns_def wal_log_def
        wal_body_def len sizeof_wal_header_def)
qed

lemma wal_reachable_inv: "wal_reachable w \<Longrightarrow> wal_seq_inv w"
proof (induction rule: wal_reachable.induct)
  case (create e path n w f)
  then show ?case by (rule wal_create_inv)
next
  case (step w w')
  from step.hyps(2) show ?case
  proof cases
    case (app e d name op ret)
    with step.IH show ?thesis by (blast intro: wal_append_step_inv)
  next
    case s: (sync e ret)
    note frame = wal_sync_frame [OF s]
    from step.IH show ?thesis
      using wal_frame_log [OF frame(1-3)] frame(4,5) pred_less [of "next_lsn w"]
      by (auto simp: wal_seq_inv_def)
  qed
qed

section \<open>Properties\<close>

text \<open>An environment in which every call into the system succeeds.\<close>

definition wal_calls_ok :: "wal_env \<Rightarrow> bool" where
  "wal_calls_ok e \<longleftrightarrow> w_alloc e 0 \<and> w_alloc e 1 \<and> w_mutex_init e \<and> w_cond_init e \<and> w_open e \<and>
     w_fstat e \<and> w_ftruncate e \<and> w_write e \<and> w_read e \<and> w_mmap e \<and> w_msync e \<and> w_fsync e"

definition calm_wal_env :: wal_env where
  "calm_wal_env = \<lparr>w_time = 1700000000, w_alloc = (\<lambda>_. True), w_mutex_init = True, w_cond_init = True,
     w_open = True, w_fstat = True, w_ftruncate = True, w_write = True, w_read = True, w_mmap = True,
     w_msync = True, w_fsync = True,
     stack_header = \<lparr>h_magic = replicate 8 0, h_version = 0, h_pad1 = [1, 2, 3, 4],
       h_created_time = 0, h_file_size = 0, h_checksum = 77, h_pad2 = [5, 6, 7, 8]\<rparr>,
     stack_record = \<lparr>r_lsn = 0, r_length = 0, r_checksum = 99, r_timestamp = 0, r_op_type = 0,
       r_device_name = replicate 128 0, r_pad = [0, 0, 0, 0]\<rparr>\<rparr>"

lemma calm_wal_env_ok [simp]: "wal_calls_ok calm_wal_env" "wal_env_wf calm_wal_env"
  by (simp_all add: wal_calls_ok_def calm_wal_env_def wal_env_wf_def XDEVICE_MAX_DEVICE_NAME_LEN_def)

lemma xdevice_wal_create_new:
  assumes "wal_calls_ok e" and "n \<noteq> 0" and "unat n < 2 ^ 63"
  shows "xdevice_wal_create e None (Some path) n =
    (let written = wal_header_bytes (create_wal_header e n) @ drop sizeof_wal_header (replicate (unat n) 0)
     in (Some ((wal_init_struct path n)\<lparr>current_offset := of_nat sizeof_wal_header,
                mmap_region := take (unat n) written\<rparr>), Some written))"
  using assms by (simp add: xdevice_wal_create_def wal_calls_ok_def Let_def wal_map_def wal_init_struct_def)

definition fresh_wal :: xdevice_wal where
  "fresh_wal = the (fst (xdevice_wal_create calm_wal_env None (Some ''node.wal'') 1024))"

lemma fresh_wal_create:
  "\<exists>f. xdevice_wal_create calm_wal_env None (Some ''node.wal'') 1024 = (Some fresh_wal, f)"
  by (simp add: fresh_wal_def xdevice_wal_create_new Let_def)

lemma fresh_wal_reachable: "wal_reachable fresh_wal"
  using fresh_wal_create wal_reachable.create [OF calm_wal_env_ok(2)] by blast

lemma fresh_wal_fields [simp]:
  "file_size fresh_wal = 1024" "current_offset fresh_wal = 40" "next_lsn fresh_wal = 1"
  by (simp_all add: fresh_wal_def xdevice_wal_create_new Let_def wal_init_struct_def sizeof_wal_header_def)

text \<open>Property C4.  An append is never undefined.  It succeeds exactly when the header and the data
  fit in the rest of the file, and then the log, read back from the mapping, has grown by exactly the
  new record; otherwise it reports an I/O error and changes nothing but the sequence number, which is
  consumed in both cases.\<close>

theorem wal_append_refines:
  assumes "wal_inv w" and "wal_env_wf e" and "length d < 2 ^ 32"
  shows "\<exists>ret w'. xdevice_wal_append e (Some w) (Some name) op (Some d) (of_nat (length d)) =
      Some (ret, Some w') \<and> wal_inv w' \<and> next_lsn w' = next_lsn w + 1 \<and>
      (if unat (current_offset w) + sizeof_record_header + length d \<le> unat (file_size w)
       then ret = XDEVICE_OK \<and> wal_log w' =
         wal_log w @ [(build_record e (next_lsn w) name op d (of_nat (length d)), d)]
       else ret = XDEVICE_ERROR_IO \<and> w' = w\<lparr>next_lsn := next_lsn w + 1\<rparr>)"
proof -
  let ?len = "of_nat (length d) :: u64"
  have len: "unat ?len = length d" using assms(3) by (simp add: unat_of_nat)
  then have lt: "unat ?len < 2 ^ 32" using assms(3) by simp
  note run = wal_append_cases [OF assms(1,2) lt, where data = "Some d" and name = name and op = op]
  show ?thesis
  proof (cases "unat (current_offset w) + sizeof_record_header + length d \<le> unat (file_size w)")
    case True
    then have room: "unat (current_offset w) + sizeof_record_header + unat ?len \<le> unat (file_size w)"
      by (simp add: len)
    note app = wal_append_ok_log [OF assms(1,2) lt len [symmetric] room, where name = name and op = op]
    from run True len app show ?thesis by simp
  next
    case False
    with run len assms(1) show ?thesis by simp
  qed
qed

theorem wal_append_refines_witness:
  "\<exists>ret w'. xdevice_wal_append calm_wal_env (Some fresh_wal) (Some ''disk0'') XDEVICE_WAL_WRITE
        (Some [1, 2, 3]) (of_nat (length [1, 2, 3 :: byte])) = Some (ret, Some w') \<and>
      wal_inv w' \<and> next_lsn w' = next_lsn fresh_wal + 1 \<and>
      (if unat (current_offset fresh_wal) + sizeof_record_header + length [1, 2, 3 :: byte] \<le>
          unat (file_size fresh_wal)
       then ret = XDEVICE_OK \<and> wal_log w' = wal_log fresh_wal @
         [(build_record calm_wal_env (next_lsn fresh_wal) ''disk0'' XDEVICE_WAL_WRITE [1, 2, 3]
             (of_nat (length [1, 2, 3 :: byte])), [1, 2, 3])]
       else ret = XDEVICE_ERROR_IO \<and> w' = fresh_wal\<lparr>next_lsn := next_lsn fresh_wal + 1\<rparr>)"
  by (rule wal_append_refines)
     (use wal_reachable_inv [OF fresh_wal_reachable] in \<open>simp_all add: wal_seq_inv_def\<close>)

text \<open>Property C11.  In every state that an engine can reach from a new log file, the sequence numbers of the records in the
  log are positive, strictly ascending and below the next one to be handed out, and so is the last
  synced one.\<close>

theorem wal_lsns_ascend:
  assumes "wal_reachable w"
  shows "sorted_wrt (<) (wal_lsns w) \<and> list_all (\<lambda>l. 0 < l \<and> l < next_lsn w) (wal_lsns w) \<and>
    last_sync_lsn w < next_lsn w"
  using wal_reachable_inv [OF assms] by (simp add: wal_seq_inv_def list_all_iff)

theorem wal_lsns_ascend_witness:
  "sorted_wrt (<) (wal_lsns fresh_wal) \<and>
   list_all (\<lambda>l. 0 < l \<and> l < next_lsn fresh_wal) (wal_lsns fresh_wal) \<and>
   last_sync_lsn fresh_wal < next_lsn fresh_wal"
  by (rule wal_lsns_ascend) (rule fresh_wal_reachable)

text \<open>Fact.  After a successful sync the device holds the whole log, and the sequence number
  the engine reports as synced is at least that of every record in it.\<close>

theorem wal_sync_durable:
  assumes "wal_reachable w" and "xdevice_wal_sync e (Some w) = (XDEVICE_OK, Some w')"
  shows "wal_scan (drop sizeof_wal_header (take (unat (current_offset w')) (on_disk w'))) =
      Some (wal_log w') \<and> list_all (\<lambda>l. l \<le> last_sync_lsn w') (wal_lsns w')"
proof -
  have inv: "wal_seq_inv w" by (rule wal_reachable_inv [OF assms(1)])
  note frame = wal_sync_frame [OF assms(2)]
  have disk: "on_disk w' = take (unat (current_offset w)) (mmap_region w) @
      drop (unat (current_offset w)) (on_disk w)"
    using assms(2) by (auto simp: xdevice_wal_sync_def Let_def split: if_splits)
  have "drop sizeof_wal_header (take (unat (current_offset w)) (on_disk w')) = wal_body w"
  proof (cases "unat (current_offset w) \<le> length (mmap_region w)")
    case True
    then show ?thesis by (simp add: disk wal_body_def drop_take)
  next
    case False
    then have "unat (current_offset w) = sizeof_wal_header"
      using inv by (auto simp: wal_seq_inv_def wal_inv_def)
    then show ?thesis by (simp add: wal_body_def)
  qed
  moreover have "wal_scan (wal_body w) = Some (wal_log w)"
    using inv by (intro wal_inv_scan) (simp add: wal_seq_inv_def)
  moreover have "\<forall>l \<in> set (wal_lsns w). l \<le> next_lsn w - 1"
    using inv pred_less(2) by (auto simp: wal_seq_inv_def)
  ultimately show ?thesis
    using wal_frame_log [OF frame(1-3)] frame(2,5) by (simp add: list_all_iff)
qed

theorem wal_sync_durable_witness:
  "\<exists>w'. xdevice_wal_sync calm_wal_env (Some fresh_wal) = (XDEVICE_OK, Some w') \<and>
     wal_scan (drop sizeof_wal_header (take (unat (current_offset w')) (on_disk w'))) =
       Some (wal_log w') \<and> list_all (\<lambda>l. l \<le> last_sync_lsn w') (wal_lsns w')"
proof -
  obtain w' where s: "xdevice_wal_sync calm_wal_env (Some fresh_wal) = (XDEVICE_OK, Some w')"
    by (auto simp: xdevice_wal_sync_def calm_wal_env_def Let_def)
  with wal_sync_durable [OF fresh_wal_reachable s] show ?thesis by blast
qed

text \<open>Fact.  A run of appends, whatever their results, is defined, keeps every record that was
  in the log and adds exactly one record for each call that reported success.\<close>

theorem wal_appends_extend:
  assumes "wal_inv w" and "list_all wal_legal calls"
  shows "\<exists>rets w' added. wal_alog.run_appends calls w = Some (rets, w') \<and> wal_inv w' \<and>
    wal_log w' = wal_log w @ added \<and> length rets = length calls \<and>
    length added = length (filter (\<lambda>r. r = XDEVICE_OK) rets)"
  using wal_alog.run_appends_spec [OF assms] .

theorem wal_appends_extend_witness:
  "let calls = [(calm_wal_env, ''a'', XDEVICE_WAL_WRITE, [1, 2]), (calm_wal_env, ''b'', XDEVICE_WAL_SYNC, [])]
   in \<exists>rets w' added. wal_alog.run_appends calls fresh_wal = Some (rets, w') \<and> wal_inv w' \<and>
      wal_log w' = wal_log fresh_wal @ added \<and> length rets = length calls \<and>
      length added = length (filter (\<lambda>r. r = XDEVICE_OK) rets)"
  unfolding Let_def
  by (rule wal_appends_extend)
     (use wal_reachable_inv [OF fresh_wal_reachable] in \<open>simp_all add: wal_seq_inv_def wal_legal_def\<close>)

text \<open>Property C39.  Reopening a log file that this engine created: the file is accepted exactly when
  the checksum stored in its header happens to equal the indeterminate value that the checksum field
  had on the stack when the header was built, because the checksum covers its own field.\<close>

theorem wal_reopen_iff:
  assumes "wal_env_wf e" and "n \<noteq> 0" and "wal_calls_ok e'" and "m \<noteq> 0"
    and "take sizeof_wal_header f = wal_header_bytes (create_wal_header e n)"
  shows "fst (xdevice_wal_create e' (Some f) (Some path) m) \<noteq> None \<longleftrightarrow>
    h_checksum (create_wal_header e n) = h_checksum (stack_header e)"
proof -
  have wf: "header_wf (create_wal_header e n)" by (rule create_wal_header_wf [OF assms(1)])
  have "length (take sizeof_wal_header f) = sizeof_wal_header"
    using length_wal_header_bytes [OF wf] assms(5) by simp
  then have "sizeof_wal_header \<le> length f" "f \<noteq> []" by (auto simp: sizeof_wal_header_def)
  moreover have "wal_header_of (take sizeof_wal_header f) = create_wal_header e n"
    by (simp add: assms(5) wal_header_of_bytes [OF wf])
  moreover have "h_file_size (create_wal_header e n) = n" by (simp add: create_wal_header_def Let_def)
  ultimately show ?thesis
    using assms(2-4) validate_created_header [OF assms(1), of n]
    by (simp add: xdevice_wal_create_def wal_calls_ok_def Let_def wal_map_def)
qed

theorem wal_reopen_iff_witness:
  "fst (xdevice_wal_create calm_wal_env
      (Some (wal_header_bytes (create_wal_header calm_wal_env 1024) @ replicate 984 0)) (Some ''node.wal'') 1024)
    \<noteq> None \<longleftrightarrow>
   h_checksum (create_wal_header calm_wal_env 1024) = h_checksum (stack_header calm_wal_env)"
proof (rule wal_reopen_iff)
  show "take sizeof_wal_header (wal_header_bytes (create_wal_header calm_wal_env 1024) @ replicate 984 0) =
      wal_header_bytes (create_wal_header calm_wal_env 1024)"
    using length_wal_header_bytes [OF create_wal_header_wf [OF calm_wal_env_ok(2)]] by simp
qed simp_all

text \<open>Fact.  The checksum stored in a record is not a function of the record: two runs that
  differ only in the indeterminate bytes of the checksum field store different checksums, so that no
  reader can recompute it.\<close>

theorem wal_record_checksum_indeterminate:
  assumes "wal_env_wf e" and "c \<noteq> r_checksum (stack_record e)"
  shows "r_checksum (build_record (e\<lparr>stack_record := (stack_record e)\<lparr>r_checksum := c\<rparr>\<rparr>) lsn name op d len) \<noteq>
    r_checksum (build_record e lsn name op d len)"
proof -
  let ?n = "set_device_name name (r_device_name (stack_record e))"
  let ?a = "le_bytes 8 lsn @ le_bytes 4 (ucast len :: u32)"
  let ?b = "le_bytes 8 (w_time e) @ le_bytes 4 (wal_op_code op) @ ?n"
  have len: "length ?n = 128"
    using assms(1) by (simp add: wal_env_wf_def XDEVICE_MAX_DEVICE_NAME_LEN_def)
  have "crc32 (?a @ le_bytes 4 c @ ?b) \<noteq> crc32 (?a @ le_bytes 4 (r_checksum (stack_record e)) @ ?b)"
    using assms(2) by (subst crc32_burst) (simp_all add: le_bytes_inject32)
  then show ?thesis
    using len by (simp add: build_record_def Let_def record_header_bytes_def sizeof_record_header_def
        xor_right_cancel)
qed

theorem wal_record_checksum_indeterminate_witness:
  "r_checksum (build_record (calm_wal_env\<lparr>stack_record := (stack_record calm_wal_env)\<lparr>r_checksum := 1\<rparr>\<rparr>)
      1 ''d'' XDEVICE_WAL_WRITE [7] 1) \<noteq>
   r_checksum (build_record calm_wal_env 1 ''d'' XDEVICE_WAL_WRITE [7] 1)"
  by (rule wal_record_checksum_indeterminate) (simp, simp add: calm_wal_env_def)

text \<open>Fact.  An engine that opens an existing log starts it over: whatever records the file
  holds, the write position is behind the file header, the log is empty and the sequence numbers
  start at one again.  The existing bytes are still in the file, to be overwritten by the first
  appends.\<close>

theorem wal_reopen_forgets:
  assumes "f \<noteq> []" and "xdevice_wal_create e (Some f) (Some path) m = (Some w, g)"
  shows "g = Some f \<and> unat (current_offset w) = sizeof_wal_header \<and> next_lsn w = 1 \<and> wal_log w = []"
  using assms
  by (auto simp: xdevice_wal_create_def wal_map_def wal_init_struct_def Let_def sizeof_wal_header_def
      wal_log_def wal_body_def split: if_splits)

definition sample_header :: wal_header where
  "sample_header = \<lparr>h_magic = WAL_MAGIC, h_version = 1, h_pad1 = [0, 0, 0, 0],
     h_created_time = 1700000000, h_file_size = 200, h_checksum = 2678400997, h_pad2 = [0, 0, 0, 0]\<rparr>"

lemma le_bytes_4: "le_bytes 4 w = [ucast w, ucast (drop_bit 8 w), ucast (drop_bit 16 w), ucast (drop_bit 24 w)]"
  by (simp add: le_bytes_def upt_rec)

lemma le_bytes_8: "le_bytes 8 w = [ucast w, ucast (drop_bit 8 w), ucast (drop_bit 16 w), ucast (drop_bit 24 w),
   ucast (drop_bit 32 w), ucast (drop_bit 40 w), ucast (drop_bit 48 w), ucast (drop_bit 56 w)]"
  by (simp add: le_bytes_def upt_rec)

lemma funpow_8: "(f ^^ 8) x = f (f (f (f (f (f (f (f x)))))))"
  by (simp add: eval_nat_numeral)

lemma sample_header_checksummed:
  "take (sizeof_wal_header - 4) (wal_header_bytes sample_header) =
     [0x58, 0x44, 0x45, 0x56, 0x5f, 0x57, 0x41, 0x4c, 1, 0, 0, 0, 0, 0, 0, 0, 0, 0xf1, 0x53, 0x65, 0, 0, 0, 0,
      200, 0, 0, 0, 0, 0, 0, 0, 0xe5, 0x27, 0xa5, 0x9f]"
  by (simp add: sizeof_wal_header_def wal_header_bytes_def sample_header_def WAL_MAGIC_def
      string_bytes_def le_bytes_4 le_bytes_8)

lemma sample_header_valid: "validate_wal_header sample_header"
proof -
  have "crc32 (take (sizeof_wal_header - 4) (wal_header_bytes sample_header)) = 2678400997"
    unfolding sample_header_checksummed
    by (simp add: crc32_def crc_update_eq_ref crc_update_ref_def crc_bit_step_def funpow_8)
  then show ?thesis by (simp add: validate_wal_header_def sample_header_def WAL_VERSION_def)
qed

theorem wal_reopen_forgets_witness:
  "let f = wal_header_bytes sample_header @ replicate 160 7
   in \<exists>w. xdevice_wal_create calm_wal_env (Some f) (Some ''node.wal'') 4096 = (Some w, Some f) \<and>
      unat (current_offset w) = sizeof_wal_header \<and> next_lsn w = 1 \<and> wal_log w = []"
proof -
  let ?f = "wal_header_bytes sample_header @ replicate 160 7"
  have wf: "header_wf sample_header" by (simp add: header_wf_def sample_header_def)
  have f: "take sizeof_wal_header ?f = wal_header_bytes sample_header" "length ?f = 200" "?f \<noteq> []"
    using length_wal_header_bytes [OF wf] by (auto simp: sizeof_wal_header_def)
  then obtain w where "xdevice_wal_create calm_wal_env (Some ?f) (Some ''node.wal'') 4096 = (Some w, Some ?f)"
    using sample_header_valid wal_header_of_bytes [OF wf] calm_wal_env_ok(1)
    by (auto simp: xdevice_wal_create_def wal_map_def wal_calls_ok_def Let_def sizeof_wal_header_def
        sample_header_def)
  with wal_reopen_forgets [OF f(3) this] show ?thesis by (auto simp: Let_def)
qed

end
