(* ===== verification/XD_WalCrash.thy ===== *)
theory XD_WalCrash
  imports XD_Wal
begin

text \<open>
  What a crash leaves of a write-ahead log.  Between two syncs the operating system may write back any
  part of the mapping, or none of it; the theory shows that the records up to the last synced sequence
  number survive every such choice.
\<close>

section \<open>Crashes\<close>

text \<open>A possible content of the device after a crash: a byte that a sync has written there has that
  value or the one of the mapping; of the other bytes nothing is known.\<close>

definition crash_image :: "xdevice_wal \<Rightarrow> byte list \<Rightarrow> bool" where
  "crash_image w img \<longleftrightarrow> length (on_disk w) \<le> length img \<and>
     (\<forall>i < length (on_disk w). img ! i = on_disk w ! i \<or> img ! i = mmap_region w ! i)"

text \<open>The device holds the front of the mapping, and in it every record up to the last synced one.\<close>

definition synced_front :: "xdevice_wal \<Rightarrow> bool" where
  "synced_front w \<longleftrightarrow> length (on_disk w) \<le> unat (current_offset w) \<and>
     length (on_disk w) \<le> length (mmap_region w) \<and>
     on_disk w = take (length (on_disk w)) (mmap_region w) \<and>
     (\<exists>l rest. wal_scan (drop sizeof_wal_header (on_disk w)) = Some l \<and> wal_log w = l @ rest \<and>
        list_all (\<lambda>r. last_sync_lsn w < r_lsn (fst r)) rest)"

lemma crash_image_front:
  assumes "synced_front w" and "crash_image w img"
  shows "take (length (on_disk w)) img = on_disk w"
proof (rule nth_equalityI)
  fix i assume "i < length (take (length (on_disk w)) img)"
  then have i: "i < length (on_disk w)" by simp
  have "on_disk w ! i = take (length (on_disk w)) (mmap_region w) ! i"
    using assms(1) unfolding synced_front_def by metis
  with i assms(2) show "take (length (on_disk w)) img ! i = on_disk w ! i" by (auto simp: crash_image_def)
qed (use assms(2) in \<open>simp add: crash_image_def\<close>)

text \<open>An append writes behind the synced part.\<close>

lemma wal_app_frame:
  assumes "wal_inv w" and "wal_env_wf e" and "length d < 2 ^ 32" and "wal_app w (e, name, op, d) = Some (ret, w')"
  shows "on_disk w' = on_disk w" and "length (mmap_region w') = length (mmap_region w)"
    and "take (unat (current_offset w)) (mmap_region w') = take (unat (current_offset w)) (mmap_region w)"
    and "last_sync_lsn w' = last_sync_lsn w" and "unat (current_offset w) \<le> unat (current_offset w')"
proof -
  let ?len = "of_nat (length d) :: u64"
  have len: "unat ?len = length d" using assms(3) by (simp add: unat_of_nat)
  then have lt: "unat ?len < 2 ^ 32" using assms(3) by simp
  note run = wal_append_cases [OF assms(1,2) lt, where data = "Some d" and name = name and op = op]
  have hdr: "length (record_header_bytes (build_record e (next_lsn w) name op d ?len)) = sizeof_record_header"
    by (rule length_record_header_bytes [OF build_record_wf [OF assms(2)]])
  have size: "length (mmap_region w) = unat (file_size w)" using assms(1) by (simp add: wal_inv_def)
  show "on_disk w' = on_disk w" "last_sync_lsn w' = last_sync_lsn w"
    using run len assms(4) by (auto simp: wal_app_def split: if_splits)
  show "length (mmap_region w') = length (mmap_region w)"
      "take (unat (current_offset w)) (mmap_region w') = take (unat (current_offset w)) (mmap_region w)"
    using run len assms(4) hdr size by (auto simp: wal_app_def split: if_splits)
  show "unat (current_offset w) \<le> unat (current_offset w')"
    by (rule wal_app_cases [OF assms(1-3), of name op]) (use assms(4) in auto)
qed

lemma synced_front_append:
  assumes inv: "wal_seq_inv w" and front: "synced_front w" and env: "wal_env_wf e" and d: "length d < 2 ^ 32"
    and app: "wal_app w (e, name, op, d) = Some (ret, w')"
  shows "synced_front w'"
proof -
  have w: "wal_inv w" using inv by (simp add: wal_seq_inv_def)
  note frame = wal_app_frame [OF w env d app]
  have n: "length (on_disk w) \<le> unat (current_offset w)" using front by (simp add: synced_front_def)
  then have "take (length (on_disk w)) (mmap_region w') = take (length (on_disk w)) (mmap_region w)"
    using arg_cong [OF frame(3), of "take (length (on_disk w))"] by (simp add: min_def)
  moreover have "wal_log w' = wal_log w \<or> wal_log w' = wal_log w @ [wal_entry w (e, name, op, d)]"
    by (rule wal_app_cases [OF w env d, of name op]) (use app in auto)
  moreover have "last_sync_lsn w < r_lsn (fst (wal_entry w (e, name, op, d)))"
    using inv by (simp add: wal_seq_inv_def wal_entry_def)
  ultimately show ?thesis
    using front frame(1,2,4,5) n unfolding synced_front_def by fastforce
qed

lemma synced_front_sync:
  assumes inv: "wal_seq_inv w" and front: "synced_front w" and run: "xdevice_wal_sync e (Some w) = (ret, Some w')"
  shows "synced_front w'"
proof (cases "w_msync e")
  case False
  then have "w' = w\<lparr>is_syncing := False\<rparr>" using run by (simp add: xdevice_wal_sync_def)
  with front show ?thesis by (simp add: synced_front_def wal_log_def wal_body_def)
next
  case True
  note frame = wal_sync_frame [OF run]
  have disk: "on_disk w' = take (unat (current_offset w)) (mmap_region w)"
    using True run front by (auto simp: xdevice_wal_sync_def Let_def synced_front_def split: if_splits)
  have "wal_scan (drop sizeof_wal_header (on_disk w')) = Some (wal_log w)"
    using wal_inv_scan [of w] inv by (simp add: disk wal_seq_inv_def wal_body_def drop_take)
  then show ?thesis
    using frame wal_frame_log(2) [OF frame(1-3)] by (simp add: synced_front_def disk min_def)
qed

lemma reachable_synced_front: "wal_reachable w \<Longrightarrow> synced_front w"
proof (induction rule: wal_reachable.induct)
  case (create e path n w f)
  then have "on_disk w = []" "wal_log w = []"
    by (auto simp: xdevice_wal_create_def wal_map_def wal_init_struct_def Let_def wal_log_def wal_body_def
        sizeof_wal_header_def split: if_splits)
  then show ?case by (simp add: synced_front_def)
next
  case (step w w')
  note inv = wal_reachable_inv [OF step.hyps(1)]
  from step.hyps(2) show ?case
  proof cases
    case (app e d name op ret)
    have "wal_app w (e, name, op, d) = Some (ret, w')" using app(4) by (simp add: wal_app_def)
    with synced_front_append [OF inv step.IH app(1,2)] show ?thesis by simp
  next
    case (sync e ret)
    with synced_front_sync [OF inv step.IH] show ?thesis by simp
  qed
qed

section \<open>The property\<close>

text \<open>Property C12.  Crash safety: in every state reachable from a new log file, whatever the operating system had written back
  when the machine stopped, a scan of the front of the file returns records of the log in their order, and
  what it misses are only records with numbers above the last synced one.\<close>

theorem wal_crash_safe:
  assumes "wal_reachable w" and "crash_image w img"
  shows "\<exists>k l rest. wal_scan (take k (drop sizeof_wal_header img)) = Some l \<and> wal_log w = l @ rest \<and>
    list_all (\<lambda>r. last_sync_lsn w < r_lsn (fst r)) rest"
proof -
  have front: "synced_front w" by (rule reachable_synced_front [OF assms(1)])
  have "take (length (on_disk w) - sizeof_wal_header) (drop sizeof_wal_header img) =
      drop sizeof_wal_header (on_disk w)"
    using crash_image_front [OF front assms(2)] by (metis drop_take)
  with front show ?thesis unfolding synced_front_def by metis
qed

text \<open>A log with one record that is synced and one that is not; the crash left junk behind the first.\<close>

lemma one_synced:
  obtains w where "wal_reachable w" "last_sync_lsn w = 1" "wal_lsns w = [1, 2]"
    "length (on_disk w) = 203" "unat (current_offset w) = 364"
proof -
  have inv: "wal_inv fresh_wal" using wal_reachable_inv [OF fresh_wal_reachable] by (simp add: wal_seq_inv_def)
  have log: "wal_log fresh_wal = []" by (simp add: wal_log_def wal_body_def sizeof_wal_header_def)
  let ?c = "calm_wal_env"
  obtain w1 where w1: "wal_app fresh_wal (?c, ''a'', XDEVICE_WAL_WRITE, [1, 2, 3]) = Some (XDEVICE_OK, w1)" "wal_inv w1"
      "wal_log w1 = [wal_entry fresh_wal (?c, ''a'', XDEVICE_WAL_WRITE, [1, 2, 3])]" "next_lsn w1 = 2"
      "unat (current_offset w1) = 203"
    by (rule wal_app_cases [OF inv calm_wal_env_ok(2), of "[1, 2, 3]" "''a''" XDEVICE_WAL_WRITE])
       (use log in \<open>auto simp: sizeof_record_header_def\<close>)
  have r1: "wal_reachable w1"
    using w1(1) by (auto simp: wal_app_def bind_eq_Some_conv
        intro!: wal_reachable.step [OF fresh_wal_reachable] wal_step.app [OF calm_wal_env_ok(2), of "[1, 2, 3]"])
  obtain w2 where s: "xdevice_wal_sync ?c (Some w1) = (XDEVICE_OK, Some w2)"
    and disk: "on_disk w2 = take 203 (mmap_region w1) @ drop 203 (on_disk w1)"
    using w1(5) by (auto simp: xdevice_wal_sync_def calm_wal_env_def Let_def)
  note frame = wal_sync_frame [OF s]
  have r2: "wal_reachable w2" by (rule wal_reachable.step [OF r1 wal_step.sync [OF s]])
  have inv2: "wal_inv w2" and log2: "wal_log w2 = wal_log w1" using w1(2) wal_frame_log [OF frame(1-3)] by simp_all
  have "file_size w1 = 1024"
    using wal_append_cases [OF inv calm_wal_env_ok(2), of 3 "Some [1, 2, 3]" "''a''" XDEVICE_WAL_WRITE] w1(1)
    by (auto simp: wal_app_def sizeof_record_header_def)
  then have fs: "file_size w2 = 1024" using frame by simp
  obtain w3 where w3: "wal_app w2 (?c, ''a'', XDEVICE_WAL_SYNC, [9]) = Some (XDEVICE_OK, w3)"
      "wal_log w3 = wal_log w2 @ [wal_entry w2 (?c, ''a'', XDEVICE_WAL_SYNC, [9])]"
      "last_sync_lsn w3 = last_sync_lsn w2" "unat (current_offset w3) = 364"
    by (rule wal_app_cases [OF inv2 calm_wal_env_ok(2), of "[9]" "''a''" XDEVICE_WAL_SYNC])
       (use fs w1(5) frame(2) in \<open>auto simp: sizeof_record_header_def\<close>)
  have r3: "wal_reachable w3"
    using w3(1) frame(4) w1(4) by (auto simp: wal_app_def bind_eq_Some_conv
        intro!: wal_reachable.step [OF r2] wal_step.app [OF calm_wal_env_ok(2), of "[9]"])
  have "length (on_disk w2) = 203"
    using disk reachable_synced_front [OF r1] w1(2,5) fs frame(1,3)
    by (simp add: synced_front_def wal_inv_def)
  then have "length (on_disk w3) = 203" using wal_app_frame(1) [OF inv2 calm_wal_env_ok(2) _ w3(1)] by simp
  moreover have "wal_lsns w3 = [1, 2]"
    using w3(2) log2 w1(3,4) frame(4) by (simp add: wal_lsns_def wal_entry_def)
  ultimately show thesis using r3 w3 frame(5) w1(4) by (intro that [of w3]) simp_all
qed

theorem wal_crash_safe_witness:
  "\<exists>w k l rest. wal_lsns w = [1, 2] \<and> last_sync_lsn w = 1 \<and>
     wal_scan (take k (drop sizeof_wal_header (on_disk w @ [205, 205]))) = Some l \<and> wal_log w = l @ rest \<and>
     list_all (\<lambda>r. last_sync_lsn w < r_lsn (fst r)) rest"
proof -
  obtain w where w: "wal_reachable w" "last_sync_lsn w = 1" "wal_lsns w = [1, 2]" by (rule one_synced)
  have "crash_image w (on_disk w @ [205, 205])" by (simp add: crash_image_def nth_append)
  from wal_crash_safe [OF w(1) this] w(2,3) show ?thesis by blast
qed

end
