(* ===== verification/XD_Vfs.thy ===== *)
theory XD_Vfs
  imports XD_Iface
begin

text \<open>
  The POSIX file-system calls that \<open>src/storage/local_storage.c\<close> makes (\<open>mkdir\<close>, \<open>open\<close>, \<open>lseek\<close>,
  \<open>read\<close>, \<open>write\<close>, \<open>close\<close>, \<open>ftruncate\<close>, \<open>unlink\<close>, \<open>stat\<close>), over an explicit state of names,
  directories, inodes and open files.  The flag \<open>ok\<close> of a call is false when it fails for a reason that
  this state does not show (permissions, full tables, a device error).  A path is taken literally: names
  with repeated slashes, \<open>.\<close> or \<open>..\<close> are names of their own.  A transfer is never cut short except by the
  system's limit or the end of the file.
\<close>

section \<open>The file system\<close>

datatype errno = ENOENT | EEXIST | EISDIR | ENOTDIR | EOTHER

record inode =
  i_data :: "byte list"
  i_ctime :: u64
  i_mtime :: u64
  i_mode :: u32

text \<open>An open file description; \<open>o_inode\<close> is \<open>None\<close> for a directory.\<close>

record open_file =
  o_inode :: "nat option"
  o_pos :: nat
  o_rd :: bool
  o_wr :: bool

text \<open>Files by name, directories and what \<open>stat\<close> reports of them (size, change and modification time,
  mode), inodes by number and open files by descriptor.\<close>

record vfs =
  names :: "string \<rightharpoonup> nat"
  dirs :: "string list"
  dir_stat :: "string \<Rightarrow> u64 \<times> u64 \<times> u64 \<times> u32"
  inodes :: "inode list"
  open_files :: "open_file option list"

record open_flags =
  f_rd :: bool
  f_wr :: bool
  f_creat :: bool
  f_excl :: bool
  f_direct :: bool
  f_sync :: bool

definition O_RDONLY :: open_flags where
  "O_RDONLY = \<lparr>f_rd = True, f_wr = False, f_creat = False, f_excl = False, f_direct = False, f_sync = False\<rparr>"

definition O_WRONLY :: open_flags where
  "O_WRONLY = \<lparr>f_rd = False, f_wr = True, f_creat = False, f_excl = False, f_direct = False, f_sync = False\<rparr>"

text \<open>The part of a name before its last slash, if it has one.\<close>

definition parent_of :: "string \<Rightarrow> string option" where
  "parent_of p = (if CHR ''/'' \<in> set p
     then Some (rev (tl (dropWhile (\<lambda>c. c \<noteq> CHR ''/'') (rev p)))) else None)"

text \<open>The root is the empty parent; a name without a slash is in the working directory.\<close>

definition is_dir :: "vfs \<Rightarrow> string \<Rightarrow> bool" where
  "is_dir v p \<longleftrightarrow> p = ''/'' \<or> p \<in> set (dirs v)"

definition parent_exists :: "vfs \<Rightarrow> string \<Rightarrow> bool" where
  "parent_exists v p = (case parent_of p of None \<Rightarrow> True | Some d \<Rightarrow> d = [] \<or> is_dir v d)"

text \<open>The error for a name that does not exist: a regular file in the place of a directory is reported
  as such.\<close>

definition missing_errno :: "vfs \<Rightarrow> string \<Rightarrow> errno" where
  "missing_errno v p =
     (if list_ex (\<lambda>k. p ! k = CHR ''/'' \<and> names v (take k p) \<noteq> None) [1..<length p] then ENOTDIR else ENOENT)"

fun lowest_free :: "'a option list \<Rightarrow> nat" where
  "lowest_free [] = 0"
| "lowest_free (None # xs) = 0"
| "lowest_free (Some _ # xs) = Suc (lowest_free xs)"

definition install_fd :: "open_file \<Rightarrow> vfs \<Rightarrow> nat \<times> vfs" where
  "install_fd f v =
     (let k = lowest_free (open_files v)
      in (k, v\<lparr>open_files := (if k < length (open_files v) then (open_files v)[k := Some f]
                             else open_files v @ [Some f])\<rparr>))"

definition open_at :: "nat option \<Rightarrow> open_flags \<Rightarrow> open_file" where
  "open_at ino fl = \<lparr>o_inode = ino, o_pos = 0, o_rd = f_rd fl, o_wr = f_wr fl\<rparr>"

definition sys_mkdir :: "bool \<Rightarrow> string \<Rightarrow> vfs \<Rightarrow> errno option \<times> vfs" where
  "sys_mkdir ok p v =
     (if \<not> ok then (Some EOTHER, v)
      else if p = [] then (Some ENOENT, v)
      else if is_dir v p \<or> names v p \<noteq> None then (Some EEXIST, v)
      else if \<not> parent_exists v p then (Some (missing_errno v p), v)
      else (None, v\<lparr>dirs := p # dirs v\<rparr>))"

definition sys_open :: "bool \<Rightarrow> u64 \<Rightarrow> string \<Rightarrow> open_flags \<Rightarrow> vfs \<Rightarrow> (errno + nat) \<times> vfs" where
  "sys_open ok tm p fl v =
     (if \<not> ok then (Inl EOTHER, v)
      else if p = [] then (Inl ENOENT, v)
      else if is_dir v p then
        (if f_creat fl \<and> f_excl fl then (Inl EEXIST, v)
         else if f_wr fl \<or> f_creat fl then (Inl EISDIR, v)
         else (case install_fd (open_at None fl) v of (k, w) \<Rightarrow> (Inr k, w)))
      else
        (case names v p of
           Some ino \<Rightarrow>
             if f_creat fl \<and> f_excl fl then (Inl EEXIST, v)
             else (case install_fd (open_at (Some ino) fl) v of (k, w) \<Rightarrow> (Inr k, w))
         | None \<Rightarrow>
             if \<not> f_creat fl \<or> \<not> parent_exists v p then (Inl (missing_errno v p), v)
             else
               (let ino = length (inodes v);
                    u = v\<lparr>names := (names v)(p \<mapsto> ino),
                          inodes := inodes v @ [\<lparr>i_data = [], i_ctime = tm, i_mtime = tm, i_mode = 420\<rparr>]\<rparr>
                in (case install_fd (open_at (Some ino) fl) u of (k, w) \<Rightarrow> (Inr k, w)))))"

definition fd_file :: "vfs \<Rightarrow> nat \<Rightarrow> open_file option" where
  "fd_file v fd = Option.bind (at (open_files v) fd) id"

definition set_fd :: "nat \<Rightarrow> open_file \<Rightarrow> vfs \<Rightarrow> vfs" where
  "set_fd fd f v = v\<lparr>open_files := (open_files v)[fd := Some f]\<rparr>"

text \<open>\<open>lseek(fd, offset, SEEK_SET)\<close>: the offset is a signed number; a negative one is refused.\<close>

definition sys_lseek :: "bool \<Rightarrow> nat \<Rightarrow> u64 \<Rightarrow> vfs \<Rightarrow> int \<times> vfs" where
  "sys_lseek ok fd offset v =
     (case fd_file v fd of
        None \<Rightarrow> (- 1, v)
      | Some f \<Rightarrow>
          if \<not> ok \<or> sint offset < 0 then (- 1, v)
          else (sint offset, set_fd fd (f\<lparr>o_pos := nat (sint offset)\<rparr>) v))"

text \<open>A single transfer moves at most \<open>0x7ffff000\<close> bytes; a size that is negative as a \<open>ssize_t\<close> is
  refused.  The result is the bytes (or their number), or \<open>None\<close> for the error result \<open>-1\<close>.\<close>

definition io_limit :: u64 where
  "io_limit = 0x7ffff000"

definition inode_at :: "vfs \<Rightarrow> open_file \<Rightarrow> inode option" where
  "inode_at v f = Option.bind (o_inode f) (at (inodes v))"

definition sys_read :: "bool \<Rightarrow> nat \<Rightarrow> u64 \<Rightarrow> vfs \<Rightarrow> byte list option \<times> vfs" where
  "sys_read ok fd sz v =
     (case fd_file v fd of
        None \<Rightarrow> (None, v)
      | Some f \<Rightarrow>
          (case inode_at v f of
             None \<Rightarrow> (None, v)
           | Some ino \<Rightarrow>
               if \<not> ok \<or> \<not> o_rd f \<or> sint sz < 0 then (None, v)
               else
                 (let got = take (unat (min sz io_limit)) (drop (o_pos f) (i_data ino))
                  in (Some got, set_fd fd (f\<lparr>o_pos := o_pos f + length got\<rparr>) v))))"

text \<open>\<open>src\<close> is the part of the caller's buffer that a transfer of this size looks at.\<close>

definition sys_write :: "bool \<Rightarrow> u64 \<Rightarrow> nat \<Rightarrow> byte list \<Rightarrow> u64 \<Rightarrow> vfs \<Rightarrow> nat option \<times> vfs" where
  "sys_write ok tm fd src sz v =
     (case fd_file v fd of
        None \<Rightarrow> (None, v)
      | Some f \<Rightarrow>
          (case (o_inode f, inode_at v f) of
             (Some k, Some ino) \<Rightarrow>
               if \<not> ok \<or> \<not> o_wr f \<or> sint sz < 0 then (None, v)
               else
                 (let ino' = ino\<lparr>i_data := file_write (Some (i_data ino)) (o_pos f) src, i_ctime := tm, i_mtime := tm\<rparr>
                  in (Some (length src),
                      set_fd fd (f\<lparr>o_pos := o_pos f + length src\<rparr>) (v\<lparr>inodes := (inodes v)[k := ino']\<rparr>)))
           | _ \<Rightarrow> (None, v)))"

definition sys_close :: "nat \<Rightarrow> vfs \<Rightarrow> vfs" where
  "sys_close fd v = v\<lparr>open_files := (open_files v)[fd := None]\<rparr>"

definition sys_ftruncate :: "bool \<Rightarrow> u64 \<Rightarrow> nat \<Rightarrow> u64 \<Rightarrow> vfs \<Rightarrow> bool \<times> vfs" where
  "sys_ftruncate ok tm fd len v =
     (case Option.bind (fd_file v fd) o_inode of
        None \<Rightarrow> (False, v)
      | Some k \<Rightarrow>
          if \<not> ok \<or> sint len < 0 \<or> \<not> k < length (inodes v) then (False, v)
          else
            (let ino = inodes v ! k; n = unat len
             in (True, v\<lparr>inodes := (inodes v)[k := ino\<lparr>i_data :=
                   take n (i_data ino) @ replicate (n - length (i_data ino)) 0, i_ctime := tm, i_mtime := tm\<rparr>]\<rparr>)))"

definition sys_unlink :: "bool \<Rightarrow> string \<Rightarrow> vfs \<Rightarrow> errno option \<times> vfs" where
  "sys_unlink ok p v =
     (if \<not> ok then (Some EOTHER, v)
      else if is_dir v p then (Some EISDIR, v)
      else if names v p = None then (Some (missing_errno v p), v)
      else (None, v\<lparr>names := (names v)(p := None)\<rparr>))"

text \<open>\<open>stat\<close> of a name.\<close>

definition sys_stat :: "bool \<Rightarrow> string \<Rightarrow> vfs \<Rightarrow> errno + storage_file_info" where
  "sys_stat ok p v =
     (if \<not> ok then Inl EOTHER
      else if is_dir v p then
        (case dir_stat v p of (n, ct, mt, mode) \<Rightarrow>
           Inr \<lparr>info_size = n, info_created_time = ct, info_modified_time = mt, info_permissions = mode AND 511,
             info_is_directory = True\<rparr>)
      else
        (case Option.bind (names v p) (at (inodes v)) of
           None \<Rightarrow> Inl (missing_errno v p)
         | Some ino \<Rightarrow> Inr \<lparr>info_size = of_nat (length (i_data ino)), info_created_time = i_ctime ino,
             info_modified_time = i_mtime ino, info_permissions = i_mode ino AND 511, info_is_directory = False\<rparr>))"

section \<open>Frames of the calls\<close>

text \<open>The file behind a name, and the bytes behind an open descriptor.\<close>

definition inode_of :: "vfs \<Rightarrow> string \<Rightarrow> inode option" where
  "inode_of v p = Option.bind (names v p) (at (inodes v))"

definition file_data :: "vfs \<Rightarrow> string \<Rightarrow> byte list option" where
  "file_data v p = map_option i_data (inode_of v p)"

definition fd_data :: "vfs \<Rightarrow> nat \<Rightarrow> byte list option" where
  "fd_data v fd = map_option i_data (Option.bind (fd_file v fd) (inode_at v))"

text \<open>Names lead to inodes, no two names to the same one, a name is not also a directory, and open
  files refer to inodes.\<close>

definition vfs_wf :: "vfs \<Rightarrow> bool" where
  "vfs_wf v \<longleftrightarrow> ran (names v) \<subseteq> {..<length (inodes v)} \<and> inj_on (names v) (dom (names v)) \<and>
     names v [] = None \<and> (\<forall>p. is_dir v p \<longrightarrow> names v p = None) \<and>
     (\<forall>fd f k. fd_file v fd = Some f \<longrightarrow> o_inode f = Some k \<longrightarrow> k < length (inodes v))"

lemma vfs_wfD:
  assumes "vfs_wf v"
  shows "names v p = Some k \<Longrightarrow> k < length (inodes v)"
    and "names v p = Some k \<Longrightarrow> names v q = Some k \<Longrightarrow> p = q"
    and "names v [] = None"
    and "is_dir v p \<Longrightarrow> names v p = None"
    and "fd_file v fd = Some f \<Longrightarrow> o_inode f = Some k \<Longrightarrow> k < length (inodes v)"
  using assms by (auto simp: vfs_wf_def ran_def inj_on_def dom_def)

lemma vfs_wfI:
  assumes "\<And>p k. names v p = Some k \<Longrightarrow> k < length (inodes v)"
    and "\<And>p q k. names v p = Some k \<Longrightarrow> names v q = Some k \<Longrightarrow> p = q"
    and "names v [] = None"
    and "\<And>p. is_dir v p \<Longrightarrow> names v p = None"
    and "\<And>fd f k. fd_file v fd = Some f \<Longrightarrow> o_inode f = Some k \<Longrightarrow> k < length (inodes v)"
  shows "vfs_wf v"
  using assms by (fastforce simp: vfs_wf_def ran_def inj_on_def dom_def)

lemma fd_file_Some: "fd_file v fd = Some f \<longleftrightarrow> fd < length (open_files v) \<and> open_files v ! fd = Some f"
  by (auto simp: fd_file_def bind_eq_Some_conv)

lemma set_fd_simps [simp]:
  "names (set_fd fd f v) = names v" "dirs (set_fd fd f v) = dirs v" "inodes (set_fd fd f v) = inodes v"
  "is_dir (set_fd fd f v) = is_dir v" "inode_at (set_fd fd f v) = inode_at v"
  "file_data (set_fd fd f v) = file_data v"
  by (simp_all add: set_fd_def is_dir_def inode_at_def fun_eq_iff file_data_def inode_of_def)

lemma fd_file_set_fd: "fd_file v fd \<noteq> None \<Longrightarrow> fd_file (set_fd fd f v) = (fd_file v)(fd \<mapsto> f)"
  by (auto simp: fun_eq_iff set_fd_def fd_file_def at_def nth_list_update)

lemma fd_file_inodes [simp]: "fd_file (v\<lparr>inodes := x\<rparr>) = fd_file v"
  by (simp add: fun_eq_iff fd_file_def)

lemma lowest_free_le: "lowest_free xs \<le> length xs"
  by (induction xs rule: lowest_free.induct) auto

lemma lowest_free_free: "lowest_free xs < length xs \<Longrightarrow> xs ! lowest_free xs = None"
  by (induction xs rule: lowest_free.induct) auto

lemma lowest_free_below: "i < lowest_free xs \<Longrightarrow> xs ! i \<noteq> None"
  by (induction xs arbitrary: i rule: lowest_free.induct) (auto simp: nth_Cons split: nat.splits)

text \<open>A new descriptor is one that was not in use.\<close>

lemma install_fdE:
  assumes "install_fd f v = (k, w)"
  obtains "fd_file v k = None" and "fd_file w = (fd_file v)(k \<mapsto> f)" and "names w = names v"
    and "dirs w = dirs v" and "inodes w = inodes v" and "dir_stat w = dir_stat v"
proof -
  have k: "k = lowest_free (open_files v)" using assms by (auto simp: install_fd_def Let_def)
  note le = lowest_free_le [of "open_files v"] and free = lowest_free_free [of "open_files v"]
  have "fd_file v k = None" using free by (auto simp: k fd_file_def at_def)
  moreover have "fd_file w = (fd_file v)(k \<mapsto> f)"
    using assms le
    by (auto simp: fun_eq_iff fd_file_def at_def install_fd_def Let_def nth_list_update nth_append split: if_splits)
  ultimately show thesis
    using assms by (intro that) (auto simp: install_fd_def Let_def)
qed

lemma sys_mkdir_frame:
  assumes "sys_mkdir ok p v = (err, w)"
  shows "names w = names v" and "inodes w = inodes v" and "open_files w = open_files v"
    and "is_dir v q \<Longrightarrow> is_dir w q" and "is_dir w q \<Longrightarrow> is_dir v q \<or> q = p \<and> names v p = None"
  using assms by (auto simp: sys_mkdir_def is_dir_def split: if_splits)

lemma fd_file_cong: "open_files w = open_files v \<Longrightarrow> fd_file w = fd_file v"
  by (simp add: fun_eq_iff fd_file_def)

lemma file_data_cong: "names w = names v \<Longrightarrow> inodes w = inodes v \<Longrightarrow> file_data w = file_data v"
  by (simp add: fun_eq_iff file_data_def inode_of_def)

lemma sys_mkdir_wf: "sys_mkdir ok p v = (err, w) \<Longrightarrow> vfs_wf v \<Longrightarrow> vfs_wf w"
  using sys_mkdir_frame [of ok p v err w] fd_file_cong [of w v]
  by (intro vfs_wfI) (auto dest: vfs_wfD)

text \<open>The cases of a successful \<open>open\<close> of something that is not a directory.\<close>

lemma sys_open_fileE:
  assumes "sys_open ok tm p fl v = (Inr fd, w)" and "\<not> is_dir v p" and "vfs_wf v"
  obtains (found) k where "names v p = Some k" and "fd_file v fd = None"
      and "fd_file w = (fd_file v)(fd \<mapsto> open_at (Some k) fl)"
      and "names w = names v" and "dirs w = dirs v" and "inodes w = inodes v"
    | (created) "names v p = None" and "f_creat fl" and "fd_file v fd = None" and "p \<noteq> []"
      and "fd_file w = (fd_file v)(fd \<mapsto> open_at (Some (length (inodes v))) fl)"
      and "names w = (names v)(p \<mapsto> length (inodes v))" and "dirs w = dirs v"
      and "inodes w = inodes v @ [\<lparr>i_data = [], i_ctime = tm, i_mtime = tm, i_mode = 420\<rparr>]"
proof (cases "names v p")
  case None
  let ?u = "v\<lparr>names := (names v)(p \<mapsto> length (inodes v)),
     inodes := inodes v @ [\<lparr>i_data = [], i_ctime = tm, i_mtime = tm, i_mode = 420\<rparr>]\<rparr>"
  have "install_fd (open_at (Some (length (inodes v))) fl) ?u = (fd, w)" and "f_creat fl" and "p \<noteq> []"
    using assms None by (auto simp: sys_open_def Let_def split: if_splits prod.splits)
  moreover have "fd_file ?u = fd_file v" by (simp add: fun_eq_iff fd_file_def)
  ultimately show ?thesis
    using None by (elim install_fdE) (auto intro!: created)
next
  case (Some k)
  then have "install_fd (open_at (Some k) fl) v = (fd, w)"
    using assms by (auto simp: sys_open_def split: if_splits prod.splits)
  then show ?thesis
    using Some by (elim install_fdE) (auto intro!: found)
qed

lemma sys_open_dirE:
  assumes "sys_open ok tm p fl v = (Inr fd, w)" and "is_dir v p"
  obtains "\<not> f_wr fl" and "fd_file v fd = None" and "fd_file w = (fd_file v)(fd \<mapsto> open_at None fl)"
    and "names w = names v" and "dirs w = dirs v" and "inodes w = inodes v"
proof -
  have "install_fd (open_at None fl) v = (fd, w)" and "\<not> f_wr fl"
    using assms by (auto simp: sys_open_def split: if_splits prod.splits)
  then show thesis by (elim install_fdE) (auto intro!: that)
qed

lemma sys_open_failed: "sys_open ok tm p fl v = (Inl err, w) \<Longrightarrow> w = v"
  by (auto simp: sys_open_def Let_def split: if_splits prod.splits option.splits)

lemma sys_open_wf:
  assumes "sys_open ok tm p fl v = (r, w)" and wf: "vfs_wf v"
  shows "vfs_wf w"
proof (cases r)
  case (Inl err)
  then show ?thesis using assms sys_open_failed [of ok tm p fl v err w] by simp
next
  case (Inr fd)
  note run = assms(1) [unfolded Inr]
  show ?thesis
  proof (cases "is_dir v p")
    case True
    from run True show ?thesis
      by (rule sys_open_dirE) (use wf in \<open>intro vfs_wfI, auto simp: open_at_def is_dir_def dest: vfs_wfD split: if_splits\<close>)
  next
    case False
    from run False wf show ?thesis
    proof (cases rule: sys_open_fileE)
      case (found k)
      then show ?thesis
        using wf by (intro vfs_wfI) (auto simp: open_at_def is_dir_def dest: vfs_wfD split: if_splits)
    next
      case created
      then have "is_dir w = is_dir v" by (simp add: fun_eq_iff is_dir_def)
      then show ?thesis
        using created wf False
        by (intro vfs_wfI) (auto simp: open_at_def dest: vfs_wfD less_SucI split: if_splits)
    qed
  qed
qed

lemma sys_close_frame:
  "fd_file (sys_close fd v) = (fd_file v)(fd := None)" "names (sys_close fd v) = names v"
  "dirs (sys_close fd v) = dirs v" "inodes (sys_close fd v) = inodes v" "is_dir (sys_close fd v) = is_dir v"
  "file_data (sys_close fd v) = file_data v"
  by (auto simp: fun_eq_iff sys_close_def fd_file_def at_def nth_list_update is_dir_def file_data_def inode_of_def)

lemma sys_close_wf: "vfs_wf v \<Longrightarrow> vfs_wf (sys_close fd v)"
  by (intro vfs_wfI) (auto simp: sys_close_frame dest: vfs_wfD split: if_splits)

lemma sys_lseek_frame:
  assumes "sys_lseek ok fd off v = (r, w)"
  shows "names w = names v" and "dirs w = dirs v" and "inodes w = inodes v" and "dir_stat w = dir_stat v"
    and "map_option o_inode \<circ> fd_file w = map_option o_inode \<circ> fd_file v"
    and "map_option o_wr \<circ> fd_file w = map_option o_wr \<circ> fd_file v"
    and "map_option o_rd \<circ> fd_file w = map_option o_rd \<circ> fd_file v"
  using assms
  by (auto simp: sys_lseek_def fun_eq_iff set_fd_def fd_file_def at_def nth_list_update split: option.splits if_splits)

lemma sys_read_frame:
  assumes "sys_read ok fd sz v = (r, w)"
  shows "names w = names v" and "dirs w = dirs v" and "inodes w = inodes v" and "dir_stat w = dir_stat v"
    and "map_option o_inode \<circ> fd_file w = map_option o_inode \<circ> fd_file v"
    and "map_option o_wr \<circ> fd_file w = map_option o_wr \<circ> fd_file v"
    and "map_option o_rd \<circ> fd_file w = map_option o_rd \<circ> fd_file v"
  using assms
  by (auto simp: sys_read_def fun_eq_iff set_fd_def fd_file_def at_def nth_list_update Let_def
      split: option.splits if_splits)

lemma sys_write_frame:
  assumes "sys_write ok tm fd src sz v = (r, w)"
  shows "names w = names v" and "dirs w = dirs v" and "length (inodes w) = length (inodes v)"
    and "dir_stat w = dir_stat v"
    and "map_option o_inode \<circ> fd_file w = map_option o_inode \<circ> fd_file v"
    and "map_option o_wr \<circ> fd_file w = map_option o_wr \<circ> fd_file v"
    and "map_option o_rd \<circ> fd_file w = map_option o_rd \<circ> fd_file v"
  using assms
  by (auto simp: sys_write_def fun_eq_iff set_fd_def fd_file_def at_def nth_list_update Let_def
      split: option.splits if_splits prod.splits)

text \<open>Moving the position of a descriptor or changing the bytes of a file keeps the structure.\<close>

lemma vfs_wf_same_shape:
  assumes "vfs_wf v" and "names w = names v" and "dirs w = dirs v" and "length (inodes w) = length (inodes v)"
    and "map_option o_inode \<circ> fd_file w = map_option o_inode \<circ> fd_file v"
  shows "vfs_wf w"
proof -
  have "k < length (inodes v)" if "fd_file w fd = Some f" "o_inode f = Some k" for fd f k
  proof -
    from assms(5) that have "map_option o_inode (fd_file v fd) = Some (Some k)" by (metis comp_apply option.simps(9))
    then show ?thesis using vfs_wfD(5) [OF assms(1)] by auto
  qed
  moreover have "is_dir w = is_dir v" using assms(3) by (simp add: fun_eq_iff is_dir_def)
  ultimately show ?thesis
    using assms by (intro vfs_wfI) (auto dest: vfs_wfD)
qed

lemma sys_io_wf:
  "sys_lseek ok fd off v = (pos, w) \<Longrightarrow> vfs_wf v \<Longrightarrow> vfs_wf w"
  "sys_read ok fd sz v = (got, w) \<Longrightarrow> vfs_wf v \<Longrightarrow> vfs_wf w"
  "sys_write ok tm fd src sz v = (n, w) \<Longrightarrow> vfs_wf v \<Longrightarrow> vfs_wf w"
  using sys_lseek_frame [of ok fd off v pos w] sys_read_frame [of ok fd sz v got w]
    sys_write_frame [of ok tm fd src sz v n w]
  by (auto intro: vfs_wf_same_shape [of v w])

lemma sys_ftruncate_frame:
  assumes "sys_ftruncate ok tm fd len v = (r, w)"
  shows "names w = names v" and "dirs w = dirs v" and "length (inodes w) = length (inodes v)"
    and "fd_file w = fd_file v"
  using assms by (auto simp: sys_ftruncate_def Let_def split: option.splits if_splits)

lemma sys_ftruncate_wf: "sys_ftruncate ok tm fd len v = (r, w) \<Longrightarrow> vfs_wf v \<Longrightarrow> vfs_wf w"
  using sys_ftruncate_frame [of ok tm fd len v r w] by (intro vfs_wf_same_shape [of v w]) auto

lemma sys_unlink_frame:
  assumes "sys_unlink ok p v = (err, w)"
  shows "dirs w = dirs v" and "inodes w = inodes v" and "fd_file w = fd_file v"
    and "names w = (if err = None then (names v)(p := None) else names v)"
  using assms by (auto simp: sys_unlink_def fun_eq_iff fd_file_def split: if_splits)

lemma sys_unlink_wf:
  assumes "sys_unlink ok p v = (err, w)" and "vfs_wf v"
  shows "vfs_wf w"
proof -
  note fr = sys_unlink_frame [OF assms(1)]
  have "is_dir w = is_dir v" using fr(1) by (simp add: fun_eq_iff is_dir_def)
  then show ?thesis
    using assms(2) fr by (intro vfs_wfI) (auto dest: vfs_wfD split: if_splits)
qed

section \<open>Reading and writing at an offset\<close>

text \<open>
  What a client relies on when it positions a descriptor and then transfers: \<open>target\<close> is the file
  behind an open descriptor, \<open>store\<close> the bytes of the files, \<open>tree\<close> everything that transfers leave
  alone.
\<close>

locale descriptor_io =
  fixes target :: "'v \<Rightarrow> nat \<Rightarrow> nat option"
    and store :: "'v \<Rightarrow> nat \<Rightarrow> byte list option"
    and tree :: "'v \<Rightarrow> 't"
    and pos :: "'v \<Rightarrow> nat \<Rightarrow> nat"
    and may_read :: "'v \<Rightarrow> nat \<Rightarrow> bool"
    and may_write :: "'v \<Rightarrow> nat \<Rightarrow> bool"
    and seek :: "nat \<Rightarrow> u64 \<Rightarrow> 'v \<Rightarrow> int \<times> 'v"
    and put :: "nat \<Rightarrow> byte list \<Rightarrow> u64 \<Rightarrow> 'v \<Rightarrow> nat option \<times> 'v"
    and get :: "nat \<Rightarrow> u64 \<Rightarrow> 'v \<Rightarrow> byte list option \<times> 'v"
  assumes seek_law: "target v fd = Some k \<Longrightarrow> 0 \<le> sint off \<Longrightarrow>
      \<exists>w. seek fd off v = (sint off, w) \<and> pos w fd = unat off \<and> target w = target v \<and> store w = store v \<and>
          tree w = tree v \<and> may_read w = may_read v \<and> may_write w = may_write v"
    and put_law: "target v fd = Some k \<Longrightarrow> store v k = Some c \<Longrightarrow> may_write v fd \<Longrightarrow> 0 \<le> sint sz \<Longrightarrow>
      \<exists>w. put fd src sz v = (Some (length src), w) \<and> target w = target v \<and> tree w = tree v \<and>
          store w = (store v)(k \<mapsto> file_write (Some c) (pos v fd) src) \<and>
          may_read w = may_read v \<and> may_write w = may_write v"
    and put_refused: "\<not> may_write v fd \<Longrightarrow> put fd src sz v = (None, v)"
    and get_law: "target v fd = Some k \<Longrightarrow> store v k = Some c \<Longrightarrow> may_read v fd \<Longrightarrow> 0 \<le> sint sz \<Longrightarrow>
      \<exists>w. get fd sz v = (Some (take (unat (min sz io_limit)) (drop (pos v fd) c)), w) \<and> target w = target v \<and>
          store w = store v \<and> tree w = tree v \<and> may_read w = may_read v \<and> may_write w = may_write v"
    and get_refused: "\<not> may_read v fd \<Longrightarrow> get fd sz v = (None, v)"
begin

lemma write_at:
  assumes "target v fd = Some k" and "store v k = Some c" and "may_write v fd" and "0 \<le> sint off" and "0 \<le> sint sz"
  obtains w u where "seek fd off v = (sint off, w)" and "put fd src sz w = (Some (length src), u)"
    and "store u = (store v)(k \<mapsto> file_write (Some c) (unat off) src)" and "tree u = tree v"
    and "target u = target v" and "may_write u = may_write v" and "may_read u = may_read v"
proof -
  obtain w where w: "seek fd off v = (sint off, w)" "pos w fd = unat off" "target w = target v" "store w = store v"
      "tree w = tree v" "may_read w = may_read v" "may_write w = may_write v"
    using seek_law [OF assms(1,4)] by blast
  then obtain u where "put fd src sz w = (Some (length src), u)" "target u = target w" "tree u = tree w"
      "store u = (store w)(k \<mapsto> file_write (Some c) (pos w fd) src)" "may_read u = may_read w" "may_write u = may_write w"
    using put_law [of w fd k c sz src] assms by auto
  with w show thesis by (intro that [of w u]) simp_all
qed

lemma read_at:
  assumes "target v fd = Some k" and "store v k = Some c" and "may_read v fd" and "0 \<le> sint off" and "0 \<le> sint sz"
  obtains w u where "seek fd off v = (sint off, w)"
    and "get fd sz w = (Some (take (unat (min sz io_limit)) (drop (unat off) c)), u)"
    and "store u = store v" and "tree u = tree v"
    and "target u = target v" and "may_write u = may_write v" and "may_read u = may_read v"
proof -
  obtain w where w: "seek fd off v = (sint off, w)" "pos w fd = unat off" "target w = target v" "store w = store v"
      "tree w = tree v" "may_read w = may_read v" "may_write w = may_write v"
    using seek_law [OF assms(1,4)] by blast
  then obtain u where "get fd sz w = (Some (take (unat (min sz io_limit)) (drop (pos w fd) c)), u)"
      "target u = target w" "store u = store w" "tree u = tree w" "may_read u = may_read w" "may_write u = may_write w"
    using get_law [of w fd k c sz] assms by auto
  with w show thesis by (intro that [of w u]) simp_all
qed

end

definition fd_target :: "vfs \<Rightarrow> nat \<Rightarrow> nat option" where
  "fd_target v fd = Option.bind (fd_file v fd) o_inode"

definition inode_data :: "vfs \<Rightarrow> nat \<Rightarrow> byte list option" where
  "inode_data v k = map_option i_data (at (inodes v) k)"

definition fd_pos :: "vfs \<Rightarrow> nat \<Rightarrow> nat" where
  "fd_pos v fd = (case fd_file v fd of None \<Rightarrow> 0 | Some f \<Rightarrow> o_pos f)"

definition fd_reads :: "vfs \<Rightarrow> nat \<Rightarrow> bool" where
  "fd_reads v fd = (case fd_file v fd of None \<Rightarrow> False | Some f \<Rightarrow> o_rd f)"

definition fd_writes :: "vfs \<Rightarrow> nat \<Rightarrow> bool" where
  "fd_writes v fd = (case fd_file v fd of None \<Rightarrow> False | Some f \<Rightarrow> o_wr f)"

definition dir_tree :: "vfs \<Rightarrow> (string \<rightharpoonup> nat) \<times> string list" where
  "dir_tree v = (names v, dirs v)"

lemmas fd_defs = fd_target_def inode_data_def fd_pos_def fd_reads_def fd_writes_def dir_tree_def

lemma sint_u64: "sint (x :: u64) = (if uint x < 2 ^ 63 then uint x else uint x - 2 ^ 64)"
proof -
  have eq: "sint x = (uint x + 2 ^ 63) mod 2 ^ 64 - 2 ^ 63"
    by (simp add: sint_uint signed_take_bit_eq_take_bit_shift take_bit_eq_mod)
  have "0 \<le> uint x" and "uint x < 2 ^ 64" using uint_lt2p [of x] by simp_all
  moreover have "(uint x + 2 ^ 63) mod 2 ^ 64 = uint x + 2 ^ 63 - 2 ^ 64" if "2 ^ 63 \<le> uint x"
    by (subst minus_mod_self2 [symmetric], rule mod_pos_pos_trivial) (use calculation that in simp_all)
  ultimately show ?thesis unfolding eq by simp
qed

lemma nat_sint_unat: "0 \<le> sint (x :: u64) \<Longrightarrow> nat (sint x) = unat x"
  using uint_lt2p [of x] by (simp add: sint_u64 split: if_splits)

interpretation vfs_io: descriptor_io fd_target inode_data dir_tree fd_pos fd_reads fd_writes
  "sys_lseek True" "sys_write True tm" "sys_read True"
proof (standard, goal_cases seek put putx get getx)
  case (seek v fd k off)
  then obtain f where f: "fd_file v fd = Some f" by (auto simp: fd_target_def bind_eq_Some_conv)
  with seek show ?case
    by (auto simp: sys_lseek_def fd_defs fun_eq_iff fd_file_set_fd nat_sint_unat)
next
  case (put v fd k c sz src)
  then obtain f where f: "fd_file v fd = Some f" "o_inode f = Some k" by (auto simp: fd_target_def bind_eq_Some_conv)
  with put show ?case
    by (auto simp: sys_write_def fd_defs fun_eq_iff fd_file_set_fd inode_at_def Let_def at_def split: if_splits)
next
  case (putx v fd src sz)
  then show ?case by (auto simp: sys_write_def fd_defs split: option.splits)
next
  case (get v fd k c sz)
  then obtain f where f: "fd_file v fd = Some f" "o_inode f = Some k" by (auto simp: fd_target_def bind_eq_Some_conv)
  with get show ?case
    by (auto simp: sys_read_def fd_defs fun_eq_iff fd_file_set_fd inode_at_def Let_def at_def split: if_splits)
next
  case (getx v fd sz)
  then show ?case by (auto simp: sys_read_def fd_defs split: option.splits)
qed

end
