(* ===== verification/XD_Local.thy ===== *)
theory XD_Local
  imports XD_Manager XD_Vfs
begin

text \<open>
  The local file-system backend of \<open>src/storage/local_storage.c\<close>, over the model of the POSIX
  calls it makes of theory \<open>XD_Vfs\<close>: paths and directories, the cache of file descriptors and the
  operations of the interface.
\<close>

section \<open>State of the backend\<close>

datatype local_storage_type =
    LOCAL_STORAGE_REGULAR
  | LOCAL_STORAGE_MMAP
  | LOCAL_STORAGE_DIRECT
  | LOCAL_STORAGE_TMPFS
  | LOCAL_STORAGE_BLOCK
  | LOCAL_STORAGE_SPARSE
  | LOCAL_STORAGE_COMPRESSED
  | LOCAL_STORAGE_HYBRID

text \<open>A cached descriptor; \<open>c_ended\<close> is false when the copy of the name filled the array up to its last
  byte, which stays indeterminate.  Entries of the cache are \<open>None\<close> while the memory is indeterminate.  Nothing is ever
  added to the cache of mappings, of which only the size is kept.\<close>

record fd_cache_entry =
  c_path :: string
  c_ended :: bool
  c_fd :: nat
  c_last_access :: u64

record local_storage_private =
  base_path :: string
  storage_type :: local_storage_type
  use_odirect :: bool
  use_osync :: bool
  io_buffer_size :: u64
  max_open_files :: u32
  fd_cache :: "fd_cache_entry option list"
  fd_cache_size :: u32
  mmap_cache_size :: u32
  lstats :: storage_stats

type_synonym local_iface = "local_storage_private iface"

section \<open>Paths and directories\<close>

definition build_file_path :: "string \<Rightarrow> string \<Rightarrow> nat \<Rightarrow> string" where
  "build_file_path base path path_size =
     (case path of
        c # _ \<Rightarrow> if c = CHR ''/'' then c_strncpy (path_size - 1) path else c_snprintf path_size (base @ ''/'' @ path)
      | [] \<Rightarrow> c_snprintf path_size (base @ ''/'' @ path))"

text \<open>The loop over the prefixes that end at a slash; the list holds their lengths.\<close>

fun mkdir_prefixes :: "call_env \<Rightarrow> string \<Rightarrow> nat list \<Rightarrow> vfs \<Rightarrow> bool \<times> vfs" where
  "mkdir_prefixes e temp [] v = (True, v)"
| "mkdir_prefixes e temp (p # ps) v =
     (if temp ! p = CHR ''/'' then
        (case sys_mkdir (sys_ok e (100 + p)) (take p temp) v of
           (err, w) \<Rightarrow> if err = None \<or> err = Some EEXIST then mkdir_prefixes e temp ps w else (False, w))
      else mkdir_prefixes e temp ps v)"

text \<open>An empty path makes the function look at the character before its buffer.\<close>

definition create_directories :: "call_env \<Rightarrow> string \<Rightarrow> vfs \<Rightarrow> (xdevice_error \<times> vfs) option" where
  "create_directories e path v =
     (let cut = c_strncpy (MAX_PATH_LEN - 1) path
      in if cut = [] then None
         else
           (let temp = (if last cut = CHR ''/'' then butlast cut else cut)
            in case mkdir_prefixes e temp [1..<length temp] v of
                 (False, w) \<Rightarrow> Some (XDEVICE_ERROR_IO, w)
               | (True, w) \<Rightarrow>
                   (case sys_mkdir (sys_ok e 99) temp w of
                      (err, u) \<Rightarrow>
                        Some (if err = None \<or> err = Some EEXIST then XDEVICE_OK else XDEVICE_ERROR_IO, u))))"

text \<open>The copy of the path into an uninitialised array, which has no end when the path is of full
  length, and the creation of the directories above the file; the result is ignored.\<close>

definition make_parents :: "call_env \<Rightarrow> string \<Rightarrow> vfs \<Rightarrow> vfs option" where
  "make_parents e full_path v =
     (if length full_path \<ge> MAX_PATH_LEN - 1 then None
      else
        (case parent_of full_path of
           None \<Rightarrow> Some v
         | Some dir_path \<Rightarrow> map_option snd (create_directories e dir_path v)))"

section \<open>The descriptor cache\<close>

text \<open>\<open>strcmp\<close> against an entry without terminating zero is undefined only when all its bytes agree.\<close>

fun cache_find :: "fd_cache_entry option list \<Rightarrow> string \<Rightarrow> nat list \<Rightarrow> nat option option" where
  "cache_find cache path [] = Some None"
| "cache_find cache path (i # is) = do {
     slot \<leftarrow> at cache i;
     en \<leftarrow> slot;
     if c_path en \<noteq> path then cache_find cache path is
     else if c_ended en then Some (Some i) else None }"

definition cache_entry :: "u64 \<Rightarrow> string \<Rightarrow> nat \<Rightarrow> fd_cache_entry" where
  "cache_entry tm path fd = \<lparr>c_path = c_strncpy (MAX_PATH_LEN - 1) path,
     c_ended = (length path < MAX_PATH_LEN - 1), c_fd = fd, c_last_access = tm\<rparr>"

definition get_file_descriptor ::
  "call_env \<Rightarrow> local_storage_private \<Rightarrow> vfs \<Rightarrow> string \<Rightarrow> open_flags
     \<Rightarrow> (nat option \<times> local_storage_private \<times> vfs) option" where
  "get_file_descriptor e priv v path fl = do {
     hit \<leftarrow> cache_find (fd_cache priv) path [0..<unat (fd_cache_size priv)];
     (case hit of
        Some i \<Rightarrow> do {
          slot \<leftarrow> at (fd_cache priv) i;
          en \<leftarrow> slot;
          Some (Some (c_fd en), priv\<lparr>fd_cache := (fd_cache priv)[i := Some (en\<lparr>c_last_access := now e\<rparr>)]\<rparr>, v) }
      | None \<Rightarrow>
          (let open_fl = fl\<lparr>f_direct := f_direct fl \<or> use_odirect priv, f_sync := f_sync fl \<or> use_osync priv\<rparr>
           in case sys_open (sys_ok e 0) (now e) path open_fl v of
                (Inl _, w) \<Rightarrow> Some (None, priv, w)
              | (Inr fd, w) \<Rightarrow>
                  if fd_cache_size priv < max_open_files priv then do {
                    cache \<leftarrow> put_at (fd_cache priv) (unat (fd_cache_size priv))
                       (Some (cache_entry (now e) path fd));
                    Some (Some fd, priv\<lparr>fd_cache := cache, fd_cache_size := fd_cache_size priv + 1\<rparr>, w) }
                  else Some (Some fd, priv, w))) }"

section \<open>The operations\<close>

text \<open>The result of \<open>read\<close> and \<open>write\<close> as a \<open>ssize_t\<close>.\<close>

definition ssize :: "nat option \<Rightarrow> int" where
  "ssize r = (case r of None \<Rightarrow> - 1 | Some n \<Rightarrow> int n)"

definition local_default_private :: "string \<Rightarrow> local_storage_private" where
  "local_default_private base = \<lparr>base_path = base, storage_type = LOCAL_STORAGE_REGULAR, use_odirect = False,
     use_osync = False, io_buffer_size = 64 * 1024, max_open_files = 100, fd_cache = replicate 100 None,
     fd_cache_size = 0, mmap_cache_size = 0, lstats = zero_stats\<rparr>"

definition local_storage_init ::
  "call_env \<Rightarrow> vfs \<Rightarrow> local_iface option \<Rightarrow> string option
     \<Rightarrow> (xdevice_error \<times> local_iface option \<times> vfs) option" where
  "local_storage_init e v iface config =
     (case iface of
        None \<Rightarrow> Some (XDEVICE_ERROR_INVALID_PARAM, iface, v)
      | Some _ \<Rightarrow>
          if \<not> alloc e 0 then Some (XDEVICE_ERROR_OUT_OF_MEMORY, iface, v)
          else
            (let base = (case config of Some c \<Rightarrow> c_strncpy (MAX_PATH_LEN - 1) c | None \<Rightarrow> ''/tmp/xdevice'')
             in do {
               (ret, w) \<leftarrow> create_directories e base v;
               if ret \<noteq> XDEVICE_OK then Some (XDEVICE_ERROR_IO, iface, w)
               else if \<not> alloc e 1 then Some (XDEVICE_ERROR_OUT_OF_MEMORY, iface, w)
               else if \<not> mutex_ok e 0 then Some (XDEVICE_ERROR, iface, w)
               else if \<not> alloc e 2 then Some (XDEVICE_ERROR_OUT_OF_MEMORY, iface, w)
               else if \<not> mutex_ok e 1 then Some (XDEVICE_ERROR, iface, w)
               else if \<not> mutex_ok e 2 then Some (XDEVICE_ERROR, iface, w)
               else Some (XDEVICE_OK, set_priv (Some (local_default_private base)) iface, w) }))"

fun close_cached :: "fd_cache_entry option list \<Rightarrow> nat list \<Rightarrow> vfs \<Rightarrow> vfs option" where
  "close_cached cache [] v = Some v"
| "close_cached cache (i # is) v = do {
     slot \<leftarrow> at cache i;
     en \<leftarrow> slot;
     close_cached cache is (sys_close (c_fd en) v) }"

definition local_storage_cleanup ::
  "vfs \<Rightarrow> local_iface option \<Rightarrow> (xdevice_error \<times> local_iface option \<times> vfs) option" where
  "local_storage_cleanup v iface =
     (case priv_of iface of
        None \<Rightarrow> Some (XDEVICE_ERROR_INVALID_PARAM, iface, v)
      | Some priv \<Rightarrow> do {
          w \<leftarrow> close_cached (fd_cache priv) [0..<unat (fd_cache_size priv)] v;
          Some (XDEVICE_OK, set_priv None iface, w) })"

definition local_storage_health_check :: "call_env \<Rightarrow> vfs \<Rightarrow> local_iface option \<Rightarrow> xdevice_error" where
  "local_storage_health_check e v iface =
     (case priv_of iface of
        None \<Rightarrow> XDEVICE_ERROR_INVALID_PARAM
      | Some priv \<Rightarrow>
          if sys_ok e 50 \<and> (is_dir v (base_path priv) \<or> names v (base_path priv) \<noteq> None)
          then XDEVICE_OK else XDEVICE_ERROR_IO)"

definition local_storage_read_sync ::
  "call_env \<Rightarrow> vfs \<Rightarrow> local_iface option \<Rightarrow> string option \<Rightarrow> u64 \<Rightarrow> byte list option \<Rightarrow> u64
     \<Rightarrow> (xdevice_error \<times> byte list option \<times> local_iface option \<times> vfs) option" where
  "local_storage_read_sync e v iface path offset buffer sz =
     (case (priv_of iface, path, buffer) of
        (Some priv, Some p, Some buf) \<Rightarrow>
          if sz = 0 then Some (XDEVICE_ERROR_INVALID_PARAM, buffer, iface, v)
          else do {
            (fd, priv1, v1) \<leftarrow> get_file_descriptor e priv v (build_file_path (base_path priv) p MAX_PATH_LEN) O_RDONLY;
            let iface1 = set_priv (Some priv1) iface;
            (case fd of
               None \<Rightarrow> Some (XDEVICE_ERROR_IO, buffer, iface1, v1)
             | Some k \<Rightarrow>
                 (case sys_lseek (sys_ok e 6) k offset v1 of
                    (pos, v2) \<Rightarrow>
                      if pos \<noteq> sint offset then Some (XDEVICE_ERROR_IO, buffer, iface1, v2)
                      else
                        (case sys_read (sys_ok e 1) k sz v2 of
                           (got, v3) \<Rightarrow> do {
                             buf1 \<leftarrow> (case got of None \<Rightarrow> Some buf | Some g \<Rightarrow> mem_write buf 0 g);
                             let bytes_read = ssize (map_option length got);
                             if bytes_read \<noteq> sint sz then
                               Some (if bytes_read < 0 then XDEVICE_ERROR_IO else XDEVICE_ERROR_NOT_FOUND,
                                 Some buf1, iface1, v3)
                             else Some (XDEVICE_OK, Some buf1, set_priv (Some (priv1\<lparr>lstats :=
                                    stats_read sz (latency_ns (t_start e) (t_end e)) (lstats priv1)\<rparr>)) iface, v3) }))) }
      | _ \<Rightarrow> Some (XDEVICE_ERROR_INVALID_PARAM, buffer, iface, v))"

definition local_storage_write_sync ::
  "call_env \<Rightarrow> vfs \<Rightarrow> local_iface option \<Rightarrow> string option \<Rightarrow> u64 \<Rightarrow> byte list option \<Rightarrow> u64
     \<Rightarrow> (xdevice_error \<times> local_iface option \<times> vfs) option" where
  "local_storage_write_sync e v iface path offset data sz =
     (case (priv_of iface, path, data) of
        (Some priv, Some p, Some d) \<Rightarrow>
          if sz = 0 then Some (XDEVICE_ERROR_INVALID_PARAM, iface, v)
          else do {
            let full_path = build_file_path (base_path priv) p MAX_PATH_LEN;
            v0 \<leftarrow> make_parents e full_path v;
            (fd, priv1, v1) \<leftarrow> get_file_descriptor e priv v0 full_path (O_WRONLY\<lparr>f_creat := True\<rparr>);
            let iface1 = set_priv (Some priv1) iface;
            (case fd of
               None \<Rightarrow> Some (XDEVICE_ERROR_IO, iface1, v1)
             | Some k \<Rightarrow>
                 (case sys_lseek (sys_ok e 6) k offset v1 of
                    (pos, v2) \<Rightarrow>
                      if pos \<noteq> sint offset then Some (XDEVICE_ERROR_IO, iface1, v2)
                      else do {
                        src \<leftarrow> (if sint sz < 0 then Some [] else mem_read d 0 (unat (min sz io_limit)));
                        (case sys_write (sys_ok e 1) (now e) k src sz v2 of
                           (n, v3) \<Rightarrow>
                             if ssize n \<noteq> sint sz then Some (XDEVICE_ERROR_IO, iface1, v3)
                             else Some (XDEVICE_OK, set_priv (Some (priv1\<lparr>lstats :=
                                    stats_write sz (latency_ns (t_start e) (t_end e)) (lstats priv1)\<rparr>)) iface, v3)) })) }
      | _ \<Rightarrow> Some (XDEVICE_ERROR_INVALID_PARAM, iface, v))"

definition local_storage_fsync ::
  "call_env \<Rightarrow> vfs \<Rightarrow> local_iface option \<Rightarrow> string option \<Rightarrow> (xdevice_error \<times> local_iface option \<times> vfs) option" where
  "local_storage_fsync e v iface path =
     (case (priv_of iface, path) of
        (Some priv, Some p) \<Rightarrow> do {
          (fd, priv1, v1) \<leftarrow> get_file_descriptor e priv v (build_file_path (base_path priv) p MAX_PATH_LEN) O_WRONLY;
          Some (if Option.bind fd (fd_file v1) = None \<or> \<not> sys_ok e 2 then XDEVICE_ERROR_IO else XDEVICE_OK,
            set_priv (Some priv1) iface, v1) }
      | _ \<Rightarrow> Some (XDEVICE_ERROR_INVALID_PARAM, iface, v))"

definition local_storage_create_file ::
  "call_env \<Rightarrow> vfs \<Rightarrow> local_iface option \<Rightarrow> string option \<Rightarrow> u64 \<Rightarrow> (xdevice_error \<times> local_iface option \<times> vfs) option" where
  "local_storage_create_file e v iface path initial_size =
     (case (priv_of iface, path) of
        (Some priv, Some p) \<Rightarrow> do {
          let full_path = build_file_path (base_path priv) p MAX_PATH_LEN;
          v0 \<leftarrow> make_parents e full_path v;
          (case sys_open (sys_ok e 0) (now e) full_path (O_WRONLY\<lparr>f_creat := True, f_excl := True\<rparr>) v0 of
             (Inl err, v1) \<Rightarrow> Some (if err = EEXIST then XDEVICE_ERROR_EXISTS else XDEVICE_ERROR_IO, iface, v1)
           | (Inr fd, v1) \<Rightarrow>
               if initial_size > 0 then
                 (case sys_ftruncate (sys_ok e 3) (now e) fd initial_size v1 of
                    (True, v2) \<Rightarrow> Some (XDEVICE_OK, iface, sys_close fd v2)
                  | (False, v2) \<Rightarrow>
                      Some (XDEVICE_ERROR_IO, iface, snd (sys_unlink (sys_ok e 4) full_path (sys_close fd v2))))
               else Some (XDEVICE_OK, iface, sys_close fd v1)) }
      | _ \<Rightarrow> Some (XDEVICE_ERROR_INVALID_PARAM, iface, v))"

definition local_storage_delete_file ::
  "call_env \<Rightarrow> vfs \<Rightarrow> local_iface option \<Rightarrow> string option \<Rightarrow> xdevice_error \<times> vfs" where
  "local_storage_delete_file e v iface path =
     (case (priv_of iface, path) of
        (Some priv, Some p) \<Rightarrow>
          (case sys_unlink (sys_ok e 4) (build_file_path (base_path priv) p MAX_PATH_LEN) v of
             (None, w) \<Rightarrow> (XDEVICE_OK, w)
           | (Some err, w) \<Rightarrow> (if err = ENOENT then XDEVICE_ERROR_NOT_FOUND else XDEVICE_ERROR_IO, w))
      | _ \<Rightarrow> (XDEVICE_ERROR_INVALID_PARAM, v))"

definition local_storage_get_file_info ::
  "call_env \<Rightarrow> vfs \<Rightarrow> local_iface option \<Rightarrow> string option \<Rightarrow> storage_file_info option
     \<Rightarrow> xdevice_error \<times> storage_file_info option" where
  "local_storage_get_file_info e v iface path info =
     (case (priv_of iface, path, info) of
        (Some priv, Some p, Some _) \<Rightarrow>
          (case sys_stat (sys_ok e 5) (build_file_path (base_path priv) p MAX_PATH_LEN) v of
             Inr st \<Rightarrow> (XDEVICE_OK, Some st)
           | Inl err \<Rightarrow> (if err = ENOENT then XDEVICE_ERROR_NOT_FOUND else XDEVICE_ERROR_IO, info))
      | _ \<Rightarrow> (XDEVICE_ERROR_INVALID_PARAM, info))"

definition local_storage_get_stats ::
  "local_iface option \<Rightarrow> storage_stats option \<Rightarrow> xdevice_error \<times> storage_stats option" where
  "local_storage_get_stats iface out =
     (case (priv_of iface, out) of
        (Some priv, Some _) \<Rightarrow> (XDEVICE_OK, Some (lstats priv))
      | _ \<Rightarrow> (XDEVICE_ERROR_INVALID_PARAM, out))"

definition local_storage_reset_stats :: "local_iface option \<Rightarrow> xdevice_error \<times> local_iface option" where
  "local_storage_reset_stats iface =
     (case priv_of iface of
        None \<Rightarrow> (XDEVICE_ERROR_INVALID_PARAM, iface)
      | Some priv \<Rightarrow> (XDEVICE_OK, set_priv (Some (priv\<lparr>lstats := zero_stats\<rparr>)) iface))"

text \<open>The constructor; \<open>p\<close> is the result of \<open>malloc\<close>.\<close>

definition local_table :: "(local_storage_private, vfs) storage_interface" where
  "local_table = \<lparr>itype = STORAGE_BACKEND_LOCAL, iname = c_strncpy 63 ''LocalFileStorage'', private_data = None,
     init_fn = Some local_storage_init,
     cleanup_fn = Some (\<lambda>e v i. local_storage_cleanup v i),
     health_check_fn = Some local_storage_health_check,
     read_sync_fn = Some local_storage_read_sync,
     write_sync_fn = Some local_storage_write_sync,
     fsync_fn = Some local_storage_fsync,
     create_file_fn = Some local_storage_create_file,
     delete_file_fn = Some (\<lambda>e v i p. Some (case local_storage_delete_file e v i p of (ret, w) \<Rightarrow> (ret, i, w))),
     get_file_info_fn = Some (\<lambda>e v i p inf. Some (local_storage_get_file_info e v i p inf)),
     get_stats_fn = Some local_storage_get_stats,
     reset_stats_fn = Some local_storage_reset_stats,
     read_async_fn = None, write_async_fn = None, batch_operations_fn = None\<rparr>"

definition create_local_storage_interface ::
  "nat option \<Rightarrow> (local_storage_private, vfs) sys \<Rightarrow> nat option \<times> (local_storage_private, vfs) sys" where
  "create_local_storage_interface p s =
     (case p of
        None \<Rightarrow> (None, s)
      | Some a \<Rightarrow> (Some a, s\<lparr>objs := (objs s)(a \<mapsto> local_table)\<rparr>))"

section \<open>Paths\<close>

lemma parent_of_Some: "parent_of p = Some d \<longleftrightarrow> (\<exists>b. p = d @ CHR ''/'' # b \<and> CHR ''/'' \<notin> set b)"
proof
  assume a: "parent_of p = Some d"
  then have m: "CHR ''/'' \<in> set (rev p)" by (auto simp: parent_of_def split: if_splits)
  obtain b r where split: "rev p = b @ CHR ''/'' # r" "CHR ''/'' \<notin> set b"
    using split_list_first [OF m] by blast
  then have "dropWhile (\<lambda>c. c \<noteq> CHR ''/'') (rev p) = CHR ''/'' # r"
    by (auto simp: dropWhile_append)
  with a m have "d = rev r" by (auto simp: parent_of_def split: if_splits)
  moreover have "p = rev r @ CHR ''/'' # rev b" using arg_cong [OF split(1), of rev] by simp
  ultimately show "\<exists>b. p = d @ CHR ''/'' # b \<and> CHR ''/'' \<notin> set b" using split(2) by (intro exI [of _ "rev b"]) auto
next
  assume "\<exists>b. p = d @ CHR ''/'' # b \<and> CHR ''/'' \<notin> set b"
  then obtain b where "p = d @ CHR ''/'' # b" "CHR ''/'' \<notin> set b" by blast
  then show "parent_of p = Some d"
    by (auto simp: parent_of_def dropWhile_append)
qed

lemma parent_of_None: "parent_of p = None \<longleftrightarrow> CHR ''/'' \<notin> set p"
  by (simp add: parent_of_def)

lemma length_build_file_path: "length (build_file_path base p MAX_PATH_LEN) < MAX_PATH_LEN"
  using length_c_strncpy [of "MAX_PATH_LEN - 1" p] length_c_snprintf [of MAX_PATH_LEN "base @ ''/'' @ p"]
  by (auto simp: build_file_path_def MAX_PATH_LEN_def split: list.splits)

section \<open>Directories\<close>

lemma mkdir_prefixes_frame:
  assumes "mkdir_prefixes e temp ps v = (r, w)"
  shows "names w = names v \<and> inodes w = inodes v \<and> open_files w = open_files v \<and>
    (\<forall>q. is_dir v q \<longrightarrow> is_dir w q) \<and> (vfs_wf v \<longrightarrow> vfs_wf w)"
  using assms
proof (induction e temp ps v rule: mkdir_prefixes.induct)
  case (2 e temp p ps v)
  show ?case
  proof (cases "temp ! p = CHR ''/''")
    case True
    obtain err u where u: "sys_mkdir (sys_ok e (100 + p)) (take p temp) v = (err, u)" by fastforce
    note fr = sys_mkdir_frame [OF u] sys_mkdir_wf [OF u]
    have "mkdir_prefixes e temp ps u = (r, w) \<and> (err = None \<or> err = Some EEXIST) \<or> w = u"
      using "2.prems" True u by (auto split: if_splits)
    then show ?thesis using "2.IH"(1) [OF True u [symmetric]] fr by auto
  qed (use 2 in auto)
qed auto

lemma create_directories_frame:
  assumes "create_directories e path v = Some (ret, w)"
  shows "names w = names v" and "inodes w = inodes v" and "open_files w = open_files v"
    and "is_dir v q \<Longrightarrow> is_dir w q" and "vfs_wf v \<Longrightarrow> vfs_wf w"
proof -
  let ?cut = "c_strncpy (MAX_PATH_LEN - 1) path"
  let ?temp = "if last ?cut = CHR ''/'' then butlast ?cut else ?cut"
  obtain r u where u: "mkdir_prefixes e ?temp [1..<length ?temp] v = (r, u)" by fastforce
  note fu = mkdir_prefixes_frame [OF u]
  obtain err x where x: "sys_mkdir (sys_ok e 99) ?temp u = (err, x)" by fastforce
  note fx = sys_mkdir_frame [OF x] sys_mkdir_wf [OF x]
  have "w = u \<or> w = x"
    using assms u x by (auto simp: create_directories_def Let_def split: if_splits bool.splits)
  then show "names w = names v" "inodes w = inodes v" "open_files w = open_files v"
    "is_dir v q \<Longrightarrow> is_dir w q" "vfs_wf v \<Longrightarrow> vfs_wf w"
    using fu fx by auto
qed

lemma make_parents_frame:
  assumes "make_parents e p v = Some w"
  shows "names w = names v" and "inodes w = inodes v" and "open_files w = open_files v"
    and "is_dir v q \<Longrightarrow> is_dir w q" and "vfs_wf v \<Longrightarrow> vfs_wf w"
  using assms create_directories_frame [of e _ v _ w]
  by (auto simp: make_parents_def split: if_splits option.splits)

text \<open>Only prefixes of the path become directories.\<close>

lemma mkdir_prefixes_dirs:
  "mkdir_prefixes e temp ps v = (r, w) \<Longrightarrow> is_dir w q \<Longrightarrow> is_dir v q \<or> length q \<le> length temp"
proof (induction e temp ps v rule: mkdir_prefixes.induct)
  case (2 e temp p ps v)
  show ?case
  proof (cases "temp ! p = CHR ''/''")
    case True
    obtain err u where u: "sys_mkdir (sys_ok e (100 + p)) (take p temp) v = (err, u)" by fastforce
    have "mkdir_prefixes e temp ps u = (r, w) \<and> (err = None \<or> err = Some EEXIST) \<or> w = u"
      using "2.prems" True u by (auto split: if_splits)
    then show ?thesis
      using "2.IH"(1) [OF True u [symmetric]] "2.prems"(2) sys_mkdir_frame(5) [OF u, of q] by auto
  qed (use 2 in auto)
qed auto

lemma create_directories_dirs:
  assumes "create_directories e path v = Some (ret, w)" and "is_dir w q"
  shows "is_dir v q \<or> length q \<le> length path"
proof -
  define cut where "cut = c_strncpy (MAX_PATH_LEN - 1) path"
  define temp where "temp = (if last cut = CHR ''/'' then butlast cut else cut)"
  have l: "length temp \<le> length path" by (auto simp: temp_def cut_def c_strncpy_def)
  obtain r u where u: "mkdir_prefixes e temp [1..<length temp] v = (r, u)" by fastforce
  obtain err x where x: "sys_mkdir (sys_ok e 99) temp u = (err, x)" by fastforce
  have "w = u \<or> w = x"
    using assms(1) u x unfolding create_directories_def cut_def [symmetric] Let_def temp_def [symmetric]
    by (auto split: if_splits bool.splits)
  then show ?thesis
    using assms(2) l mkdir_prefixes_dirs [OF u, of q] sys_mkdir_frame(5) [OF x, of q] by auto
qed

lemma make_parents_dirs:
  assumes "make_parents e p v = Some w" and "is_dir w p"
  shows "is_dir v p"
proof (cases "parent_of p")
  case None
  then show ?thesis using assms by (auto simp: make_parents_def split: if_splits)
next
  case (Some d)
  then obtain ret where "create_directories e d v = Some (ret, w)"
    using assms(1) by (auto simp: make_parents_def split: if_splits)
  moreover have "length d < length p" using Some by (auto simp: parent_of_Some)
  ultimately show ?thesis using create_directories_dirs assms(2) by fastforce
qed

lemma create_directories_None: "create_directories e path v = None \<longleftrightarrow> path = []"
proof (cases "path = []")
  case False
  let ?cut = "c_strncpy (MAX_PATH_LEN - 1) path"
  let ?temp = "if last ?cut = CHR ''/'' then butlast ?cut else ?cut"
  have "?cut \<noteq> []" using False by (simp add: c_strncpy_def MAX_PATH_LEN_def)
  then show ?thesis
    using False by (cases "mkdir_prefixes e ?temp [1..<length ?temp] v" rule: prod.exhaust)
      (simp add: create_directories_def Let_def split: prod.split bool.split)
qed (simp add: create_directories_def c_strncpy_def)

lemma make_parents_None:
  "make_parents e p v = None \<longleftrightarrow> MAX_PATH_LEN - 1 \<le> length p \<or> parent_of p = Some []"
  by (auto simp: make_parents_def create_directories_None split: option.splits)

text \<open>When no file is in the way and no call fails for another reason, all the prefixes become
  directories.\<close>

lemma sys_mkdir_creates:
  assumes "p \<noteq> []" and "names v p = None" and "is_dir v p \<or> parent_exists v p"
  obtains err w where "sys_mkdir True p v = (err, w)" and "err = None \<or> err = Some EEXIST" and "is_dir w p"
  using assms by (cases "sys_mkdir True p v") (auto simp: sys_mkdir_def is_dir_def split: if_splits)

lemma parent_exists_prefix:
  assumes "\<And>q. q < p \<Longrightarrow> 0 < q \<Longrightarrow> temp ! q = CHR ''/'' \<Longrightarrow> is_dir v (take q temp)" and "p \<le> length temp"
  shows "parent_exists v (take p temp)"
proof (cases "parent_of (take p temp)")
  case None
  then show ?thesis by (simp add: parent_exists_def)
next
  case (Some d)
  then obtain b where b: "take p temp = d @ CHR ''/'' # b" by (auto simp: parent_of_Some)
  let ?q = "length d"
  have q: "?q < p" using arg_cong [OF b, of length] assms(2) by simp
  have "take p temp ! ?q = CHR ''/''" by (simp add: b)
  then have c: "temp ! ?q = CHR ''/''" using q by simp
  have "take ?q (take p temp) = d" by (simp add: b)
  then have "take ?q temp = d" using q by simp
  then show ?thesis
    using Some assms(1) [OF q _ c] by (cases "d = []") (auto simp: parent_exists_def)
qed

lemma mkdir_prefixes_creates:
  assumes "\<And>k. sys_ok e k" and "\<And>q. 0 < q \<Longrightarrow> q < length temp \<Longrightarrow> names v (take q temp) = None"
    and "\<And>q. q < p \<Longrightarrow> 0 < q \<Longrightarrow> temp ! q = CHR ''/'' \<Longrightarrow> is_dir v (take q temp)"
    and "0 < p" and "p \<le> length temp"
  obtains w where "mkdir_prefixes e temp [p..<length temp] v = (True, w)"
    and "\<And>q. q < length temp \<Longrightarrow> 0 < q \<Longrightarrow> temp ! q = CHR ''/'' \<Longrightarrow> is_dir w (take q temp)"
  using assms
proof (induction "length temp - p" arbitrary: p v thesis)
  case 0
  then show ?case by (intro "0.prems"(1) [of v]) auto
next
  case (Suc n)
  then have p: "p < length temp" and upt: "[p..<length temp] = p # [Suc p..<length temp]"
    by (simp_all add: upt_conv_Cons)
  have n: "n = length temp - Suc p" using Suc(2) by simp
  show ?case
  proof (cases "temp ! p = CHR ''/''")
    case False
    then have d: "\<And>q. q < Suc p \<Longrightarrow> 0 < q \<Longrightarrow> temp ! q = CHR ''/'' \<Longrightarrow> is_dir v (take q temp)"
      using Suc.prems(4) by (metis less_SucE)
    show ?thesis
      by (rule Suc(1) [OF n _ Suc.prems(2,3) d]) (use p False upt in \<open>auto intro: Suc.prems(1)\<close>)
  next
    case True
    have "parent_exists v (take p temp)"
      using Suc.prems(4,6) by (rule parent_exists_prefix)
    then have pe: "is_dir v (take p temp) \<or> parent_exists v (take p temp)" ..
    have ne: "take p temp \<noteq> []" using p Suc.prems(5) by auto
    obtain err w where w: "sys_mkdir True (take p temp) v = (err, w)"
        "err = None \<or> err = Some EEXIST" "is_dir w (take p temp)"
      by (rule sys_mkdir_creates [OF ne Suc.prems(3) [OF Suc.prems(5) p] pe])
    note fr = sys_mkdir_frame [OF w(1)]
    have d: "is_dir w (take q temp)" if "q < Suc p" "0 < q" "temp ! q = CHR ''/''" for q
      using that fr(4) w(3) Suc.prems(4) by (metis less_SucE)
    have nm: "names w (take q temp) = None" if "0 < q" "q < length temp" for q
      using Suc.prems(3) that fr(1) by simp
    show ?thesis
      by (rule Suc(1) [OF n _ Suc.prems(2) nm d]) (use p True upt w Suc.prems(2) in \<open>auto intro: Suc.prems(1)\<close>)
  qed
qed

text \<open>The directory names that \<open>create_directories\<close> works through.\<close>

definition trim_slash :: "string \<Rightarrow> string" where
  "trim_slash p = (if p \<noteq> [] \<and> last p = CHR ''/'' then butlast p else p)"

lemma create_directories_makes:
  assumes "\<And>k. sys_ok e k" and "path \<noteq> []" and "length path < MAX_PATH_LEN" and "trim_slash path \<noteq> []"
    and free: "\<And>q. 0 < q \<Longrightarrow> q \<le> length (trim_slash path) \<Longrightarrow> names v (take q (trim_slash path)) = None"
  obtains w where "create_directories e path v = Some (XDEVICE_OK, w)"
    and "is_dir w (trim_slash path)"
    and "\<And>q. 0 < q \<Longrightarrow> q < length (trim_slash path) \<Longrightarrow> trim_slash path ! q = CHR ''/''
           \<Longrightarrow> is_dir w (take q (trim_slash path))"
proof -
  let ?t = "trim_slash path"
  have cut: "c_strncpy (MAX_PATH_LEN - 1) path = path" using assms(3) by simp
  have t: "(if last path = CHR ''/'' then butlast path else path) = ?t"
    using assms(2) by (simp add: trim_slash_def)
  have l1: "1 \<le> length ?t" using assms(4) by (cases "?t") auto
  obtain u where u: "mkdir_prefixes e ?t [1..<length ?t] v = (True, u)"
      and du: "\<And>q. q < length ?t \<Longrightarrow> 0 < q \<Longrightarrow> ?t ! q = CHR ''/'' \<Longrightarrow> is_dir u (take q ?t)"
    using mkdir_prefixes_creates [of e ?t v 1] assms(1) free l1 by auto
  have nu: "names u ?t = None" using mkdir_prefixes_frame [OF u] free [of "length ?t"] assms(4) by auto
  have pe: "parent_exists u (take (length ?t) ?t)" by (rule parent_exists_prefix) (use du in auto)
  then have pe': "is_dir u ?t \<or> parent_exists u ?t" by simp
  obtain err w where w: "sys_mkdir True ?t u = (err, w)" "err = None \<or> err = Some EEXIST" "is_dir w ?t"
    by (rule sys_mkdir_creates [OF assms(4) nu pe'])
  have "create_directories e path v = Some (XDEVICE_OK, w)"
    unfolding create_directories_def Let_def cut t using assms(1,2) u w(1,2) by simp
  then show thesis
    using w(3) du sys_mkdir_frame(4) [OF w(1)] by (intro that) blast+
qed

section \<open>The descriptor cache\<close>

definition cached :: "local_storage_private \<Rightarrow> nat \<Rightarrow> fd_cache_entry option" where
  "cached priv i = (if i < unat (fd_cache_size priv) then Option.bind (at (fd_cache priv) i) id else None)"

text \<open>The structural invariant: the cache array has its full size, its used part is initialised, with
  distinct names and distinct open descriptors.\<close>

definition local_wf :: "local_storage_private \<Rightarrow> vfs \<Rightarrow> bool" where
  "local_wf priv v \<longleftrightarrow> vfs_wf v \<and> length (fd_cache priv) = unat (max_open_files priv) \<and>
     fd_cache_size priv \<le> max_open_files priv \<and>
     (\<forall>i < unat (fd_cache_size priv). \<exists>en. cached priv i = Some en \<and> fd_file v (c_fd en) \<noteq> None \<and>
        length (c_path en) < MAX_PATH_LEN \<and> (c_ended en \<longleftrightarrow> length (c_path en) < MAX_PATH_LEN - 1)) \<and>
     (\<forall>i j a b. cached priv i = Some a \<longrightarrow> cached priv j = Some b \<longrightarrow>
        c_path a = c_path b \<or> c_fd a = c_fd b \<longrightarrow> i = j)"

lemma local_wfD:
  assumes "local_wf priv v"
  shows "vfs_wf v" and "length (fd_cache priv) = unat (max_open_files priv)"
    and "unat (fd_cache_size priv) \<le> unat (max_open_files priv)"
    and "i < unat (fd_cache_size priv) \<Longrightarrow> \<exists>en. cached priv i = Some en"
    and "cached priv i = Some a \<Longrightarrow> fd_file v (c_fd a) \<noteq> None"
    and "cached priv i = Some a \<Longrightarrow> length (c_path a) < MAX_PATH_LEN"
    and "cached priv i = Some a \<Longrightarrow> c_ended a \<longleftrightarrow> length (c_path a) < MAX_PATH_LEN - 1"
    and "cached priv i = Some a \<Longrightarrow> cached priv j = Some b \<Longrightarrow> c_path a = c_path b \<Longrightarrow> i = j"
    and "cached priv i = Some a \<Longrightarrow> cached priv j = Some b \<Longrightarrow> c_fd a = c_fd b \<Longrightarrow> i = j"
proof -
  have less: "i < unat (fd_cache_size priv)" if "cached priv i = Some a" for i a
    using that by (simp add: cached_def split: if_splits)
  show "vfs_wf v" "length (fd_cache priv) = unat (max_open_files priv)"
      "unat (fd_cache_size priv) \<le> unat (max_open_files priv)"
      "i < unat (fd_cache_size priv) \<Longrightarrow> \<exists>en. cached priv i = Some en"
    using assms by (auto simp: local_wf_def word_le_nat_alt)
  show "cached priv i = Some a \<Longrightarrow> fd_file v (c_fd a) \<noteq> None"
      "cached priv i = Some a \<Longrightarrow> length (c_path a) < MAX_PATH_LEN"
      "cached priv i = Some a \<Longrightarrow> c_ended a \<longleftrightarrow> length (c_path a) < MAX_PATH_LEN - 1"
    using assms less [of i a] by (auto simp: local_wf_def)
  show "cached priv i = Some a \<Longrightarrow> cached priv j = Some b \<Longrightarrow> c_path a = c_path b \<Longrightarrow> i = j"
      "cached priv i = Some a \<Longrightarrow> cached priv j = Some b \<Longrightarrow> c_fd a = c_fd b \<Longrightarrow> i = j"
    using assms by (auto simp: local_wf_def)
qed

lemma local_wf_open_files:
  assumes "local_wf priv v" and "vfs_wf w" and "\<And>fd. fd_file v fd \<noteq> None \<Longrightarrow> fd_file w fd \<noteq> None"
  shows "local_wf priv w"
  using assms unfolding local_wf_def by meson

text \<open>What the search of the cache finds.\<close>

lemma cache_find_spec:
  assumes "\<And>i. i \<in> set is \<Longrightarrow> i < length cache \<and> cache ! i \<noteq> None"
  shows "cache_find cache path is =
    (case List.find (\<lambda>i. c_path (the (cache ! i)) = path) is of
       None \<Rightarrow> Some None
     | Some i \<Rightarrow> if c_ended (the (cache ! i)) then Some (Some i) else None)"
  using assms
proof (induction "is")
  case (Cons i "is")
  then obtain en where "i < length cache" "cache ! i = Some en" by auto
  with Cons show ?case by simp
qed simp

definition cache_index :: "local_storage_private \<Rightarrow> string \<Rightarrow> nat option" where
  "cache_index priv path =
     List.find (\<lambda>i. map_option c_path (cached priv i) = Some path) [0..<unat (fd_cache_size priv)]"

lemma cache_index_Some:
  "cache_index priv path = Some i \<Longrightarrow> \<exists>en. cached priv i = Some en \<and> c_path en = path"
  by (auto simp: cache_index_def find_Some_iff)

lemma cache_index_None:
  "cache_index priv path = None \<Longrightarrow> cached priv i = Some en \<Longrightarrow> c_path en \<noteq> path"
  by (auto simp: cache_index_def find_None_iff cached_def split: if_splits)

lemma cache_find_index:
  assumes wf: "local_wf priv v" and len: "length path < MAX_PATH_LEN"
  shows "cache_find (fd_cache priv) path [0..<unat (fd_cache_size priv)] =
    (if cache_index priv path \<noteq> None \<and> MAX_PATH_LEN - 1 \<le> length path then None else Some (cache_index priv path))"
proof -
  have init: "i < length (fd_cache priv) \<and> fd_cache priv ! i \<noteq> None \<and> cached priv i = fd_cache priv ! i"
    if "i \<in> set [0..<unat (fd_cache_size priv)]" for i
    using local_wfD(4) [OF wf, of i] that by (auto simp: cached_def bind_eq_Some_conv)
  have "List.find (\<lambda>i. c_path (the (fd_cache priv ! i)) = path) [0..<unat (fd_cache_size priv)] =
      cache_index priv path"
    unfolding cache_index_def using init by (intro find_cong) force+
  moreover have "c_ended (the (fd_cache priv ! i)) \<longleftrightarrow> length path < MAX_PATH_LEN - 1"
    if "cache_index priv path = Some i" for i
  proof -
    from cache_index_Some [OF that] obtain en where en: "cached priv i = Some en" "c_path en = path" by blast
    then have "i \<in> set [0..<unat (fd_cache_size priv)]" by (auto simp: cached_def split: if_splits)
    then show ?thesis using init [of i] en local_wfD(7) [OF wf en(1)] by auto
  qed
  ultimately show ?thesis using init by (subst cache_find_spec) (auto split: option.splits)
qed

abbreviation open_mode :: "local_storage_private \<Rightarrow> open_flags \<Rightarrow> open_flags" where
  "open_mode priv fl \<equiv> fl\<lparr>f_direct := f_direct fl \<or> use_odirect priv, f_sync := f_sync fl \<or> use_osync priv\<rparr>"

text \<open>An old entry that was used again, and a new entry.\<close>

definition touch :: "u64 \<Rightarrow> nat \<Rightarrow> fd_cache_entry \<Rightarrow> local_storage_private \<Rightarrow> local_storage_private" where
  "touch tm i en priv = priv\<lparr>fd_cache := (fd_cache priv)[i := Some (en\<lparr>c_last_access := tm\<rparr>)]\<rparr>"

definition remember :: "u64 \<Rightarrow> string \<Rightarrow> nat \<Rightarrow> local_storage_private \<Rightarrow> local_storage_private" where
  "remember tm path fd priv = priv\<lparr>fd_cache := (fd_cache priv)[unat (fd_cache_size priv) := Some (cache_entry tm path fd)],
     fd_cache_size := fd_cache_size priv + 1\<rparr>"

lemma get_file_descriptor_eq:
  assumes wf: "local_wf priv v" and len: "length path < MAX_PATH_LEN"
  shows "get_file_descriptor e priv v path fl =
    (case cache_index priv path of
       Some i \<Rightarrow>
         if length path < MAX_PATH_LEN - 1
         then Some (map_option c_fd (cached priv i), touch (now e) i (the (cached priv i)) priv, v) else None
     | None \<Rightarrow>
         (case sys_open (sys_ok e 0) (now e) path (open_mode priv fl) v of
            (Inl _, w) \<Rightarrow> Some (None, priv, w)
          | (Inr fd, w) \<Rightarrow>
              Some (Some fd, if fd_cache_size priv < max_open_files priv then remember (now e) path fd priv else priv, w)))"
proof (cases "cache_index priv path")
  case None
  then show ?thesis
    using cache_find_index [OF wf len] local_wfD(2) [OF wf]
    by (auto simp: get_file_descriptor_def remember_def word_less_nat_alt Let_def split: prod.splits sum.splits)
next
  case (Some i)
  then obtain en where en: "cached priv i = Some en" "c_path en = path" using cache_index_Some by blast
  then have "i < length (fd_cache priv)" "fd_cache priv ! i = Some en"
    by (auto simp: cached_def bind_eq_Some_conv split: if_splits)
  then show ?thesis
    using Some en cache_find_index [OF wf len] by (auto simp: get_file_descriptor_def touch_def)
qed

lemma cached_touch:
  assumes "cached priv i = Some en"
  shows "cached (touch tm i en priv) j = (if j = i then Some (en\<lparr>c_last_access := tm\<rparr>) else cached priv j)"
  using assms by (auto simp: cached_def touch_def bind_eq_Some_conv at_def split: if_splits)

lemma unat_Suc_below:
  fixes a b :: "'a::len word"
  assumes "a < b"
  shows "unat (a + 1) = Suc (unat a)"
proof (rule unat_Suc_no_wrap)
  have "unat a < unat b" using assms by (simp add: word_less_nat_alt)
  moreover have "unat b < 2 ^ LENGTH('a)" by (rule unsigned_less)
  ultimately show "Suc (unat a) < 2 ^ LENGTH('a)" by linarith
qed

lemma cached_remember:
  assumes "local_wf priv v" and "fd_cache_size priv < max_open_files priv"
  shows "cached (remember tm path fd priv) j =
    (if j = unat (fd_cache_size priv) then Some (cache_entry tm path fd) else cached priv j)"
proof -
  have "unat (fd_cache_size priv) < unat (max_open_files priv)" using assms(2) by (simp add: word_less_nat_alt)
  moreover have "unat (fd_cache_size priv + 1) = Suc (unat (fd_cache_size priv))"
    by (rule unat_Suc_below [OF assms(2)])
  ultimately show ?thesis
    using local_wfD(2) [OF assms(1)] by (auto simp: cached_def remember_def at_def less_Suc_eq)
qed

lemma local_wf_touch: "local_wf priv v \<Longrightarrow> cached priv i = Some en \<Longrightarrow> local_wf (touch tm i en priv) v"
  using cached_touch [of priv i en tm] unfolding local_wf_def
  by (auto simp: touch_def split: if_splits)

lemma local_wf_remember:
  assumes wf: "local_wf priv v" and room: "fd_cache_size priv < max_open_files priv" and len: "length path < MAX_PATH_LEN"
    and new: "cache_index priv path = None" and fresh: "fd_file v fd = None"
    and w: "vfs_wf w" "fd_file w = (fd_file v)(fd \<mapsto> f)"
  shows "local_wf (remember tm path fd priv) w"
proof -
  note c = cached_remember [OF wf room, of tm path fd]
  have less: "unat (fd_cache_size priv) < unat (max_open_files priv)" using room by (simp add: word_less_nat_alt)
  have suc: "unat (fd_cache_size priv + 1) = Suc (unat (fd_cache_size priv))"
    by (rule unat_Suc_below [OF room])
  have en: "c_path (cache_entry tm path fd) = path" "c_fd (cache_entry tm path fd) = fd"
      "c_ended (cache_entry tm path fd) \<longleftrightarrow> length path < MAX_PATH_LEN - 1"
    using len by (simp_all add: cache_entry_def)
  have old: "c_path a \<noteq> path" "c_fd a \<noteq> fd" if "cached priv i = Some a" for i a
    using cache_index_None [OF new that] local_wfD(5) [OF wf that] fresh by auto
  show ?thesis
    unfolding local_wf_def
  proof (intro conjI allI impI)
    show "vfs_wf w" by (rule w)
    show "length (fd_cache (remember tm path fd priv)) = unat (max_open_files (remember tm path fd priv))"
      using local_wfD(2) [OF wf] by (simp add: remember_def)
    show "fd_cache_size (remember tm path fd priv) \<le> max_open_files (remember tm path fd priv)"
      using less suc by (simp add: remember_def word_le_nat_alt)
  next
    fix i assume "i < unat (fd_cache_size (remember tm path fd priv))"
    then have i: "i = unat (fd_cache_size priv) \<or> i < unat (fd_cache_size priv)"
      by (auto simp: remember_def suc)
    show "\<exists>en. cached (remember tm path fd priv) i = Some en \<and> fd_file w (c_fd en) \<noteq> None \<and>
        length (c_path en) < MAX_PATH_LEN \<and> (c_ended en \<longleftrightarrow> length (c_path en) < MAX_PATH_LEN - 1)"
    proof (cases "i = unat (fd_cache_size priv)")
      case True
      then show ?thesis using en len w(2) by (simp add: c)
    next
      case False
      with i local_wfD(4) [OF wf] obtain a where a: "cached priv i = Some a" by blast
      then show ?thesis using False local_wfD(5,6,7) [OF wf a] w(2) by (simp add: c)
    qed
  next
    fix i j a b assume "cached (remember tm path fd priv) i = Some a" "cached (remember tm path fd priv) j = Some b"
      and "c_path a = c_path b \<or> c_fd a = c_fd b"
    then show "i = j"
      using en(1,2) old [of i a] old [of j b] local_wfD(8,9) [OF wf, of i a j b] by (auto simp: c split: if_splits)
  qed
qed

text \<open>What one call leaves in place: the entries of the cache with their names and descriptors, and the
  open files with their inode and access mode.\<close>

definition cache_kept :: "local_storage_private \<Rightarrow> local_storage_private \<Rightarrow> bool" where
  "cache_kept a b \<longleftrightarrow> base_path b = base_path a \<and> max_open_files b = max_open_files a \<and>
     (\<forall>i en. cached a i = Some en \<longrightarrow> (\<exists>en'. cached b i = Some en' \<and> c_path en' = c_path en \<and> c_fd en' = c_fd en))"

definition fds_kept :: "vfs \<Rightarrow> vfs \<Rightarrow> bool" where
  "fds_kept v w \<longleftrightarrow> (\<forall>fd f. fd_file v fd = Some f \<longrightarrow>
     (\<exists>g. fd_file w fd = Some g \<and> o_inode g = o_inode f \<and> o_rd g = o_rd f \<and> o_wr g = o_wr f))"

lemma cache_kept_refl [simp]: "cache_kept a a"
  by (simp add: cache_kept_def)

lemma cache_kept_trans: "cache_kept a b \<Longrightarrow> cache_kept b c \<Longrightarrow> cache_kept a c"
  unfolding cache_kept_def by metis

lemma fds_kept_trans: "fds_kept u v \<Longrightarrow> fds_kept v w \<Longrightarrow> fds_kept u w"
  unfolding fds_kept_def by metis

lemma fds_kept_same: "fd_file w = fd_file v \<Longrightarrow> fds_kept v w"
  by (simp add: fds_kept_def)

lemma fds_kept_new: "fd_file v fd = None \<Longrightarrow> fd_file w = (fd_file v)(fd \<mapsto> f) \<Longrightarrow> fds_kept v w"
  by (auto simp: fds_kept_def)

lemma fds_kept_modes:
  assumes "map_option o_inode \<circ> fd_file w = map_option o_inode \<circ> fd_file v"
    and "map_option o_wr \<circ> fd_file w = map_option o_wr \<circ> fd_file v"
    and "map_option o_rd \<circ> fd_file w = map_option o_rd \<circ> fd_file v"
  shows "fds_kept v w"
  unfolding fds_kept_def
proof (intro allI impI)
  fix fd f assume f: "fd_file v fd = Some f"
  have "map_option o_inode (fd_file w fd) = Some (o_inode f)" "map_option o_wr (fd_file w fd) = Some (o_wr f)"
      "map_option o_rd (fd_file w fd) = Some (o_rd f)"
    using assms [THEN fun_cong, of fd] f by simp_all
  then show "\<exists>g. fd_file w fd = Some g \<and> o_inode g = o_inode f \<and> o_rd g = o_rd f \<and> o_wr g = o_wr f" by auto
qed

lemma local_wf_kept: "local_wf priv v \<Longrightarrow> vfs_wf w \<Longrightarrow> fds_kept v w \<Longrightarrow> local_wf priv w"
  by (erule local_wf_open_files) (auto simp: fds_kept_def)

end
