(* ===== verification/XD_LocalSession.thy ===== *)
theory XD_LocalSession
  imports XD_Local
begin

text \<open>
  The local file-system backend over time: every operation keeps the invariant of the descriptor cache,
  what a write and a read do to the files, the access mode that a cached name is stuck with, and the
  properties of the backend.
\<close>

section \<open>Every operation keeps the invariant\<close>

definition local_moves :: "local_storage_private \<times> vfs \<Rightarrow> local_storage_private \<times> vfs \<Rightarrow> bool" where
  "local_moves x y \<longleftrightarrow> local_wf (fst y) (snd y) \<and> cache_kept (fst x) (fst y) \<and> fds_kept (snd x) (snd y)"

lemma local_movesI:
  "local_wf b w \<Longrightarrow> cache_kept a b \<Longrightarrow> fds_kept v w \<Longrightarrow> local_moves (a, v) (b, w)"
  by (simp add: local_moves_def)

lemma local_moves_trans: "local_moves x y \<Longrightarrow> local_moves y z \<Longrightarrow> local_moves x z"
  unfolding local_moves_def using cache_kept_trans fds_kept_trans by blast

lemma local_moves_refl: "local_wf a v \<Longrightarrow> local_moves (a, v) (a, v)"
  by (intro local_movesI fds_kept_same) auto

lemma cached_stats [simp]: "cached (p\<lparr>lstats := s\<rparr>) = cached p"
  by (simp add: fun_eq_iff cached_def)

lemma local_wf_stats [simp]: "local_wf (p\<lparr>lstats := s\<rparr>) v = local_wf p v"
  by (simp add: local_wf_def)

lemma local_moves_stats: "local_wf p v \<Longrightarrow> local_moves (p, v) (p\<lparr>lstats := s\<rparr>, v)"
  by (intro local_movesI fds_kept_same) (auto simp: cache_kept_def)

lemma local_moves_io:
  assumes "local_wf p v"
  shows "sys_lseek ok fd off v = (pos, w) \<Longrightarrow> local_moves (p, v) (p, w)"
    and "sys_read ok fd sz v = (got, w) \<Longrightarrow> local_moves (p, v) (p, w)"
    and "sys_write ok tm fd src sz v = (n, w) \<Longrightarrow> local_moves (p, v) (p, w)"
  using assms local_wfD(1) [OF assms] sys_lseek_frame [of ok fd off v pos w] sys_read_frame [of ok fd sz v got w]
    sys_write_frame [of ok tm fd src sz v n w] sys_io_wf(1) [of ok fd off v pos w]
  by (auto intro!: local_movesI fds_kept_modes local_wf_kept [of p v] dest: sys_io_wf(2,3))

lemma make_parents_moves:
  assumes "make_parents e p v = Some w" and "local_wf priv v"
  shows "local_moves (priv, v) (priv, w)"
proof -
  note fr = make_parents_frame [OF assms(1)]
  have "fd_file w = fd_file v" by (rule fd_file_cong [OF fr(3)])
  then show ?thesis
    using assms(2) fr(5) local_wfD(1) [OF assms(2)]
    by (intro local_movesI local_wf_kept [OF assms(2)] fds_kept_same) auto
qed

lemma sys_open_kept:
  assumes "sys_open ok tm p fl v = (Inr fd, w)" and "vfs_wf v"
  obtains f where "fd_file v fd = None" and "fd_file w = (fd_file v)(fd \<mapsto> f)"
    and "o_rd f = f_rd fl" and "o_wr f = f_wr fl" and "vfs_wf w"
proof -
  have wf: "vfs_wf w" by (rule sys_open_wf [OF assms])
  show thesis
  proof (cases "is_dir v p")
    case True
    from assms(1) True show ?thesis
      by (rule sys_open_dirE) (rule that, auto simp: open_at_def wf)
  next
    case False
    from assms(1) False assms(2) show ?thesis
      by (rule sys_open_fileE) (rule that, auto simp: open_at_def wf)+
  qed
qed

lemma touch_remember_config [simp]:
  "base_path (touch tm i en priv) = base_path priv" "max_open_files (touch tm i en priv) = max_open_files priv"
  "base_path (remember tm path fd priv) = base_path priv" "max_open_files (remember tm path fd priv) = max_open_files priv"
  by (simp_all add: touch_def remember_def)

lemma touch_moves:
  assumes "local_wf priv v" and "cached priv i = Some en"
  shows "local_moves (priv, v) (touch tm i en priv, v)"
  using local_wf_touch [OF assms] cached_touch [OF assms(2)] assms(2)
  by (intro local_movesI fds_kept_same) (auto simp: cache_kept_def)

lemma cache_kept_remember:
  assumes "local_wf priv v" and "fd_cache_size priv < max_open_files priv"
  shows "cache_kept priv (remember tm path fd priv)"
  using cached_remember [OF assms, of tm path fd]
  by (auto simp: cache_kept_def cached_def [of priv] split: if_splits)

lemma get_file_descriptor_moves:
  assumes run: "get_file_descriptor e priv v path fl = Some (r, priv', w)"
    and wf: "local_wf priv v" and len: "length path < MAX_PATH_LEN"
  shows "local_moves (priv, v) (priv', w)"
proof (cases "cache_index priv path")
  case (Some i)
  then obtain en where en: "cached priv i = Some en" using cache_index_Some by blast
  then show ?thesis
    using run touch_moves [OF wf en] by (auto simp: get_file_descriptor_eq [OF wf len] Some split: if_splits)
next
  case None
  obtain res u where u: "sys_open (sys_ok e 0) (now e) path (open_mode priv fl) v = (res, u)" by fastforce
  show ?thesis
  proof (cases res)
    case (Inl err)
    then show ?thesis
      using run u sys_open_failed [of "sys_ok e 0" "now e" path "open_mode priv fl" v err u] local_moves_refl [OF wf]
      by (auto simp: get_file_descriptor_eq [OF wf len] None)
  next
    case (Inr fd)
    have w: "w = u" and p': "priv' = (if fd_cache_size priv < max_open_files priv then remember (now e) path fd priv else priv)"
      using run u Inr by (auto simp: get_file_descriptor_eq [OF wf len] None)
    obtain f where f: "fd_file v fd = None" "fd_file u = (fd_file v)(fd \<mapsto> f)" "vfs_wf u"
      by (rule sys_open_kept [OF u [unfolded Inr] local_wfD(1) [OF wf]])
    have "local_wf priv' u"
      using local_wf_remember [OF wf _ len None f(1,3,2)] local_wf_kept [OF wf f(3) fds_kept_new [OF f(1,2)]]
      by (simp add: p')
    moreover have "cache_kept priv priv'"
      using cache_kept_remember [OF wf, of "now e" path fd] by (simp add: p')
    ultimately show ?thesis
      using fds_kept_new [OF f(1,2)] by (simp add: w local_moves_def)
  qed
qed

text \<open>The interface object with the private part \<open>a\<close> becomes one with \<open>b\<close>.\<close>

definition obj_moves :: "local_iface option \<Rightarrow> vfs \<Rightarrow> local_iface option \<Rightarrow> vfs \<Rightarrow> bool" where
  "obj_moves i v j w \<longleftrightarrow> (\<exists>a b. priv_of i = Some a \<and> j = set_priv (Some b) i \<and> local_moves (a, v) (b, w))"

lemma obj_movesI: "priv_of i = Some a \<Longrightarrow> local_moves (a, v) (b, w) \<Longrightarrow> obj_moves i v (set_priv (Some b) i) w"
  by (auto simp: obj_moves_def)

lemma set_priv_same: "priv_of i = Some a \<Longrightarrow> set_priv (Some a) i = i"
  by (cases i) auto

lemma obj_moves_same: "priv_of i = Some a \<Longrightarrow> local_moves (a, v) (a, w) \<Longrightarrow> obj_moves i v i w"
  using obj_movesI [of i a v a w] by (simp add: set_priv_same)

lemma read_moves:
  assumes run: "local_storage_read_sync e v i p off buf sz = Some (ret, out, j, w)"
    and a: "priv_of i = Some a" and wf: "local_wf a v"
  shows "obj_moves i v j w"
proof (cases "p = None \<or> buf = None \<or> sz = 0")
  case True
  then have "j = i" "w = v" using run a by (auto simp: local_storage_read_sync_def split: option.splits)
  then show ?thesis using obj_moves_same [OF a local_moves_refl [OF wf]] by simp
next
  case False
  then obtain q b where q: "p = Some q" "buf = Some b" "sz \<noteq> 0" by auto
  let ?full = "build_file_path (base_path a) q MAX_PATH_LEN"
  obtain fd a1 v1 where g: "get_file_descriptor e a v ?full O_RDONLY = Some (fd, a1, v1)"
    using run a q by (auto simp: local_storage_read_sync_def bind_eq_Some_conv)
  have m1: "local_moves (a, v) (a1, v1)" by (rule get_file_descriptor_moves [OF g wf length_build_file_path])
  show ?thesis
  proof (cases fd)
    case None
    then show ?thesis using run a q g m1 by (auto simp: local_storage_read_sync_def intro: obj_movesI)
  next
    case (Some k)
    obtain pos v2 where s: "sys_lseek (sys_ok e 6) k off v1 = (pos, v2)" by fastforce
    obtain got v3 where r: "sys_read (sys_ok e 1) k sz v2 = (got, v3)" by fastforce
    have wf1: "local_wf a1 v1" using m1 by (simp add: local_moves_def)
    have m2: "local_moves (a, v) (a1, v2)" using m1 local_moves_io(1) [OF wf1 s] by (rule local_moves_trans)
    have wf2: "local_wf a1 v2" using m2 by (simp add: local_moves_def)
    have m3: "local_moves (a, v) (a1, v3)" using m2 local_moves_io(2) [OF wf2 r] by (rule local_moves_trans)
    have m4: "local_moves (a, v) (a1\<lparr>lstats := st\<rparr>, v3)" for st
      using m3 local_moves_stats [of a1 v3 st] by (auto simp: local_moves_def intro: cache_kept_trans fds_kept_trans)
    show ?thesis
      using run a q g Some s r m2 m3 m4
      by (auto simp: local_storage_read_sync_def bind_eq_Some_conv Let_def split: if_splits intro!: obj_movesI)
  qed
qed

lemma write_moves:
  assumes run: "local_storage_write_sync e v i p off d sz = Some (ret, j, w)"
    and a: "priv_of i = Some a" and wf: "local_wf a v"
  shows "obj_moves i v j w"
proof (cases "p = None \<or> d = None \<or> sz = 0")
  case True
  then have "j = i" "w = v" using run a by (auto simp: local_storage_write_sync_def split: option.splits)
  then show ?thesis using obj_moves_same [OF a local_moves_refl [OF wf]] by simp
next
  case False
  then obtain q b where q: "p = Some q" "d = Some b" "sz \<noteq> 0" by auto
  let ?full = "build_file_path (base_path a) q MAX_PATH_LEN"
  obtain v0 fd a1 v1 where mp: "make_parents e ?full v = Some v0"
      and g: "get_file_descriptor e a v0 ?full (O_WRONLY\<lparr>f_creat := True\<rparr>) = Some (fd, a1, v1)"
    using run a q by (auto simp: local_storage_write_sync_def bind_eq_Some_conv Let_def)
  have m0: "local_moves (a, v) (a, v0)" by (rule make_parents_moves [OF mp wf])
  then have wf0: "local_wf a v0" by (simp add: local_moves_def)
  have m1: "local_moves (a, v) (a1, v1)"
    using m0 get_file_descriptor_moves [OF g wf0 length_build_file_path] by (rule local_moves_trans)
  show ?thesis
  proof (cases fd)
    case None
    then show ?thesis using run a q mp g m1 by (auto simp: local_storage_write_sync_def Let_def intro: obj_movesI)
  next
    case (Some k)
    obtain pos v2 where s: "sys_lseek (sys_ok e 6) k off v1 = (pos, v2)" by fastforce
    have wf1: "local_wf a1 v1" using m1 by (simp add: local_moves_def)
    have m2: "local_moves (a, v) (a1, v2)" using m1 local_moves_io(1) [OF wf1 s] by (rule local_moves_trans)
    have wf2: "local_wf a1 v2" using m2 by (simp add: local_moves_def)
    have m3: "local_moves (a, v) (a1, snd (sys_write ok tm k src sz v2))" for ok tm src
      using m2 local_moves_io(3) [OF wf2 surjective_pairing] by (rule local_moves_trans)
    have m4: "local_moves (a, v) (a1\<lparr>lstats := st\<rparr>, u)" if "local_moves (a, v) (a1, u)" for st u
      using that local_moves_stats [of a1 u st] by (auto simp: local_moves_def intro: cache_kept_trans fds_kept_trans)
    show ?thesis
      using run a q mp g Some s m2 m3 m4
      by (auto simp: local_storage_write_sync_def bind_eq_Some_conv Let_def case_prod_beta split: if_splits intro!: obj_movesI)
  qed
qed

lemma fsync_moves:
  assumes run: "local_storage_fsync e v i p = Some (ret, j, w)" and a: "priv_of i = Some a" and wf: "local_wf a v"
  shows "obj_moves i v j w"
proof (cases p)
  case None
  then show ?thesis
    using run a obj_moves_same [OF a local_moves_refl [OF wf]] by (auto simp: local_storage_fsync_def)
next
  case (Some q)
  then show ?thesis
    using run a
    by (auto simp: local_storage_fsync_def bind_eq_Some_conv
        intro!: obj_movesI get_file_descriptor_moves [OF _ wf length_build_file_path])
qed

lemma unlink_moves:
  assumes "sys_unlink ok p v = (err, w)" and "local_wf a v"
  shows "local_moves (a, v) (a, w)"
proof -
  note fr = sys_unlink_frame [OF assms(1)]
  show ?thesis
    using assms(2) fr(3) sys_unlink_wf [OF assms(1) local_wfD(1) [OF assms(2)]]
    by (intro local_movesI local_wf_kept [OF assms(2)] fds_kept_same) auto
qed

lemma delete_moves:
  assumes run: "local_storage_delete_file e v i p = (ret, w)" and a: "priv_of i = Some a" and wf: "local_wf a v"
  shows "obj_moves i v i w"
  using run a unlink_moves [OF _ wf] local_moves_refl [OF wf]
  by (auto simp: local_storage_delete_file_def split: option.splits prod.splits intro!: obj_moves_same)

text \<open>A descriptor that is opened and closed within a call leaves the others as they were.\<close>

lemma open_close_fds:
  assumes "fd_file v fd = None" and "fd_file u = (fd_file v)(fd \<mapsto> f)" and "fd_file x = fd_file u"
  shows "fd_file (sys_close fd x) = fd_file v"
  using assms by (auto simp: sys_close_frame fun_eq_iff)

lemma create_moves:
  assumes run: "local_storage_create_file e v i p n = Some (ret, j, w)" and a: "priv_of i = Some a" and wf: "local_wf a v"
  shows "obj_moves i v j w"
proof (cases p)
  case None
  then show ?thesis
    using run a obj_moves_same [OF a local_moves_refl [OF wf]] by (auto simp: local_storage_create_file_def)
next
  case (Some q)
  let ?full = "build_file_path (base_path a) q MAX_PATH_LEN"
  obtain v0 where mp: "make_parents e ?full v = Some v0"
    using run a Some by (auto simp: local_storage_create_file_def bind_eq_Some_conv Let_def)
  have m0: "local_moves (a, v) (a, v0)" by (rule make_parents_moves [OF mp wf])
  then have wf0: "local_wf a v0" by (simp add: local_moves_def)
  obtain res u where o: "sys_open (sys_ok e 0) (now e) ?full (O_WRONLY\<lparr>f_creat := True, f_excl := True\<rparr>) v0 = (res, u)"
    by fastforce
  show ?thesis
  proof (cases res)
    case (Inl err)
    then have "u = v0" using o sys_open_failed by fastforce
    then show ?thesis
      using run a Some mp o Inl m0 by (auto simp: local_storage_create_file_def Let_def intro!: obj_moves_same)
  next
    case (Inr fd)
    obtain f where f: "fd_file v0 fd = None" "fd_file u = (fd_file v0)(fd \<mapsto> f)" "vfs_wf u"
      by (rule sys_open_kept [OF o [unfolded Inr] local_wfD(1) [OF wf0]])
    have close: "local_moves (a, v) (a, sys_close fd x)" if "fd_file x = fd_file u" "vfs_wf x" for x
      using m0 local_wf_kept [OF wf0 sys_close_wf [OF that(2)] fds_kept_same [OF open_close_fds [OF f(1,2) that(1)]]]
        fds_kept_same [OF open_close_fds [OF f(1,2) that(1)]]
      by (auto simp: local_moves_def intro: fds_kept_trans)
    obtain ok x where t: "sys_ftruncate (sys_ok e 3) (now e) fd n u = (ok, x)" by fastforce
    have x: "local_moves (a, v) (a, sys_close fd x)" "local_moves (a, v) (a, sys_close fd u)"
      using close sys_ftruncate_frame(4) [OF t] sys_ftruncate_wf [OF t f(3)] f(3) by auto
    have ul: "local_moves (a, v) (a, snd (sys_unlink okk pp (sys_close fd x)))" for okk pp
      using x(1) unlink_moves [of okk pp "sys_close fd x" "fst (sys_unlink okk pp (sys_close fd x))"]
      by (auto simp: local_moves_def intro: fds_kept_trans)
    show ?thesis
      using run a Some mp o Inr t x ul
      by (auto simp: local_storage_create_file_def Let_def split: if_splits bool.splits intro!: obj_moves_same)
  qed
qed

section \<open>Sessions\<close>

text \<open>The operations of an initialised backend, and the states that an interface object goes through
  from its creation on.\<close>

inductive local_op :: "local_iface option \<times> vfs \<Rightarrow> local_iface option \<times> vfs \<Rightarrow> bool" where
  op_read: "local_storage_read_sync e v i p off buf sz = Some (ret, out, j, w) \<Longrightarrow> local_op (i, v) (j, w)"
| op_write: "local_storage_write_sync e v i p off d sz = Some (ret, j, w) \<Longrightarrow> local_op (i, v) (j, w)"
| op_fsync: "local_storage_fsync e v i p = Some (ret, j, w) \<Longrightarrow> local_op (i, v) (j, w)"
| op_create: "local_storage_create_file e v i p n = Some (ret, j, w) \<Longrightarrow> local_op (i, v) (j, w)"
| op_delete: "local_storage_delete_file e v i p = (ret, w) \<Longrightarrow> local_op (i, v) (i, w)"
| op_reset: "local_storage_reset_stats i = (ret, j) \<Longrightarrow> local_op (i, v) (j, v)"

inductive local_reachable :: "local_iface option \<times> vfs \<Rightarrow> bool" where
  created: "vfs_wf v \<Longrightarrow> local_reachable (Some (self_of local_table), v)"
| init: "local_reachable (i, v) \<Longrightarrow> local_storage_init e v i config = Some (ret, j, w) \<Longrightarrow> local_reachable (j, w)"
| operate: "local_reachable x \<Longrightarrow> local_op x y \<Longrightarrow> local_reachable y"
| cleanup: "local_reachable (i, v) \<Longrightarrow> local_storage_cleanup v i = Some (ret, j, w) \<Longrightarrow> local_reachable (j, w)"

definition local_inv :: "local_iface option \<times> vfs \<Rightarrow> bool" where
  "local_inv x \<longleftrightarrow> vfs_wf (snd x) \<and> (\<forall>a. priv_of (fst x) = Some a \<longrightarrow> local_wf a (snd x))"

lemma local_op_moves:
  assumes "local_op x y" and "priv_of (fst x) = Some a" and "local_wf a (snd x)"
  shows "obj_moves (fst x) (snd x) (fst y) (snd y)"
  using assms
proof (induction rule: local_op.induct)
  case (op_reset i ret j v)
  then show ?case
    using obj_movesI [OF _ local_moves_stats] by (auto simp: local_storage_reset_stats_def)
qed (auto intro: read_moves write_moves fsync_moves create_moves delete_moves)

text \<open>Without private data every operation is refused.\<close>

lemma local_op_uninit: "local_op x y \<Longrightarrow> priv_of (fst x) = None \<Longrightarrow> y = x"
  by (induction rule: local_op.induct)
     (auto simp: local_storage_read_sync_def local_storage_write_sync_def local_storage_fsync_def
        local_storage_create_file_def local_storage_delete_file_def local_storage_reset_stats_def)

lemma local_op_inv:
  assumes "local_op x y" and "local_inv x"
  shows "local_inv y"
proof (cases "priv_of (fst x)")
  case None
  then show ?thesis using local_op_uninit [OF assms(1)] assms(2) by simp
next
  case (Some a)
  then have wf: "local_wf a (snd x)" using assms(2) by (simp add: local_inv_def)
  from local_op_moves [OF assms(1) Some wf] obtain b where
      "fst y = set_priv (Some b) (fst x)" and "local_moves (a, snd x) (b, snd y)"
    using Some by (auto simp: obj_moves_def)
  then show ?thesis
    using Some by (auto simp: local_inv_def local_moves_def priv_of_set_priv dest: local_wfD(1))
qed

lemma default_private_wf: "vfs_wf v \<Longrightarrow> local_wf (local_default_private base) v"
  by (auto simp: local_wf_def local_default_private_def cached_def)

text \<open>A call of \<open>local_storage_init\<close> changes directories only, and installs fresh private data when it
  succeeds.\<close>

lemma init_frame:
  assumes "local_storage_init e v i config = Some (ret, j, w)"
  shows "names w = names v" and "inodes w = inodes v" and "open_files w = open_files v" and "vfs_wf v \<Longrightarrow> vfs_wf w"
    and "ret \<noteq> XDEVICE_OK \<Longrightarrow> j = i"
    and "ret = XDEVICE_OK \<Longrightarrow> j = set_priv (Some (local_default_private
           (case config of Some c \<Rightarrow> c_strncpy (MAX_PATH_LEN - 1) c | None \<Rightarrow> ''/tmp/xdevice''))) i \<and> i \<noteq> None"
proof -
  define base where b: "base = (case config of Some c \<Rightarrow> c_strncpy (MAX_PATH_LEN - 1) c | None \<Rightarrow> ''/tmp/xdevice'')"
  have run: "(ret, j, w) = (XDEVICE_ERROR_INVALID_PARAM, i, v) \<or> (ret, j, w) = (XDEVICE_ERROR_OUT_OF_MEMORY, i, v) \<or>
      (\<exists>r. create_directories e base v = Some (r, w)) \<and>
      (ret \<noteq> XDEVICE_OK \<and> j = i \<or> ret = XDEVICE_OK \<and> j = set_priv (Some (local_default_private base)) i \<and> i \<noteq> None)"
    using assms unfolding local_storage_init_def b [symmetric] Let_def
    by (cases i) (auto simp: bind_eq_Some_conv split: if_splits)
  then have "w = v \<or> (\<exists>r. create_directories e base v = Some (r, w))" by blast
  then show "names w = names v" "inodes w = inodes v" "open_files w = open_files v" "vfs_wf v \<Longrightarrow> vfs_wf w"
    by (auto dest: create_directories_frame)
  show "ret \<noteq> XDEVICE_OK \<Longrightarrow> j = i" using run by auto
  show "ret = XDEVICE_OK \<Longrightarrow> j = set_priv (Some (local_default_private (case config of
      Some c \<Rightarrow> c_strncpy (MAX_PATH_LEN - 1) c | None \<Rightarrow> ''/tmp/xdevice''))) i \<and> i \<noteq> None"
    using run unfolding b by blast
qed

lemma close_cached_spec:
  assumes "\<And>i. i \<in> set is \<Longrightarrow> \<exists>en. cached a i = Some en"
  obtains w where "close_cached (fd_cache a) is v = Some w"
    and "fd_file w = (\<lambda>fd. if \<exists>i \<in> set is. \<exists>en. cached a i = Some en \<and> c_fd en = fd then None else fd_file v fd)"
    and "names w = names v" and "dirs w = dirs v" and "inodes w = inodes v" and "vfs_wf v \<Longrightarrow> vfs_wf w"
  using assms
proof (induction "is" arbitrary: v thesis)
  case Nil
  then show ?case by (intro Nil.prems(1) [of v]) auto
next
  case (Cons i "is")
  from Cons.prems(2) [of i] obtain en where en: "cached a i = Some en" by auto
  then have at: "at (fd_cache a) i = Some (Some en)"
    by (auto simp: cached_def bind_eq_Some_conv split: if_splits)
  let ?u = "sys_close (c_fd en) v"
  obtain w where w: "close_cached (fd_cache a) is ?u = Some w"
      "fd_file w = (\<lambda>fd. if \<exists>i \<in> set is. \<exists>en. cached a i = Some en \<and> c_fd en = fd then None else fd_file ?u fd)"
      "names w = names ?u" "dirs w = dirs ?u" "inodes w = inodes ?u" "vfs_wf ?u \<Longrightarrow> vfs_wf w"
    by (rule Cons.IH) (use Cons.prems(2) in auto)
  show ?case
  proof (rule Cons.prems(1) [of w])
    show "close_cached (fd_cache a) (i # is) v = Some w" using at w(1) by simp
    show "fd_file w = (\<lambda>fd. if \<exists>i \<in> set (i # is). \<exists>en. cached a i = Some en \<and> c_fd en = fd then None else fd_file v fd)"
      using en by (auto simp: fun_eq_iff w(2) sys_close_frame)
  qed (use w sys_close_wf in \<open>auto simp: sys_close_frame\<close>)
qed

lemma cleanup_spec:
  assumes "priv_of i = Some a" and "local_wf a v"
  obtains w where "local_storage_cleanup v i = Some (XDEVICE_OK, set_priv None i, w)"
    and "fd_file w = (\<lambda>fd. if \<exists>k en. cached a k = Some en \<and> c_fd en = fd then None else fd_file v fd)"
    and "names w = names v" and "dirs w = dirs v" and "inodes w = inodes v" and "vfs_wf w"
proof -
  let ?is = "[0..<unat (fd_cache_size a)]"
  have used: "i \<in> set ?is" if "cached a i = Some en" for i en
    using that by (auto simp: cached_def split: if_splits)
  obtain w where w: "close_cached (fd_cache a) ?is v = Some w"
    "fd_file w = (\<lambda>fd. if \<exists>i \<in> set ?is. \<exists>en. cached a i = Some en \<and> c_fd en = fd then None else fd_file v fd)"
    "names w = names v" "dirs w = dirs v" "inodes w = inodes v" "vfs_wf v \<Longrightarrow> vfs_wf w"
    by (rule close_cached_spec [of ?is a v]) (use local_wfD(4) [OF assms(2)] in auto)
  show thesis
  proof (rule that [of w])
    show "local_storage_cleanup v i = Some (XDEVICE_OK, set_priv None i, w)"
      using assms(1) w(1) by (simp add: local_storage_cleanup_def)
    show "fd_file w = (\<lambda>fd. if \<exists>k en. cached a k = Some en \<and> c_fd en = fd then None else fd_file v fd)"
      unfolding w(2) using used by (metis (no_types, opaque_lifting))
  qed (use w local_wfD(1) [OF assms(2)] in auto)
qed

lemma local_reachable_inv: "local_reachable x \<Longrightarrow> local_inv x"
proof (induction rule: local_reachable.induct)
  case (created v)
  then show ?case by (simp add: local_inv_def local_table_def)
next
  case (init i v e config ret j w)
  note fr = init_frame [OF init.hyps(2)]
  have "vfs_wf w" using init.IH fr(4) by (simp add: local_inv_def)
  moreover have "local_wf a w" if "priv_of j = Some a" for a
  proof (cases "ret = XDEVICE_OK")
    case True
    then show ?thesis using that fr(6) default_private_wf [OF \<open>vfs_wf w\<close>] by (cases i) auto
  next
    case False
    then have "local_wf a v" using that fr(5) init.IH by (simp add: local_inv_def)
    then show ?thesis using \<open>vfs_wf w\<close> fds_kept_same [OF fd_file_cong [OF fr(3)]] by (rule local_wf_kept)
  qed
  ultimately show ?case by (simp add: local_inv_def)
next
  case (operate x y)
  then show ?case by (metis local_op_inv)
next
  case (cleanup i v ret j w)
  show ?case
  proof (cases "priv_of i")
    case None
    then show ?thesis using cleanup by (auto simp: local_storage_cleanup_def)
  next
    case (Some a)
    then have "local_wf a v" using cleanup.IH by (simp add: local_inv_def)
    then obtain u where "local_storage_cleanup v i = Some (XDEVICE_OK, set_priv None i, u)" "vfs_wf u"
      by (rule cleanup_spec [OF Some])
    then show ?thesis using cleanup.hyps(2) Some by (auto simp: local_inv_def priv_of_set_priv)
  qed
qed

section \<open>What a write does\<close>

text \<open>The cache is in step with the directory as long as no cached name was unlinked: the descriptor of
  every entry leads to the file that has the entry's name.\<close>

definition synced :: "local_storage_private \<Rightarrow> vfs \<Rightarrow> bool" where
  "synced a v \<longleftrightarrow> (\<forall>i en. cached a i = Some en \<longrightarrow> fd_target v (c_fd en) = names v (c_path en))"

lemma file_data_alt: "file_data v p = Option.bind (names v p) (inode_data v)"
  by (cases "names v p") (auto simp: file_data_def inode_of_def inode_data_def)

lemma file_data_update:
  assumes "vfs_wf v" and "names v p = Some k" and "names w = names v" and "inode_data w = (inode_data v)(k \<mapsto> c)"
  shows "file_data w = (file_data v)(p \<mapsto> c)"
proof
  fix q show "file_data w q = ((file_data v)(p \<mapsto> c)) q"
    using assms(2-4) vfs_wfD(2) [OF assms(1,2), of q]
    by (cases "names v q") (auto simp: file_data_alt)
qed

lemma fd_target_new:
  assumes "fd_file w = (fd_file v)(fd \<mapsto> f)"
  shows "fd_target w k = (if k = fd then o_inode f else fd_target v k)"
  using assms by (simp add: fd_target_def)

lemma synced_new_fd:
  assumes wf: "local_wf a v" and "synced a v" and new: "cache_index a path = None"
    and fresh: "fd_file v fd = None" and w: "fd_file w = (fd_file v)(fd \<mapsto> f)"
    and nm: "\<And>q. q \<noteq> path \<Longrightarrow> names w q = names v q" and tgt: "o_inode f = names w path" and len: "length path < MAX_PATH_LEN"
  shows "synced a w" and "fd_cache_size a < max_open_files a \<Longrightarrow> synced (remember tm path fd a) w"
    and "fd_target w fd = names w path"
proof -
  have old: "fd_target w (c_fd en) = names w (c_path en)" if "cached a i = Some en" for i en
  proof -
    have "c_fd en \<noteq> fd" using local_wfD(5) [OF wf that] fresh by auto
    moreover have "c_path en \<noteq> path" by (rule cache_index_None [OF new that])
    ultimately show ?thesis using assms(2) that nm by (simp add: synced_def fd_target_new [OF w])
  qed
  then show "synced a w" by (simp add: synced_def)
  show t: "fd_target w fd = names w path" using tgt by (simp add: fd_target_new [OF w])
  have en: "c_path (cache_entry tm path fd) = path" "c_fd (cache_entry tm path fd) = fd"
    using len by (simp_all add: cache_entry_def)
  show "synced (remember tm path fd a) w" if "fd_cache_size a < max_open_files a"
    using old t en by (auto simp: synced_def cached_remember [OF wf that])
qed

text \<open>The descriptor that a call works with, and the files after it was found or opened.\<close>

lemma descriptor_effect:
  assumes run: "get_file_descriptor e a v path fl = Some (Some k, b, w)"
    and wf: "local_wf a v" and sy: "synced a v" and len: "length path < MAX_PATH_LEN"
  shows "synced b w" and "fd_target w k = names w path"
    and "names w = names v \<and> inodes w = inodes v \<or>
         f_creat fl \<and> file_data v path = None \<and> file_data w = (file_data v)(path \<mapsto> [])"
    and "cache_index a path = None \<Longrightarrow> fd_reads w k = f_rd fl \<and> fd_writes w k = f_wr fl"
proof -
  have "synced b w \<and> fd_target w k = names w path \<and>
     (names w = names v \<and> inodes w = inodes v \<or>
      f_creat fl \<and> file_data v path = None \<and> file_data w = (file_data v)(path \<mapsto> [])) \<and>
     (cache_index a path = None \<longrightarrow> fd_reads w k = f_rd fl \<and> fd_writes w k = f_wr fl)"
  proof (cases "cache_index a path")
    case (Some i)
    then obtain en where en: "cached a i = Some en" "c_path en = path" using cache_index_Some by blast
    then have "b = touch (now e) i en a" "w = v" "k = c_fd en"
      using run by (auto simp: get_file_descriptor_eq [OF wf len] Some split: if_splits)
    then show ?thesis using Some sy en cached_touch [OF en(1)] by (auto simp: synced_def)
  next
    case None
    have o: "sys_open (sys_ok e 0) (now e) path (open_mode a fl) v = (Inr k, w)"
      and b: "b = (if fd_cache_size a < max_open_files a then remember (now e) path k a else a)"
      using run by (auto simp: get_file_descriptor_eq [OF wf len] None split: prod.splits sum.splits)
    have vwf: "vfs_wf v" using wf by (rule local_wfD)
    have fin: ?thesis if fd: "fd_file v k = None" "fd_file w = (fd_file v)(k \<mapsto> open_at t (open_mode a fl))"
        "\<And>q. q \<noteq> path \<Longrightarrow> names w q = names v q" "t = names w path"
        "names w = names v \<and> inodes w = inodes v \<or>
         f_creat fl \<and> file_data v path = None \<and> file_data w = (file_data v)(path \<mapsto> [])" for t
      using synced_new_fd [OF wf sy None fd(1,2,3) _ len] fd(2,4,5)
      by (simp add: b open_at_def fd_reads_def fd_writes_def)
    show ?thesis
    proof (cases "is_dir v path")
      case True
      show ?thesis
        by (rule sys_open_dirE [OF o True], rule fin [of None]) (use vfs_wfD(4) [OF vwf True] in auto)
    next
      case False
      from o False vwf show ?thesis
      proof (cases rule: sys_open_fileE, goal_cases found created)
        case (found n)
        then show ?thesis by (intro fin [of "Some n"]) auto
      next
        case created
        have "file_data w q = (if q = path then Some [] else file_data v q)" for q
          using created vfs_wfD(1) [OF vwf, of q]
          by (auto simp: file_data_alt inode_data_def at_def nth_append split: option.splits bind_splits)
        moreover have "file_data v path = None" using created by (simp add: file_data_alt)
        ultimately show ?thesis
          using created by (intro fin [of "Some (length (inodes v))"]) (auto simp: fun_eq_iff)
      qed
    qed
  qed
  then show "synced b w" "fd_target w k = names w path"
    "names w = names v \<and> inodes w = inodes v \<or> f_creat fl \<and> file_data v path = None \<and> file_data w = (file_data v)(path \<mapsto> [])"
    "cache_index a path = None \<Longrightarrow> fd_reads w k = f_rd fl \<and> fd_writes w k = f_wr fl"
    by blast+
qed

lemma lseek_accepted:
  assumes "sys_lseek ok k off v = (sint off, w)" and "0 \<le> sint off"
  shows "ok \<and> fd_file v k \<noteq> None"
  using assms by (auto simp: sys_lseek_def split: option.splits if_splits)

lemma write_accepted:
  assumes "sys_write ok tm k src sz v = (n, w)" and "ssize n = sint sz" and "0 \<le> sint sz"
  shows "ok" and "fd_writes v k" and "\<exists>t c. fd_target v k = Some t \<and> inode_data v t = Some c"
    and "n = Some (length src)"
  using assms
  by (auto simp: sys_write_def ssize_def fd_defs inode_at_def Let_def bind_eq_Some_conv split: option.splits if_splits)

lemma sz_bound: "0 \<le> sint (sz :: u64) \<Longrightarrow> sint sz = int n \<longleftrightarrow> unat sz = n"
  using nat_sint_unat [of sz] by (metis int_nat_eq nat_int)

lemma sint_nonneg:
  fixes x :: u64
  shows "0 \<le> sint x \<longleftrightarrow> unat x < 2 ^ 63"
proof -
  obtain n where n: "uint x = int n" "unat x = n" by (metis int_nat_eq nat_int of_nat_unat)
  moreover have "uint x < 2 ^ 64" using uint_lt2p [of x] by simp
  ultimately show ?thesis by (auto simp: sint_u64)
qed

lemma lseek_views:
  assumes "sys_lseek ok fd off v = (r, w)"
  shows "fd_target w = fd_target v" and "inode_data w = inode_data v" and "fd_writes w = fd_writes v"
    and "fd_reads w = fd_reads v"
  using assms
  by (auto simp: sys_lseek_def fd_defs fun_eq_iff fd_file_set_fd split: option.splits if_splits)

text \<open>The system calls behind a write that returns \<open>XDEVICE_OK\<close>.\<close>

lemma write_OK_trace:
  assumes run: "local_storage_write_sync e v i (Some p) off (Some d) sz = Some (XDEVICE_OK, j, w)"
    and a: "priv_of i = Some a" and sz: "0 \<le> sint sz" and full: "full = build_file_path (base_path a) p MAX_PATH_LEN"
  obtains v0 k b v1 v2 src n st where "make_parents e full v = Some v0"
    and "get_file_descriptor e a v0 full (O_WRONLY\<lparr>f_creat := True\<rparr>) = Some (Some k, b, v1)"
    and "sys_lseek (sys_ok e 6) k off v1 = (sint off, v2)" and "mem_read d 0 (unat (min sz io_limit)) = Some src"
    and "sys_write (sys_ok e 1) (now e) k src sz v2 = (n, w)" and "ssize n = sint sz"
    and "j = set_priv (Some (b\<lparr>lstats := st\<rparr>)) i"
proof -
  have nz: "sz \<noteq> 0" using run a by (auto simp: local_storage_write_sync_def)
  obtain v0 fd b v1 where mp: "make_parents e full v = Some v0"
      and g: "get_file_descriptor e a v0 full (O_WRONLY\<lparr>f_creat := True\<rparr>) = Some (fd, b, v1)"
    using run a nz by (auto simp: local_storage_write_sync_def bind_eq_Some_conv Let_def full)
  then obtain k where fd: "fd = Some k"
    using run a nz by (cases fd) (auto simp: local_storage_write_sync_def Let_def full)
  obtain pos v2 where s: "sys_lseek (sys_ok e 6) k off v1 = (pos, v2)" by fastforce
  have pos: "pos = sint off" using run a nz mp g fd s
    by (auto simp: local_storage_write_sync_def Let_def full split: if_splits)
  obtain src where src: "mem_read d 0 (unat (min sz io_limit)) = Some src"
    using run a nz mp g fd s pos sz by (auto simp: local_storage_write_sync_def Let_def full bind_eq_Some_conv split: if_splits)
  obtain n v3 where w3: "sys_write (sys_ok e 1) (now e) k src sz v2 = (n, v3)" by fastforce
  have "ssize n = sint sz" and "w = v3" and "\<exists>st. j = set_priv (Some (b\<lparr>lstats := st\<rparr>)) i"
    using run a nz mp g fd s pos src w3 sz
    by (auto simp: local_storage_write_sync_def Let_def full split: if_splits)
  with that mp g fd s pos src w3 show thesis by metis
qed

text \<open>A transfer that is as long as requested was not cut by the limit.\<close>

lemma transfer_size:
  assumes "mem_read d 0 (unat (min sz io_limit)) = Some src" and "ssize n = sint sz" and "n = Some (length src)"
    and "0 \<le> sint sz"
  shows "sz \<le> io_limit" and "unat sz \<le> length d" and "src = take (unat sz) d"
proof -
  have "unat sz = length src" using assms(2,3) sz_bound [OF assms(4), of "length src"] by (simp add: ssize_def)
  moreover have src: "unat (min sz io_limit) \<le> length d" "src = take (unat (min sz io_limit)) d"
    using assms(1) by (simp_all add: mem_simps)
  ultimately have "unat (min sz io_limit) = unat sz" by simp
  then have m: "min sz io_limit = sz" by (simp only: word_unat_eq_iff)
  then show "sz \<le> io_limit" by (metis min.cobounded2)
  show "unat sz \<le> length d" "src = take (unat sz) d" using src unfolding m by auto
qed

lemma write_effect:
  assumes run: "local_storage_write_sync e v i (Some p) off (Some d) sz = Some (XDEVICE_OK, j, w)"
    and a: "priv_of i = Some a" and wf: "local_wf a v" and sy: "synced a v"
    and off: "0 \<le> sint off" and sz: "0 \<le> sint sz"
    and full: "full = build_file_path (base_path a) p MAX_PATH_LEN"
  shows "file_data w = (file_data v)(full \<mapsto> file_write (file_data v full) (unat off) (take (unat sz) d))"
    and "sz \<le> io_limit" and "unat sz \<le> length d" and "\<exists>b. j = set_priv (Some b) i \<and> synced b w"
proof -
  obtain v0 k a1 v1 v2 src n st where mp: "make_parents e full v = Some v0"
    and g: "get_file_descriptor e a v0 full (O_WRONLY\<lparr>f_creat := True\<rparr>) = Some (Some k, a1, v1)"
    and s: "sys_lseek (sys_ok e 6) k off v1 = (sint off, v2)" and src: "mem_read d 0 (unat (min sz io_limit)) = Some src"
    and w3: "sys_write (sys_ok e 1) (now e) k src sz v2 = (n, w)" and n: "ssize n = sint sz"
    and j: "j = set_priv (Some (a1\<lparr>lstats := st\<rparr>)) i"
    by (rule write_OK_trace [OF run a sz full])
  note fr = make_parents_frame [OF mp]
  have fd0: "fd_file v0 = fd_file v" by (rule fd_file_cong [OF fr(3)])
  have data0: "file_data v0 = file_data v" by (rule file_data_cong [OF fr(1,2)])
  have sy0: "synced a v0" using sy by (simp add: synced_def fd_target_def fd0 fr(1))
  have wf0: "local_wf a v0" using make_parents_moves [OF mp wf] by (simp add: local_moves_def)
  have len: "length full < MAX_PATH_LEN" unfolding full by (rule length_build_file_path)
  note ef = descriptor_effect [OF g wf0 sy0 len]
  have wf1: "local_wf a1 v1" using get_file_descriptor_moves [OF g wf0 len] by (simp add: local_moves_def)
  have ok6: "sys_ok e 6" using lseek_accepted s off by blast
  note acc = write_accepted [OF w3 n sz]
  note same = lseek_views [OF s]
  obtain t c where t: "fd_target v1 k = Some t" "inode_data v1 t = Some c" using acc(3) same by auto
  have wr: "fd_writes v1 k" using acc(2) same by simp
  obtain x u where x: "sys_lseek True k off v1 = (sint off, x)" "sys_write True (now e) k src sz x = (Some (length src), u)"
      "inode_data u = (inode_data v1)(t \<mapsto> file_write (Some c) (unat off) src)" "dir_tree u = dir_tree v1"
      "fd_target u = fd_target v1"
    by (rule vfs_io.write_at [OF t wr off sz, where src = src])
  have u: "w = u" using x(1,2) s w3 acc(1) ok6 by simp
  have nm: "names v1 full = Some t" using ef(2) t(1) by simp
  have "file_data u = (file_data v1)(full \<mapsto> file_write (Some c) (unat off) src)"
    by (rule file_data_update [OF local_wfD(1) [OF wf1] nm _ x(3)]) (use x(4) in \<open>simp add: dir_tree_def\<close>)
  moreover have c: "file_data v1 full = Some c" using nm t(2) by (simp add: file_data_alt)
  note ts = transfer_size [OF src n acc(4) sz]
  show "sz \<le> io_limit" "unat sz \<le> length d" by (rule ts(1), rule ts(2))
  from ef(3) have "file_data v1 = file_data v \<or> file_data v full = None \<and> file_data v1 = (file_data v)(full \<mapsto> [])"
    using file_data_cong [of v1 v0] data0 by auto
  then show "file_data w = (file_data v)(full \<mapsto> file_write (file_data v full) (unat off) (take (unat sz) d))"
    using calculation c by (auto simp: u ts(3) file_write_def)
  show "\<exists>b. j = set_priv (Some b) i \<and> synced b w"
  proof -
    have "synced (a1\<lparr>lstats := st\<rparr>) u" for st
      using ef(1) x(4,5) by (simp add: synced_def dir_tree_def)
    then show ?thesis using j u by blast
  qed
qed

section \<open>What a read does\<close>

text \<open>The descriptor that the backend uses for a name, once there is one, keeps the access mode of the
  call that opened it.\<close>

definition stuck_mode :: "local_storage_private \<Rightarrow> vfs \<Rightarrow> string \<Rightarrow> bool \<Rightarrow> bool \<Rightarrow> bool" where
  "stuck_mode a v path rd wr \<longleftrightarrow> (\<exists>i en. cache_index a path = Some i \<and> cached a i = Some en \<and>
     fd_reads v (c_fd en) = rd \<and> fd_writes v (c_fd en) = wr)"

lemma open_existing:
  assumes "names v path = Some n" and "vfs_wf v" and "\<not> (f_creat fl \<and> f_excl fl)"
  obtains k w where "sys_open True tm path fl v = (Inr k, w)"
proof -
  have "\<not> is_dir v path" "path \<noteq> []" using assms vfs_wfD(3,4) [OF assms(2)] by auto
  then have "sys_open True tm path fl v =
      (case install_fd (open_at (Some n) fl) v of (k, w) \<Rightarrow> (Inr k, w))"
    using assms by (auto simp: sys_open_def)
  then show thesis by (cases "install_fd (open_at (Some n) fl) v") (simp add: that)
qed

lemma descriptor_found:
  assumes wf: "local_wf a v" and len: "length path < MAX_PATH_LEN - 1" and nm: "names v path = Some n"
    and ok: "sys_ok e 0" and "\<not> (f_creat fl \<and> f_excl fl)"
  obtains k b w where "get_file_descriptor e a v path fl = Some (Some k, b, w)"
    and "\<And>i en. cache_index a path = Some i \<Longrightarrow> cached a i = Some en \<Longrightarrow> k = c_fd en \<and> w = v"
proof (cases "cache_index a path")
  case None
  have len': "length path < MAX_PATH_LEN" using len by simp
  obtain k w where "sys_open True (now e) path (open_mode a fl) v = (Inr k, w)"
    using open_existing [OF nm local_wfD(1) [OF wf], of "open_mode a fl"] assms(5) by auto
  then show thesis using ok by (intro that) (auto simp: get_file_descriptor_eq [OF wf len'] None)
next
  case (Some l)
  have len': "length path < MAX_PATH_LEN" using len by simp
  obtain en where "cached a l = Some en" using cache_index_Some [OF Some] by blast
  then show thesis using len by (intro that) (auto simp: get_file_descriptor_eq [OF wf len'] Some)
qed

lemma read_effect:
  assumes a: "priv_of i = Some a" and wf: "local_wf a v" and sy: "synced a v"
    and full: "full = build_file_path (base_path a) p MAX_PATH_LEN" and len: "length full < MAX_PATH_LEN - 1"
    and mode: "cache_index a full = None \<or> stuck_mode a v full True wr"
    and c: "file_data v full = Some c" and range: "unat off + unat sz \<le> length c"
    and sz: "sz \<noteq> 0" "sz \<le> io_limit" "unat sz \<le> length buf" and off: "0 \<le> sint off"
    and ok: "sys_ok e 0" "sys_ok e 1" "sys_ok e 6"
  obtains j w where "local_storage_read_sync e v i (Some p) off (Some buf) sz =
      Some (XDEVICE_OK, Some (overlay buf 0 (take (unat sz) (drop (unat off) c))), j, w)"
    and "file_data w = file_data v" and "names w = names v"
proof -
  obtain t where t: "names v full = Some t" "inode_data v t = Some c"
    using c by (auto simp: file_data_alt bind_eq_Some_conv)
  have nocreat: "\<not> (f_creat O_RDONLY \<and> f_excl O_RDONLY)" by (simp add: O_RDONLY_def)
  have len': "length full < MAX_PATH_LEN" using len by simp
  obtain k b w where g: "get_file_descriptor e a v full O_RDONLY = Some (Some k, b, w)"
    and hit: "\<And>l en. cache_index a full = Some l \<Longrightarrow> cached a l = Some en \<Longrightarrow> k = c_fd en \<and> w = v"
    by (rule descriptor_found [OF wf len t(1) ok(1) nocreat]) blast
  note ef = descriptor_effect [OF g wf sy len']
  have same: "names w = names v" "inodes w = inodes v" using ef(3) by (auto simp: O_RDONLY_def)
  have tw: "fd_target w k = Some t" "inode_data w t = Some c"
    using ef(2) t same by (simp_all add: inode_data_def fun_eq_iff)
  have rd: "fd_reads w k"
  proof (cases "cache_index a full")
    case None
    then show ?thesis using ef(4) by (simp add: O_RDONLY_def)
  next
    case (Some l)
    then obtain en where en: "cached a l = Some en" "fd_reads v (c_fd en)" using mode by (auto simp: stuck_mode_def)
    then show ?thesis using hit [OF Some en(1)] by simp
  qed
  have ssz: "0 \<le> sint sz" using sz(2) by (simp add: sint_nonneg io_limit_def word_le_nat_alt)
  obtain x u where x: "sys_lseek True k off w = (sint off, x)"
      "sys_read True k sz x = (Some (take (unat (min sz io_limit)) (drop (unat off) c)), u)"
      "inode_data u = inode_data w" "dir_tree u = dir_tree w"
    by (rule vfs_io.read_at [OF tw rd off ssz])
  have got: "take (unat (min sz io_limit)) (drop (unat off) c) = take (unat sz) (drop (unat off) c)"
    using sz(2) by (simp add: min_def)
  have l: "length (take (unat sz) (drop (unat off) c)) = unat sz" using range by simp
  have si: "ssize (Some (unat sz)) = sint sz" using sz_bound [OF ssz, of "unat sz"] by (simp add: ssize_def)
  have run: "local_storage_read_sync e v i (Some p) off (Some buf) sz =
      Some (XDEVICE_OK, Some (overlay buf 0 (take (unat sz) (drop (unat off) c))),
        set_priv (Some (b\<lparr>lstats := stats_read sz (latency_ns (t_start e) (t_end e)) (lstats b)\<rparr>)) i, u)"
    using a g x(1,2) sz ok l si
    by (simp add: local_storage_read_sync_def full [symmetric] got Let_def del: length_take)
  have id: "inode_data u = inode_data v" using x(3) same(2) by (simp add: inode_data_def fun_eq_iff)
  have nm: "names u = names v" using x(4) same(1) by (simp add: dir_tree_def)
  have "file_data u = file_data v" by (rule ext) (simp add: file_data_alt id nm)
  with run nm show thesis by (intro that)
qed

section \<open>The access mode of a cached name\<close>

lemma cache_index_unique:
  assumes "local_wf a v" and "cached a i = Some en" and "c_path en = path"
  shows "cache_index a path = Some i"
proof (cases "cache_index a path")
  case None
  then show ?thesis using cache_index_None [OF None assms(2)] assms(3) by simp
next
  case (Some l)
  then obtain en' where "cached a l = Some en'" "c_path en' = path" using cache_index_Some by blast
  then show ?thesis using Some local_wfD(8) [OF assms(1,2)] assms(3) by metis
qed

lemma fds_kept_views:
  assumes "fds_kept v w" and "fd_file v fd \<noteq> None"
  shows "fd_reads w fd = fd_reads v fd" and "fd_writes w fd = fd_writes v fd" and "fd_target w fd = fd_target v fd"
proof -
  obtain f where f: "fd_file v fd = Some f" using assms(2) by auto
  then obtain g where "fd_file w fd = Some g" "o_inode g = o_inode f" "o_rd g = o_rd f" "o_wr g = o_wr f"
    using assms(1) unfolding fds_kept_def by blast
  with f show "fd_reads w fd = fd_reads v fd" "fd_writes w fd = fd_writes v fd" "fd_target w fd = fd_target v fd"
    by (simp_all add: fd_defs)
qed

text \<open>The mode of a cached name survives every operation of the session.\<close>

lemma stuck_mode_moves:
  assumes "stuck_mode a v path rd wr" and "local_wf a v" and m: "local_moves (a, v) (b, w)"
  shows "stuck_mode b w path rd wr"
proof -
  obtain i en where en: "cache_index a path = Some i" "cached a i = Some en" "c_path en = path"
      "fd_reads v (c_fd en) = rd" "fd_writes v (c_fd en) = wr"
    using assms(1) cache_index_Some unfolding stuck_mode_def by (metis option.inject)
  obtain en' where en': "cached b i = Some en'" "c_path en' = path" "c_fd en' = c_fd en"
    using m en unfolding local_moves_def cache_kept_def by auto
  have "cache_index b path = Some i"
    using cache_index_unique [of b w] m en' by (auto simp: local_moves_def)
  moreover have "fd_reads w (c_fd en) = rd" "fd_writes w (c_fd en) = wr"
    using fds_kept_views [of v w] m local_wfD(5) [OF assms(2) en(2)] en(4,5) by (auto simp: local_moves_def)
  ultimately show ?thesis using en' unfolding stuck_mode_def by metis
qed

lemma descriptor_stuck:
  assumes run: "get_file_descriptor e a v path fl = Some (Some k, b, w)"
    and wf: "local_wf a v" and len: "length path < MAX_PATH_LEN"
    and new: "cache_index a path = None" and room: "fd_cache_size a < max_open_files a"
  shows "stuck_mode b w path (f_rd fl) (f_wr fl)"
proof -
  have o: "sys_open (sys_ok e 0) (now e) path (open_mode a fl) v = (Inr k, w)" and b: "b = remember (now e) path k a"
    using run room by (auto simp: get_file_descriptor_eq [OF wf len] new split: prod.splits sum.splits)
  obtain f where f: "fd_file w = (fd_file v)(k \<mapsto> f)" "o_rd f = f_rd fl" "o_wr f = f_wr fl"
    by (rule sys_open_kept [OF o local_wfD(1) [OF wf]]) auto
  have wfb: "local_wf b w" using get_file_descriptor_moves [OF run wf len] by (simp add: local_moves_def)
  have en: "cached b (unat (fd_cache_size a)) = Some (cache_entry (now e) path k)"
    by (simp add: b cached_remember [OF wf room])
  moreover have "c_path (cache_entry (now e) path k) = path" "c_fd (cache_entry (now e) path k) = k"
    using len by (simp_all add: cache_entry_def)
  ultimately show ?thesis
    using cache_index_unique [OF wfb en] f unfolding stuck_mode_def
    by (auto simp: fd_reads_def fd_writes_def)
qed

lemma stuck_descriptor:
  assumes "stuck_mode a v path rd wr" and wf: "local_wf a v" and len: "length path < MAX_PATH_LEN - 1"
  obtains k where "\<And>e fl. \<exists>b. get_file_descriptor e a v path fl = Some (Some k, b, v)"
    and "fd_reads v k = rd" and "fd_writes v k = wr" and "synced a v \<Longrightarrow> fd_target v k = names v path"
    and "fd_file v k \<noteq> None"
proof -
  obtain i en where en: "cache_index a path = Some i" "cached a i = Some en" "c_path en = path"
      "fd_reads v (c_fd en) = rd" "fd_writes v (c_fd en) = wr"
    using assms(1) cache_index_Some unfolding stuck_mode_def by (metis option.inject)
  have len': "length path < MAX_PATH_LEN" using len by simp
  show thesis
    by (rule that [of "c_fd en"])
       (use en len local_wfD(5) [OF wf en(2)] in \<open>auto simp: get_file_descriptor_eq [OF wf len'] synced_def\<close>)
qed

text \<open>The descriptor of a cached name does not depend on the call.\<close>

lemma stuck_descriptor_any:
  assumes "stuck_mode a v path rd wr" and "local_wf a v" and "local_wf a w" and len: "length path < MAX_PATH_LEN - 1"
    and "get_file_descriptor e a v path fl = Some (Some k, b, v')"
    and "get_file_descriptor e' a w path fl' = Some (Some l, b', w')"
  shows "k = l"
proof -
  have len': "length path < MAX_PATH_LEN" using len by simp
  show ?thesis
    using assms by (auto simp: stuck_mode_def get_file_descriptor_eq [OF assms(2) len'] get_file_descriptor_eq [OF assms(3) len'])
qed

text \<open>A read through a descriptor that was opened for writing only fails.\<close>

lemma read_stuck_fails:
  assumes a: "priv_of i = Some a" and wf: "local_wf a v"
    and full: "full = build_file_path (base_path a) p MAX_PATH_LEN" and len: "length full < MAX_PATH_LEN - 1"
    and st: "stuck_mode a v full False wr" and sz: "sz \<noteq> 0" "0 \<le> sint sz"
  shows "\<exists>j w. local_storage_read_sync e v i (Some p) off (Some buf) sz = Some (XDEVICE_ERROR_IO, Some buf, j, w)"
proof -
  obtain k where g: "\<And>e fl. \<exists>b. get_file_descriptor e a v full fl = Some (Some k, b, v)" and rd: "\<not> fd_reads v k"
    by (rule stuck_descriptor [OF st wf len]) auto
  obtain b where b: "get_file_descriptor e a v full O_RDONLY = Some (Some k, b, v)" using g by blast
  obtain pos u where s: "sys_lseek (sys_ok e 6) k off v = (pos, u)" by fastforce
  have "\<not> fd_reads u k" using rd lseek_views(4) [OF s] by simp
  then have "sys_read (sys_ok e 1) k sz u = (None, u)"
    by (auto simp: sys_read_def fd_reads_def split: option.splits)
  moreover have "ssize None \<noteq> sint sz" using sz(2) by (simp add: ssize_def)
  ultimately show ?thesis
    using a b s sz(1) by (simp add: local_storage_read_sync_def full [symmetric] Let_def) (simp add: ssize_def)
qed

text \<open>A write through a descriptor that was opened for reading only fails.\<close>

lemma write_stuck_fails:
  assumes a: "priv_of i = Some a" and wf: "local_wf a v"
    and full: "full = build_file_path (base_path a) p MAX_PATH_LEN" and len: "length full < MAX_PATH_LEN - 1"
    and par: "parent_of full \<noteq> Some []" and st: "stuck_mode a v full rd False"
    and sz: "sz \<noteq> 0" "0 \<le> sint sz" "unat sz \<le> length d"
  shows "\<exists>j w. local_storage_write_sync e v i (Some p) off (Some d) sz = Some (XDEVICE_ERROR_IO, j, w)"
proof -
  have "make_parents e full v \<noteq> None" using len par by (simp add: make_parents_None not_le)
  then obtain v0 where mp: "make_parents e full v = Some v0" by auto
  have m0: "local_moves (a, v) (a, v0)" by (rule make_parents_moves [OF mp wf])
  have wf0: "local_wf a v0" using m0 by (simp add: local_moves_def)
  obtain k where g: "\<And>e fl. \<exists>b. get_file_descriptor e a v0 full fl = Some (Some k, b, v0)" and wr: "\<not> fd_writes v0 k"
    by (rule stuck_descriptor [OF stuck_mode_moves [OF st wf m0] wf0 len]) auto
  obtain b where b: "get_file_descriptor e a v0 full (O_WRONLY\<lparr>f_creat := True\<rparr>) = Some (Some k, b, v0)" using g by blast
  obtain pos u where s: "sys_lseek (sys_ok e 6) k off v0 = (pos, u)" by fastforce
  have "\<not> fd_writes u k" using wr lseek_views(3) [OF s] by simp
  then have "sys_write (sys_ok e 1) (now e) k src sz u = (None, u)" for src
    by (auto simp: sys_write_def fd_writes_def split: option.splits)
  moreover have "ssize None \<noteq> sint sz" using sz(2) by (simp add: ssize_def)
  moreover have "unat (min sz io_limit) \<le> length d" using sz(3) by (simp add: min_def word_le_nat_alt)
  ultimately show ?thesis
    using a mp b s sz by (simp add: local_storage_write_sync_def full [symmetric] Let_def not_less)
qed

text \<open>The first write to a name, and the operations after it.\<close>

lemma first_write_stuck:
  assumes wr: "local_storage_write_sync e v i (Some p) off (Some d) sz = Some (XDEVICE_OK, j, w)"
    and a: "priv_of i = Some a" and wf: "local_wf a v" and new: "cache_index a full = None"
    and room: "fd_cache_size a < max_open_files a" and sz: "0 \<le> sint sz"
    and full: "full = build_file_path (base_path a) p MAX_PATH_LEN"
  shows "\<exists>b. priv_of j = Some b \<and> local_wf b w \<and> base_path b = base_path a \<and> stuck_mode b w full False True"
proof -
  obtain v0 k b v1 v2 src n st where mp: "make_parents e full v = Some v0"
    and g: "get_file_descriptor e a v0 full (O_WRONLY\<lparr>f_creat := True\<rparr>) = Some (Some k, b, v1)"
    and s: "sys_lseek (sys_ok e 6) k off v1 = (sint off, v2)"
    and w3: "sys_write (sys_ok e 1) (now e) k src sz v2 = (n, w)"
    and j: "j = set_priv (Some (b\<lparr>lstats := st\<rparr>)) i"
    by (rule write_OK_trace [OF wr a sz full])
  have wf0: "local_wf a v0" using make_parents_moves [OF mp wf] by (simp add: local_moves_def)
  have len: "length full < MAX_PATH_LEN" unfolding full by (rule length_build_file_path)
  have m1: "local_moves (a, v0) (b, v1)" by (rule get_file_descriptor_moves [OF g wf0 len])
  have wf1: "local_wf b v1" using m1 by (simp add: local_moves_def)
  have m2: "local_moves (b, v1) (b, v2)" by (rule local_moves_io(1) [OF wf1 s])
  have wf2: "local_wf b v2" using m2 by (simp add: local_moves_def)
  have m3: "local_moves (b, v1) (b, w)" using m2 local_moves_io(3) [OF wf2 w3] by (rule local_moves_trans)
  have m4: "local_moves (b, v1) (b\<lparr>lstats := st\<rparr>, w)"
    using m3 local_moves_stats [of b w st] by (auto simp: local_moves_def intro: cache_kept_trans fds_kept_trans)
  have "stuck_mode b v1 full False True"
    using descriptor_stuck [OF g wf0 len new room] by (simp add: O_WRONLY_def)
  then have "stuck_mode (b\<lparr>lstats := st\<rparr>) w full False True" using wf1 m4 by (rule stuck_mode_moves)
  then show ?thesis using m1 m4 a j by (auto simp: local_moves_def cache_kept_def priv_of_set_priv)
qed

lemma stuck_mode_ops:
  assumes "local_op\<^sup>*\<^sup>* (i, v) (j, w)"
    and "\<exists>a. priv_of i = Some a \<and> local_wf a v \<and> base_path a = base \<and> stuck_mode a v path rd wr"
  shows "\<exists>b. priv_of j = Some b \<and> local_wf b w \<and> base_path b = base \<and> stuck_mode b w path rd wr"
  using assms(1)
proof (induction "(j, w)" arbitrary: j w rule: rtranclp_induct)
  case base
  then show ?case using assms(2) by simp
next
  case (step y)
  obtain k u where y: "y = (k, u)" by (cases y)
  from step(3) [OF y] obtain a where a: "priv_of k = Some a" "local_wf a u" "base_path a = base" "stuck_mode a u path rd wr"
    by blast
  have "obj_moves k u j w" using local_op_moves [OF step(2)] a(1,2) by (simp add: y)
  then obtain b where b: "j = set_priv (Some b) k" "local_moves (a, u) (b, w)" using a(1) by (auto simp: obj_moves_def)
  then show ?case
    using stuck_mode_moves [OF a(4,2) b(2)] a by (auto simp: local_moves_def cache_kept_def priv_of_set_priv)
qed

text \<open>A write through a cached descriptor reaches the file that the descriptor leads to, whether or not a
  name still leads there.\<close>

lemma write_through:
  assumes a: "priv_of i = Some a" and wf: "local_wf a v"
    and full: "full = build_file_path (base_path a) p MAX_PATH_LEN" and len: "length full < MAX_PATH_LEN - 1"
    and mp: "make_parents e full v = Some v0" and st: "stuck_mode a v full rd True"
    and k: "\<exists>b. get_file_descriptor e a v full (O_WRONLY\<lparr>f_creat := True\<rparr>) = Some (Some k, b, v)"
    and t: "fd_target v k = Some t" "inode_data v t = Some c"
    and off: "0 \<le> sint off" and sz: "sz \<noteq> 0" "sz \<le> io_limit" "unat sz \<le> length d" and ok: "sys_ok e 1" "sys_ok e 6"
  obtains b w where "local_storage_write_sync e v i (Some p) off (Some d) sz = Some (XDEVICE_OK, set_priv (Some b) i, w)"
    and "names w = names v" and "dirs w = dirs v0" and "base_path b = base_path a"
    and "inode_data w = (inode_data v)(t \<mapsto> file_write (Some c) (unat off) (take (unat sz) d))"
proof -
  have m0: "local_moves (a, v) (a, v0)" by (rule make_parents_moves [OF mp wf])
  then have wf0: "local_wf a v0" by (simp add: local_moves_def)
  note fr = make_parents_frame [OF mp] and st0 = stuck_mode_moves [OF st wf m0]
  have fd0: "fd_file v0 = fd_file v" by (rule fd_file_cong [OF fr(3)])
  obtain k0 where k0: "\<And>e fl. \<exists>b. get_file_descriptor e a v0 full fl = Some (Some k0, b, v0)" "fd_writes v0 k0"
    by (rule stuck_descriptor [OF st0 wf0 len]) auto
  then obtain b where g: "get_file_descriptor e a v0 full (O_WRONLY\<lparr>f_creat := True\<rparr>) = Some (Some k0, b, v0)" by blast
  have len': "length full < MAX_PATH_LEN" using len by simp
  have "k0 = k" using k g stuck_descriptor_any [OF st wf wf0 len] by blast
  have b: "base_path b = base_path a"
    using get_file_descriptor_moves [OF g wf0 len'] by (simp add: local_moves_def cache_kept_def)
  have t0: "fd_target v0 k0 = Some t" "inode_data v0 t = Some c"
    using t fr(2) fd0 \<open>k0 = k\<close> by (simp_all add: fd_target_def inode_data_def)
  have ssz: "0 \<le> sint sz" using sz(2) by (simp add: sint_nonneg io_limit_def word_le_nat_alt)
  obtain x u where x: "sys_lseek True k0 off v0 = (sint off, x)"
      "sys_write True (now e) k0 (take (unat sz) d) sz x = (Some (length (take (unat sz) d)), u)"
      "inode_data u = (inode_data v0)(t \<mapsto> file_write (Some c) (unat off) (take (unat sz) d))" "dir_tree u = dir_tree v0"
    by (rule vfs_io.write_at [OF t0 k0(2) off ssz])
  have si: "ssize (Some (unat sz)) = sint sz" using sz_bound [OF ssz, of "unat sz"] by (simp add: ssize_def)
  have "min sz io_limit = sz" using sz(2) by (simp add: min_def)
  then have "local_storage_write_sync e v i (Some p) off (Some d) sz = Some (XDEVICE_OK,
      set_priv (Some (b\<lparr>lstats := stats_write sz (latency_ns (t_start e) (t_end e)) (lstats b)\<rparr>)) i, u)"
    using a mp g x(1,2) sz ok si ssz by (simp add: local_storage_write_sync_def full [symmetric] Let_def not_less min_absorb2)
  then show thesis
    using that x(3,4) fr(1,2) b by (auto simp: dir_tree_def inode_data_def fun_eq_iff)
qed

lemma descriptor_defined:
  assumes "local_wf a v" and "length path < MAX_PATH_LEN - 1"
  shows "get_file_descriptor e a v path fl \<noteq> None"
proof -
  have "length path < MAX_PATH_LEN" using assms(2) by simp
  then show ?thesis
    using assms by (auto simp: get_file_descriptor_eq split: option.splits prod.splits sum.splits)
qed

section \<open>Properties of the backend\<close>

text \<open>A file system with one directory and the three standard descriptors, an initialised backend on it,
  and the same after a write.\<close>

definition demo_vfs :: vfs where
  "demo_vfs = \<lparr>names = Map.empty, dirs = [''/data''], dir_stat = (\<lambda>_. (4096, 0, 0, 509)), inodes = [],
     open_files = [Some \<lparr>o_inode = None, o_pos = 0, o_rd = True, o_wr = False\<rparr>,
                   Some \<lparr>o_inode = None, o_pos = 0, o_rd = False, o_wr = True\<rparr>,
                   Some \<lparr>o_inode = None, o_pos = 0, o_rd = False, o_wr = True\<rparr>]\<rparr>"

definition demo_private :: local_storage_private where
  "demo_private = local_default_private ''/data''"

definition demo_local :: "local_iface option" where
  "demo_local = set_priv (Some demo_private) (Some (self_of local_table))"

lemma demo_vfs_wf: "vfs_wf demo_vfs"
  by (rule vfs_wfI) (auto simp: demo_vfs_def is_dir_def fd_file_Some less_Suc_eq numeral_3_eq_3)

lemma demo_init: "local_storage_init calm_env demo_vfs (Some (self_of local_table)) (Some ''/data'') =
    Some (XDEVICE_OK, demo_local, demo_vfs)"
proof -
  have "create_directories calm_env ''/data'' demo_vfs = Some (XDEVICE_OK, demo_vfs)"
    by (simp add: create_directories_def MAX_PATH_LEN_def upt_rec sys_mkdir_def is_dir_def calm_env_def demo_vfs_def)
  then show ?thesis
    by (simp add: local_storage_init_def Let_def calm_env_def demo_local_def demo_private_def MAX_PATH_LEN_def)
qed

lemma demo_local_reachable: "local_reachable (demo_local, demo_vfs)"
  by (rule local_reachable.init [OF local_reachable.created [OF demo_vfs_wf] demo_init])

lemma demo_local_priv [simp]: "priv_of demo_local = Some demo_private"
  by (simp add: demo_local_def)

lemma demo_private_facts [simp]:
  "base_path demo_private = ''/data''" "cached demo_private i = None" "synced demo_private v"
  "cache_index demo_private p = None" "fd_cache_size demo_private = 0" "max_open_files demo_private = 100"
  by (simp_all add: demo_private_def local_default_private_def cached_def synced_def cache_index_def)

lemma reachable_wf: "local_reachable (i, v) \<Longrightarrow> priv_of i = Some a \<Longrightarrow> local_wf a v"
  using local_reachable_inv [of "(i, v)"] by (simp add: local_inv_def)

lemma take_drop_file_write: "take (length d) (drop off (file_write c off d)) = d"
  by (simp add: file_write_def Let_def)

lemma write_OK_short:
  assumes "local_storage_write_sync e v i (Some p) off (Some d) sz = Some (XDEVICE_OK, j, w)"
    and "priv_of i = Some a" and "0 \<le> sint sz"
  shows "length (build_file_path (base_path a) p MAX_PATH_LEN) < MAX_PATH_LEN - 1" and "sz \<noteq> 0"
proof -
  obtain v0 where "make_parents e (build_file_path (base_path a) p MAX_PATH_LEN) v = Some v0"
    by (rule write_OK_trace [OF assms refl])
  then show "length (build_file_path (base_path a) p MAX_PATH_LEN) < MAX_PATH_LEN - 1"
    using make_parents_None [of e "build_file_path (base_path a) p MAX_PATH_LEN" v] by auto
  show "sz \<noteq> 0" using assms(1,2) by (auto simp: local_storage_write_sync_def)
qed

lemma demo_local_write: "\<exists>j w. local_storage_write_sync calm_env demo_vfs demo_local (Some ''a/b'') 2 (Some [7, 8, 9]) 3 =
    Some (XDEVICE_OK, j, w)"
proof -
  have "map_option fst (local_storage_write_sync calm_env demo_vfs demo_local (Some ''a/b'') 2 (Some [7, 8, 9]) 3) =
      Some XDEVICE_OK"
    by code_simp
  then show ?thesis by auto
qed

text \<open>Property C16.  Type safety of the backend: in every state that an interface object of the local
  backend can reach through its operations, the descriptor cache has its full size, its used part is
  initialised, no name and no descriptor occurs twice, and every cached descriptor is open.\<close>

theorem local_reachable_wf:
  assumes "local_reachable (i, v)" and "priv_of i = Some a"
  shows "local_wf a v"
  by (rule reachable_wf [OF assms])

theorem local_reachable_wf_witness: "local_wf demo_private demo_vfs"
  by (rule local_reachable_wf [OF demo_local_reachable demo_local_priv])

text \<open>Property C14.  A write that returns \<open>XDEVICE_OK\<close> refines the write of the abstract file store: as
  long as no cached name was unlinked, the named file receives exactly the bytes at the offset (a gap is
  filled with zeros), every other file keeps its bytes, and the cache stays in step with the directory.\<close>

theorem local_write_refines:
  assumes "local_reachable (i, v)" and "priv_of i = Some a" and "synced a v"
    and "full = build_file_path (base_path a) p MAX_PATH_LEN" and "unat off < 2 ^ 63" and "unat sz < 2 ^ 63"
    and "local_storage_write_sync e v i (Some p) off (Some d) sz = Some (XDEVICE_OK, j, w)"
  shows "file_data w = (file_data v)(full \<mapsto> file_write (file_data v full) (unat off) (take (unat sz) d)) \<and>
    unat sz \<le> length d \<and> (\<exists>b. priv_of j = Some b \<and> synced b w)"
proof -
  have off: "0 \<le> sint off" and sz: "0 \<le> sint sz" using assms(5,6) by (simp_all add: sint_nonneg)
  note eff = write_effect [OF assms(7,2) reachable_wf [OF assms(1,2)] assms(3) off sz assms(4)]
  show ?thesis using eff assms(2) by (auto simp: priv_of_set_priv)
qed

theorem local_write_refines_witness:
  "\<exists>j w. local_storage_write_sync calm_env demo_vfs demo_local (Some ''a/b'') 2 (Some [7, 8, 9]) 3 =
      Some (XDEVICE_OK, j, w) \<and> file_data w ''/data/a/b'' = Some [0, 0, 7, 8, 9]"
proof -
  obtain j w where run: "local_storage_write_sync calm_env demo_vfs demo_local (Some ''a/b'') 2 (Some [7, 8, 9]) 3 =
      Some (XDEVICE_OK, j, w)"
    using demo_local_write by blast
  have full: "''/data/a/b'' = build_file_path (base_path demo_private) ''a/b'' MAX_PATH_LEN"
    by (simp add: build_file_path_def c_snprintf_def MAX_PATH_LEN_def)
  have "file_data demo_vfs ''/data/a/b'' = None" by (simp add: file_data_alt demo_vfs_def)
  moreover have "file_write None 2 [7, 8, 9] = [0, 0, 7, 8, 9 :: byte]"
    by (simp add: file_write_def overlay_def numeral_eq_Suc)
  ultimately show ?thesis
    using local_write_refines [OF demo_local_reachable demo_local_priv _ full _ _ run] run by simp
qed

text \<open>Property C15.  What was written survives a restart of the backend: after a successful write, a
  cleanup and a successful initialisation with the same base path, a read of the same range returns the
  written bytes.\<close>

theorem local_write_survives_restart:
  assumes reach: "local_reachable (i, v)" and a: "priv_of i = Some a" and sy: "synced a v"
    and rng: "unat off < 2 ^ 63" "unat sz < 2 ^ 63" "length d = unat sz" "length buf = unat sz"
    and base: "length (base_path a) < MAX_PATH_LEN"
    and wr: "local_storage_write_sync e v i (Some p) off (Some d) sz = Some (XDEVICE_OK, i1, v1)"
    and cl: "local_storage_cleanup v1 i1 = Some (ret, i2, v2)"
    and ini: "local_storage_init e2 v2 i2 (Some (base_path a)) = Some (XDEVICE_OK, i3, v3)"
    and ok: "sys_ok e3 0" "sys_ok e3 1" "sys_ok e3 6"
  shows "\<exists>j w. local_storage_read_sync e3 v3 i3 (Some p) off (Some buf) sz = Some (XDEVICE_OK, Some d, j, w)"
proof -
  let ?full = "build_file_path (base_path a) p MAX_PATH_LEN"
  have off: "0 \<le> sint off" and sz: "0 \<le> sint sz" using rng by (simp_all add: sint_nonneg)
  note wf = reachable_wf [OF reach a]
  note eff = write_effect [OF wr a wf sy off sz refl]
  obtain b where b: "i1 = set_priv (Some b) i" "local_wf b v1"
    using write_moves [OF wr a wf] by (auto simp: obj_moves_def local_moves_def)
  obtain u where u: "local_storage_cleanup v1 i1 = Some (XDEVICE_OK, set_priv None i1, u)"
      "names u = names v1" "inodes u = inodes v1" "vfs_wf u"
    by (rule cleanup_spec [OF _ b(2)]) (use a b(1) in \<open>auto simp: priv_of_set_priv\<close>)
  have v2: "v2 = u" using cl u(1) by simp
  note fr = init_frame [OF ini]
  have i3: "priv_of i3 = Some (local_default_private (base_path a))"
    using fr(6) base by (cases i2) auto
  have data: "file_data v3 = file_data v1" using fr(1,2) u v2 by (intro file_data_cong) auto
  have fresh: "synced (local_default_private (base_path a)) v3"
      "cache_index (local_default_private (base_path a)) ?full = None"
      "base_path (local_default_private (base_path a)) = base_path a"
    by (simp_all add: synced_def cache_index_def cached_def local_default_private_def)
  let ?c = "file_write (file_data v ?full) (unat off) d"
  obtain j w where "local_storage_read_sync e3 v3 i3 (Some p) off (Some buf) sz =
      Some (XDEVICE_OK, Some (overlay buf 0 (take (unat sz) (drop (unat off) ?c))), j, w)"
    by (rule read_effect [OF i3 default_private_wf [OF fr(4)] fresh(1), where p = p and off = off and sz = sz and buf = buf
          and e = e3 and full = ?full and c = ?c])
       (use u v2 fresh eff data rng off ok write_OK_short [OF wr a sz] in auto)
  then show ?thesis using take_drop_file_write [of d "unat off" "file_data v ?full"] rng by auto
qed

lemma demo_restart:
  "\<exists>i1 v1 i2 v2 i3 v3. local_storage_write_sync calm_env demo_vfs demo_local (Some ''a/b'') 2 (Some [7, 8, 9]) 3 =
      Some (XDEVICE_OK, i1, v1) \<and> local_storage_cleanup v1 i1 = Some (XDEVICE_OK, i2, v2) \<and>
      local_storage_init calm_env v2 i2 (Some ''/data'') = Some (XDEVICE_OK, i3, v3)"
proof -
  have "(do { (r1, i1, v1) \<leftarrow> local_storage_write_sync calm_env demo_vfs demo_local (Some ''a/b'') 2 (Some [7, 8, 9]) 3;
             (r2, i2, v2) \<leftarrow> local_storage_cleanup v1 i1;
             (r3, i3, v3) \<leftarrow> local_storage_init calm_env v2 i2 (Some ''/data'');
             Some (r1, r2, r3) }) = Some (XDEVICE_OK, XDEVICE_OK, XDEVICE_OK)"
    by code_simp
  then show ?thesis by (auto simp: bind_eq_Some_conv)
qed

theorem local_write_survives_restart_witness:
  "\<exists>v3 i3 j w. local_storage_read_sync calm_env v3 i3 (Some ''a/b'') 2 (Some [0, 0, 0]) 3 =
     Some (XDEVICE_OK, Some [7, 8, 9], j, w)"
proof -
  obtain i1 v1 i2 v2 i3 v3 where
      run: "local_storage_write_sync calm_env demo_vfs demo_local (Some ''a/b'') 2 (Some [7, 8, 9]) 3 = Some (XDEVICE_OK, i1, v1)"
      "local_storage_cleanup v1 i1 = Some (XDEVICE_OK, i2, v2)"
      "local_storage_init calm_env v2 i2 (Some (base_path demo_private)) = Some (XDEVICE_OK, i3, v3)"
    using demo_restart by auto
  show ?thesis
    using local_write_survives_restart [OF demo_local_reachable demo_local_priv _ _ _ _ _ _ run, of "[0, 0, 0]" calm_env]
    by (auto simp: MAX_PATH_LEN_def calm_env_def)
qed

text \<open>Property C17.  A name is stuck with the access mode of its first use: after a successful write that
  put a name into the descriptor cache, every read of that name fails with \<open>XDEVICE_ERROR_IO\<close>, whatever
  operations come between, because the cached descriptor was opened for writing only.\<close>

theorem local_read_after_write_fails:
  assumes reach: "local_reachable (i, v)" and a: "priv_of i = Some a"
    and new: "cache_index a (build_file_path (base_path a) p MAX_PATH_LEN) = None"
    and room: "fd_cache_size a < max_open_files a" and sz: "unat sz < 2 ^ 63"
    and wr: "local_storage_write_sync e v i (Some p) off (Some d) sz = Some (XDEVICE_OK, i1, v1)"
    and ops: "local_op\<^sup>*\<^sup>* (i1, v1) (i2, v2)" and sz': "sz' \<noteq> 0" "unat sz' < 2 ^ 63"
  shows "\<exists>j w. local_storage_read_sync e' v2 i2 (Some p) off' (Some buf) sz' = Some (XDEVICE_ERROR_IO, Some buf, j, w)"
proof -
  let ?full = "build_file_path (base_path a) p MAX_PATH_LEN"
  have ssz: "0 \<le> sint sz" "0 \<le> sint sz'" using sz sz' by (simp_all add: sint_nonneg)
  note wf = reachable_wf [OF reach a]
  have st1: "\<exists>b. priv_of i1 = Some b \<and> local_wf b v1 \<and> base_path b = base_path a \<and> stuck_mode b v1 ?full False True"
    using first_write_stuck [OF wr a wf new room ssz(1) refl] .
  from ops have "\<exists>b. priv_of i2 = Some b \<and> local_wf b v2 \<and> base_path b = base_path a \<and> stuck_mode b v2 ?full False True"
    using st1 by (rule stuck_mode_ops)
  then show ?thesis
    using read_stuck_fails write_OK_short [OF wr a ssz(1)] sz'(1) ssz(2) by metis
qed

theorem local_read_after_write_fails_witness:
  "\<exists>i1 v1 j w. local_storage_write_sync calm_env demo_vfs demo_local (Some ''a/b'') 2 (Some [7, 8, 9]) 3 =
      Some (XDEVICE_OK, i1, v1) \<and>
    local_storage_read_sync calm_env v1 i1 (Some ''a/b'') 2 (Some [0, 0, 0]) 3 =
      Some (XDEVICE_ERROR_IO, Some [0, 0, 0], j, w)"
proof -
  obtain i1 v1 where run: "local_storage_write_sync calm_env demo_vfs demo_local (Some ''a/b'') 2 (Some [7, 8, 9]) 3 =
      Some (XDEVICE_OK, i1, v1)"
    using demo_local_write by blast
  have "\<exists>j w. local_storage_read_sync calm_env v1 i1 (Some ''a/b'') 2 (Some [0, 0, 0]) 3 =
      Some (XDEVICE_ERROR_IO, Some [0, 0, 0], j, w)"
    by (rule local_read_after_write_fails [OF demo_local_reachable demo_local_priv _ _ _ run rtranclp.rtrancl_refl])
       (simp_all add: demo_private_facts)
  with run show ?thesis by blast
qed

text \<open>Property C18.  A write after a delete is lost without an error: when a name that the cache holds open
  for writing is deleted, the next write to it returns \<open>XDEVICE_OK\<close>, but no file of that name exists
  afterwards.\<close>

theorem local_write_after_delete_lost:
  assumes reach: "local_reachable (i, v)" and a: "priv_of i = Some a" and sy: "synced a v"
    and full: "full = build_file_path (base_path a) p MAX_PATH_LEN" "length full < MAX_PATH_LEN - 1" "parent_of full \<noteq> Some []"
    and st: "stuck_mode a v full rd True" and ex: "file_data v full = Some c"
    and del: "local_storage_delete_file e v i (Some p) = (XDEVICE_OK, v1)"
    and rng: "unat off < 2 ^ 63" "sz \<noteq> 0" "sz \<le> io_limit" "unat sz \<le> length d" and ok: "sys_ok e' 1" "sys_ok e' 6"
  shows "\<exists>j w. local_storage_write_sync e' v1 i (Some p) off (Some d) sz = Some (XDEVICE_OK, j, w) \<and>
    file_data w full = None \<and> fst (local_storage_get_file_info e'' w j (Some p) (Some fi)) \<noteq> XDEVICE_OK"
proof -
  note wf = reachable_wf [OF reach a]
  obtain ok' where ul: "sys_unlink ok' full v = (None, v1)"
    using del a by (auto simp: local_storage_delete_file_def full(1) split: option.splits prod.splits if_splits)
  note fr = sys_unlink_frame [OF ul]
  have m1: "local_moves (a, v) (a, v1)" by (rule unlink_moves [OF ul wf])
  have wf1: "local_wf a v1" using m1 by (simp add: local_moves_def)
  have st1: "stuck_mode a v1 full rd True" by (rule stuck_mode_moves [OF st wf m1])
  obtain t where t: "names v full = Some t" "inode_data v t = Some c"
    using ex by (auto simp: file_data_alt bind_eq_Some_conv)
  have tgt: "fd_target v1 k = Some t" if "fd_target v k = names v full" for k
    using that t fr(3) by (simp add: fd_target_def)
  obtain k where k: "fd_target v k = names v full" "\<And>e fl. \<exists>b. get_file_descriptor e a v full fl = Some (Some k, b, v)"
    by (rule stuck_descriptor [OF st wf full(2)]) (use sy in auto)
  obtain k1 where k1: "\<And>e fl. \<exists>b. get_file_descriptor e a v1 full fl = Some (Some k1, b, v1)"
    by (rule stuck_descriptor [OF st1 wf1 full(2)]) auto
  then have "k1 = k" using k(2) stuck_descriptor_any [OF st wf wf1 full(2)] by blast
  have "make_parents e' full v1 \<noteq> None" using full by (simp add: make_parents_None not_le)
  then obtain v0 where mp: "make_parents e' full v1 = Some v0" by auto
  have dt: "inode_data v1 t = Some c" using t(2) fr(2) by (simp add: inode_data_def)
  obtain b w where w: "local_storage_write_sync e' v1 i (Some p) off (Some d) sz = Some (XDEVICE_OK, set_priv (Some b) i, w)"
      "names w = names v1" "dirs w = dirs v0" "base_path b = base_path a"
    by (rule write_through [OF a wf1 full(1,2) mp st1 _ tgt [OF k(1)] dt])
       (use rng ok k1 \<open>k1 = k\<close> in \<open>auto simp: sint_nonneg\<close>)
  have gone: "names w full = None" using w(2) fr(4) by simp
  have "\<not> is_dir v1 full" using vfs_wfD(4) [OF local_wfD(1) [OF wf], of full] t(1) fr(1) by (auto simp: is_dir_def)
  then have "\<not> is_dir w full" using make_parents_dirs [OF mp] w(3) by (auto simp: is_dir_def)
  then have "fst (local_storage_get_file_info e'' w (set_priv (Some b) i) (Some p) (Some fi)) \<noteq> XDEVICE_OK"
    using a w(4) gone
    by (auto simp: local_storage_get_file_info_def priv_of_set_priv sys_stat_def full(1) split: sum.splits if_splits)
  with w gone show ?thesis by (auto simp: file_data_alt)
qed

lemma demo_deleted: "\<exists>j w u. local_storage_write_sync calm_env demo_vfs demo_local (Some ''a/b'') 2 (Some [7, 8, 9]) 3 =
    Some (XDEVICE_OK, j, w) \<and> local_storage_delete_file calm_env w j (Some ''a/b'') = (XDEVICE_OK, u)"
proof -
  have "(do { (r1, j, w) \<leftarrow> local_storage_write_sync calm_env demo_vfs demo_local (Some ''a/b'') 2 (Some [7, 8, 9]) 3;
             Some (r1, fst (local_storage_delete_file calm_env w j (Some ''a/b''))) }) = Some (XDEVICE_OK, XDEVICE_OK)"
    by code_simp
  then show ?thesis by (auto simp: bind_eq_Some_conv prod_eq_iff)
qed

theorem local_write_after_delete_lost_witness:
  "\<exists>i v1 j w. local_storage_write_sync calm_env v1 i (Some ''a/b'') 0 (Some [1]) 1 = Some (XDEVICE_OK, j, w) \<and>
     file_data w ''/data/a/b'' = None"
proof -
  let ?full = "''/data/a/b''"
  have full: "?full = build_file_path (base_path demo_private) ''a/b'' MAX_PATH_LEN" "length ?full < MAX_PATH_LEN - 1"
    by (simp_all add: build_file_path_def c_snprintf_def MAX_PATH_LEN_def)
  have par: "parent_of ?full \<noteq> Some []" by (simp add: parent_of_def)
  obtain i v v1 where run: "local_storage_write_sync calm_env demo_vfs demo_local (Some ''a/b'') 2 (Some [7, 8, 9]) 3 =
      Some (XDEVICE_OK, i, v)" and del: "local_storage_delete_file calm_env v i (Some ''a/b'') = (XDEVICE_OK, v1)"
    using demo_deleted by blast
  note wf = reachable_wf [OF demo_local_reachable demo_local_priv]
  have reach: "local_reachable (i, v)" by (rule local_reachable.operate [OF demo_local_reachable op_write [OF run]])
  obtain a where a: "priv_of i = Some a" "base_path a = ''/data''" "stuck_mode a v ?full False True"
    using first_write_stuck [OF run demo_local_priv wf _ _ _ full(1)] by auto
  have eff: "file_data v ?full \<noteq> None" "synced a v"
    using write_effect [OF run demo_local_priv wf _ _ _ full(1)] a(1) by (auto simp: priv_of_set_priv)
  then obtain c where c: "file_data v ?full = Some c" by blast
  have "\<exists>j w. local_storage_write_sync calm_env v1 i (Some ''a/b'') 0 (Some [1]) 1 = Some (XDEVICE_OK, j, w) \<and>
      file_data w ?full = None \<and> fst (local_storage_get_file_info calm_env w j (Some ''a/b'') (Some undefined)) \<noteq> XDEVICE_OK"
    by (rule local_write_after_delete_lost [OF reach a(1) eff(2) _ full(2) par a(3) c del])
       (use full a in \<open>simp_all add: calm_env_def io_limit_def\<close>)
  then show ?thesis by blast
qed

text \<open>Property C19.  When a write is undefined: for a call with a readable buffer, exactly when the full
  path fills its array (the copy of it has no terminating zero) or when it names an entry of the root
  directory (\<open>create_directories\<close> then reads the byte before its buffer).\<close>

theorem local_write_undefined_iff:
  assumes "local_reachable (i, v)" and "priv_of i = Some a" and "sz \<noteq> 0" and "unat sz \<le> length d"
    and "full = build_file_path (base_path a) p MAX_PATH_LEN"
  shows "local_storage_write_sync e v i (Some p) off (Some d) sz = None \<longleftrightarrow>
    length full = MAX_PATH_LEN - 1 \<or> parent_of full = Some []"
proof (cases "make_parents e full v")
  case None
  then have "local_storage_write_sync e v i (Some p) off (Some d) sz = None"
    using assms(2,3,5) by (simp add: local_storage_write_sync_def Let_def)
  then show ?thesis
    using None assms(5) length_build_file_path [of "base_path a" p] by (auto simp: make_parents_None)
next
  case (Some v0)
  note wf = reachable_wf [OF assms(1,2)]
  have wf0: "local_wf a v0" using make_parents_moves [OF Some wf] by (simp add: local_moves_def)
  have short: "\<not> MAX_PATH_LEN - 1 \<le> length full" "parent_of full \<noteq> Some []"
    using Some make_parents_None [of e full v] by auto
  then obtain r where r: "get_file_descriptor e a v0 full (O_WRONLY\<lparr>f_creat := True\<rparr>) = Some r"
    using descriptor_defined [OF wf0, of full e "O_WRONLY\<lparr>f_creat := True\<rparr>"] by auto
  have "unat (min sz io_limit) \<le> length d" using assms(4) by (simp add: min_def word_le_nat_alt)
  then have "local_storage_write_sync e v i (Some p) off (Some d) sz \<noteq> None"
    using assms(2,3,5) Some r
    by (auto simp: local_storage_write_sync_def Let_def split: option.splits prod.splits)
  then show ?thesis using short by auto
qed

theorem local_write_undefined_iff_witness:
  "local_storage_write_sync calm_env demo_vfs demo_local (Some ''/x'') 0 (Some [1]) 1 = None"
  using local_write_undefined_iff [OF demo_local_reachable demo_local_priv, of 1 "[1]" "''/x''" "''/x''" calm_env 0]
  by (simp add: build_file_path_def MAX_PATH_LEN_def parent_of_def)

text \<open>Property C31.  \<open>create_directories\<close> makes the whole chain of directories: unless a regular file is in
  the way or a call fails for another reason, it succeeds, the path and every prefix of it that ends at a
  slash are directories afterwards, and no file changes.\<close>

theorem create_directories_complete:
  assumes "\<And>k. sys_ok e k" and "path \<noteq> []" and "length path < MAX_PATH_LEN" and "trim_slash path \<noteq> []"
    and free: "\<And>q. names v (take q (trim_slash path)) = None"
  shows "\<exists>w. create_directories e path v = Some (XDEVICE_OK, w) \<and> is_dir w (trim_slash path) \<and>
    list_all (\<lambda>q. trim_slash path ! q = CHR ''/'' \<longrightarrow> is_dir w (take q (trim_slash path))) [1..<length (trim_slash path)] \<and>
    file_data w = file_data v"
proof -
  obtain w where w: "create_directories e path v = Some (XDEVICE_OK, w)" "is_dir w (trim_slash path)"
      "\<And>q. 0 < q \<Longrightarrow> q < length (trim_slash path) \<Longrightarrow> trim_slash path ! q = CHR ''/'' \<Longrightarrow> is_dir w (take q (trim_slash path))"
    by (rule create_directories_makes [OF assms(1-4) free]) blast
  moreover have "file_data w = file_data v" using create_directories_frame [OF w(1)] by (intro file_data_cong)
  ultimately show ?thesis by (auto simp: list_all_iff)
qed

theorem create_directories_complete_witness:
  "\<exists>w. create_directories calm_env ''/data/a/b/'' demo_vfs = Some (XDEVICE_OK, w) \<and> is_dir w ''/data/a/b'' \<and> is_dir w ''/data/a''"
proof -
  have t: "trim_slash ''/data/a/b/'' = ''/data/a/b''" by (simp add: trim_slash_def)
  have "\<exists>w. create_directories calm_env ''/data/a/b/'' demo_vfs = Some (XDEVICE_OK, w) \<and> is_dir w ''/data/a/b'' \<and>
    list_all (\<lambda>q. ''/data/a/b'' ! q = CHR ''/'' \<longrightarrow> is_dir w (take q ''/data/a/b'')) [1..<length ''/data/a/b''] \<and>
    file_data w = file_data demo_vfs"
    using create_directories_complete [of calm_env "''/data/a/b/''" demo_vfs]
    by (simp add: t calm_env_def MAX_PATH_LEN_def demo_vfs_def)
  then show ?thesis by (auto simp: upt_rec)
qed

text \<open>Fact.  Cleanup of an initialised backend always succeeds; it closes the descriptors in the
  cache and no others, so one that was opened while the cache was full stays open; the files are
  untouched.\<close>

theorem local_cleanup_closes:
  assumes "local_reachable (i, v)" and "priv_of i = Some a"
  shows "\<exists>w. local_storage_cleanup v i = Some (XDEVICE_OK, set_priv None i, w) \<and> file_data w = file_data v \<and>
    fd_file w = (\<lambda>fd. if \<exists>k en. cached a k = Some en \<and> c_fd en = fd then None else fd_file v fd)"
proof -
  obtain w where w: "local_storage_cleanup v i = Some (XDEVICE_OK, set_priv None i, w)"
      "fd_file w = (\<lambda>fd. if \<exists>k en. cached a k = Some en \<and> c_fd en = fd then None else fd_file v fd)"
      "names w = names v" "inodes w = inodes v"
    by (rule cleanup_spec [OF assms(2) reachable_wf [OF assms]])
  then show ?thesis using file_data_cong [OF w(3,4)] by blast
qed

theorem local_cleanup_closes_witness:
  "\<exists>w. local_storage_cleanup demo_vfs demo_local = Some (XDEVICE_OK, set_priv None demo_local, w) \<and>
    fd_file w = fd_file demo_vfs"
  using local_cleanup_closes [OF demo_local_reachable demo_local_priv] by auto

section \<open>The backend under the storage manager\<close>

text \<open>No entry of the table changes the type of the object, which is what the manager relies on: the
  results about reachable managers hold with local backends too.\<close>

lemma set_priv_same_type [simp]: "same_type f (set_priv q (Some f))" "same_type f (Some f)"
  by (simp_all add: same_type_def)

lemma local_table_keeps_type: "keeps_type local_table"
proof -
  have rd: "same_type f j" if "local_storage_read_sync e w (Some f) p n d z = Some (r, c, j, u)" for e w f p n d z r c j u
    using that by (auto simp: local_storage_read_sync_def Let_def bind_eq_Some_conv same_type_def case_prod_beta
        option.case_eq_if split: if_splits)
  have wr: "same_type f j" if "local_storage_write_sync e w (Some f) p n d z = Some (r, j, u)" for e w f p n d z r j u
    using that by (auto simp: local_storage_write_sync_def Let_def bind_eq_Some_conv same_type_def case_prod_beta
        option.case_eq_if split: if_splits)
  have fs: "same_type f j" if "local_storage_fsync e w (Some f) p = Some (r, j, u)" for e w f p r j u
    using that by (auto simp: local_storage_fsync_def bind_eq_Some_conv same_type_def split: option.splits)
  have cl: "same_type f j" if "local_storage_cleanup w (Some f) = Some (r, j, u)" for w f r j u
    using that by (auto simp: local_storage_cleanup_def bind_eq_Some_conv same_type_def split: option.splits)
  show ?thesis unfolding keeps_type_def local_table_def using rd wr fs cl by auto
qed

end
