(* ===== verification/XD_StorageTest.thy ===== *)
theory XD_StorageTest
  imports XD_Adapter XD_LocalSession
begin

text \<open>
  The test program \<open>src/test/storage_test.c\<close>: the same calls on each backend, on the storage manager and
  on the Raft storage adapter, and a performance run.  Its functions put the components together as a
  client does; what they return follows from the lemmas about the components.  Messages are left out.
\<close>

section \<open>The in-memory backend when nothing fails\<close>

definition mock_limits :: "mock_storage_private \<Rightarrow> bool" where
  "mock_limits priv \<longleftrightarrow> max_file_size priv = 1024 * 1024 * 1024 \<and> max_files priv = 1000 \<and>
     \<not> inject_read_errors priv \<and> \<not> inject_write_errors priv"

text \<open>The object holds the files \<open>c\<close> and has the limits that initialisation sets.\<close>

definition mock_holds :: "mock_iface \<Rightarrow> (string \<Rightarrow> byte list option) \<Rightarrow> bool" where
  "mock_holds i c \<longleftrightarrow> itype i = STORAGE_BACKEND_MOCK \<and>
     (\<exists>priv. private_data i = Some priv \<and> mock_inv priv \<and> mock_limits priv \<and> mock_contents priv = c)"

definition no_oom :: "call_env \<Rightarrow> bool" where
  "no_oom e \<longleftrightarrow> (\<forall>k. alloc e k) \<and> (\<forall>k. mutex_ok e k)"

lemma mock_contents_dom: "dom (mock_contents priv) = fpath ` set (files priv)"
proof -
  have "find_file priv p \<noteq> None \<longleftrightarrow> p \<in> fpath ` set (files priv)" for p
    using find_file_in_None_iff [of "files priv" p] by (auto simp: find_file_def)
  then show ?thesis by (auto simp: mock_contents_def dom_def)
qed

lemma mock_file_count:
  assumes "mock_inv priv"
  shows "unat (file_count priv) = card (dom (mock_contents priv))"
proof -
  have "card (set (map fpath (files priv))) = length (files priv)"
    using assms distinct_card [of "map fpath (files priv)"] by (simp add: mock_inv_def)
  then show ?thesis using assms by (simp add: mock_contents_dom mock_inv_def)
qed

lemma mock_limits_write:
  assumes "mock_storage_write_sync e (Some i) p off d sz = Some (ret, Some j)" and "private_data i = Some priv"
    and "mock_inv priv" and "mock_limits priv" and "p = Some q" and "length q < MAX_PATH_LEN" and "d = Some b"
    and "unat sz \<le> length b" and "unat off + unat sz < 2 ^ 63"
  shows "\<exists>priv'. private_data j = Some priv' \<and> mock_limits priv'"
proof -
  obtain r v where "mock_write_locked e priv q off b sz = Some (r, v)" "mock_config_eq v priv"
    using mock_write_locked_spec [OF assms(3,6,8,9), of e] by metis
  with assms show ?thesis
    by (auto simp: mock_storage_write_sync_def mock_config_eq_def mock_limits_def split: if_splits)
qed

lemma mock_holds_write:
  assumes "mock_holds i c" and "no_oom e" and p: "length p < MAX_PATH_LEN" and d: "d \<noteq> []" "length d \<le> 2 ^ 20"
    and room: "p \<in> dom c \<or> card (dom c) < 1000" and old: "length (the (c p)) \<le> 2 ^ 20 \<or> c p = None"
  shows "\<exists>j. mock_storage_write_sync e (Some i) (Some p) 0 (Some d) (of_nat (length d)) = Some (XDEVICE_OK, Some j) \<and>
    mock_holds j (c(p \<mapsto> file_write (c p) 0 d))"
proof -
  let ?sz = "of_nat (length d) :: u64"
  have sz: "unat ?sz = length d" using d(2) by (simp add: unat_of_nat)
  then have nz: "?sz \<noteq> 0" using d(1) by (metis length_0_conv unat_0)
  obtain priv where priv: "private_data i = Some priv" "mock_inv priv" "mock_limits priv" "mock_contents priv = c"
    using assms(1) by (auto simp: mock_holds_def)
  have b: "unat (0 :: u64) + unat ?sz < 2 ^ 63" using sz d(2) by simp
  have "find_file priv p \<noteq> None \<longleftrightarrow> p \<in> dom c" using priv(4) by (auto simp: mock_contents_def dom_def)
  moreover have "file_count priv < max_files priv \<longleftrightarrow> card (dom c) < 1000"
    using mock_file_count [OF priv(2)] priv(3,4) by (simp add: mock_limits_def word_less_nat_alt)
  ultimately have "find_file priv p \<noteq> None \<or> file_count priv < max_files priv" using room by simp
  moreover have "length (file_grow (mock_contents priv p) (unat (0 :: u64) + unat ?sz)) \<le> unat (max_file_size priv)"
    using old d(2) priv(3,4) sz by (auto simp: file_grow_def mock_limits_def split: option.splits)
  ultimately obtain j where run: "mock_storage_write_sync e (Some i) (Some p) 0 (Some d) ?sz = Some (XDEVICE_OK, Some j)"
    using mock_write_sync_succeeds [OF priv(1,2) p nz _ b, of d e] assms(2) priv(3) sz
    by (auto simp: no_oom_def mock_limits_def)
  have inv: "mock_iface_inv i" and cont: "mock_iface_contents i = c"
    using priv by (simp_all add: mock_iface_inv_def mock_iface_contents_def fun_eq_iff)
  have spec: "mock_iface_inv j \<and> itype j = itype i \<and> mock_iface_contents j = c(p \<mapsto> file_write (c p) 0 d)"
    by (rule mock_write_sync_spec [OF inv p nz _ b, of d e])
       (use run sz cont in \<open>auto simp: write_outcome_def\<close>)
  obtain priv' where priv': "private_data j = Some priv'" "mock_limits priv'"
    using mock_limits_write [OF run priv(1-3) refl p refl _ b] sz by auto
  have "mock_contents priv' = mock_iface_contents j" by (simp add: mock_iface_contents_def priv'(1) fun_eq_iff)
  then have "mock_holds j (c(p \<mapsto> file_write (c p) 0 d))"
    using spec priv' assms(1) by (auto simp: mock_holds_def mock_iface_inv_def)
  with run show ?thesis by blast
qed

lemma mock_holds_read:
  assumes "mock_holds i c" and "c p = Some b" and "b \<noteq> []" and "sz \<noteq> 0" and "unat sz \<le> length buf" and "unat sz < 2 ^ 63"
  shows "\<exists>j. mock_storage_read_sync e (Some i) (Some p) 0 (Some buf) sz =
      Some (XDEVICE_OK, Some (overlay buf 0 (file_read b 0 (unat sz))), Some j) \<and> mock_holds j c"
proof -
  obtain priv where priv: "private_data i = Some priv" "mock_inv priv" "mock_limits priv" "mock_contents priv = c"
    using assms(1) by (auto simp: mock_holds_def)
  have i: "mock_iface_inv i" "mock_iface_quiet e i" "mock_iface_contents i p = Some b"
    using priv assms(2) by (simp_all add: mock_iface_defs mock_quiet_def mock_limits_def)
  obtain j where run: "mock_storage_read_sync e (Some i) (Some p) 0 (Some buf) sz =
      Some (XDEVICE_OK, Some (overlay buf 0 (file_read b 0 (unat sz))), Some j)"
    using mock_read_sync_spec [OF i(1,2) assms(4,5) _ i(3), where off = 0] assms(3,6) by auto
  obtain st where "private_data j = Some (priv\<lparr>mstats := st\<rparr>)"
    using mock_read_sync_frame [OF run priv(1)] .
  moreover have "itype j = itype i" using run priv(1) by (auto simp: mock_storage_read_sync_def bind_eq_Some_conv split: if_splits)
  ultimately show ?thesis
    using run priv assms(1) by (auto simp: mock_holds_def mock_limits_def)
qed

section \<open>The test of one backend\<close>

text \<open>The environments of the calls, in order, and what the output variables hold before them.\<close>

record test_env =
  call :: "nat \<Rightarrow> call_env"
  stack_info :: storage_file_info
  stack_stats :: storage_stats
  stack_manager :: storage_manager
  stack_adapter :: raft_storage_adapter
  stack_buffer :: "nat \<Rightarrow> byte list"
  heap_buffer :: "byte list"

definition text_bytes :: "string \<Rightarrow> byte list" where
  "text_bytes s = map of_char s"

definition test_path :: string where
  "test_path = ''test_file.dat''"

definition test_data :: "byte list" where
  "test_data = text_bytes ''Hello, XDevice Storage!''"

text \<open>The read buffer after \<open>memset\<close>.\<close>

definition zero_buffer :: "byte list" where
  "zero_buffer = replicate 128 0"

lemma length_zero_buffer [simp]: "length zero_buffer = 128"
  by (simp add: zero_buffer_def)

text \<open>The steps 1 to 5: initialisation, health check, creation of the file, a write and a sync.  The
  result is 0, or -1 after the first failure.\<close>

definition test_prepare ::
  "test_env \<Rightarrow> ('p, 'w) storage_interface \<Rightarrow> 'w \<Rightarrow> (int \<times> ('p, 'w) storage_interface \<times> 'w) option" where
  "test_prepare te storage w0 = do {
     init \<leftarrow> init_fn storage;
     (ret, i, w) \<leftarrow> init (call te 0) w0 (Some (self_of storage)) (Some ''/tmp/xdevice_test'');
     let s = put_self i storage;
     if ret \<noteq> XDEVICE_OK then Some (- 1, s, w)
     else do {
       health \<leftarrow> health_check_fn s;
       if health (call te 1) w (Some (self_of s)) \<noteq> XDEVICE_OK then Some (- 1, s, w)
       else do {
         create \<leftarrow> create_file_fn s;
         (ret, i, w) \<leftarrow> create (call te 2) w (Some (self_of s)) (Some test_path) 1024;
         let s = put_self i s;
         if ret \<noteq> XDEVICE_OK then Some (- 1, s, w)
         else do {
           write_sync \<leftarrow> write_sync_fn s;
           (ret, i, w) \<leftarrow> write_sync (call te 3) w (Some (self_of s)) (Some test_path) 0 (Some test_data)
              (of_nat (length test_data));
           let s = put_self i s;
           if ret \<noteq> XDEVICE_OK then Some (- 1, s, w)
           else
             (case fsync_fn s of
                None \<Rightarrow> Some (0, s, w)
              | Some sync \<Rightarrow> do {
                  (ret, i, w) \<leftarrow> sync (call te 4) w (Some (self_of s)) (Some test_path);
                  Some (if ret \<noteq> XDEVICE_OK then - 1 else 0, put_self i s, w) }) } } } }"

text \<open>The steps 6 to 11: reading back, comparison, file information, statistics, deletion and cleanup.\<close>

definition test_check ::
  "test_env \<Rightarrow> ('p, 'w) storage_interface \<Rightarrow> 'w \<Rightarrow> (int \<times> ('p, 'w) storage_interface \<times> 'w) option" where
  "test_check te s w = do {
     read_sync \<leftarrow> read_sync_fn s;
     (ret, buf, i, w) \<leftarrow> read_sync (call te 5) w (Some (self_of s)) (Some test_path) 0 (Some zero_buffer)
        (of_nat (length test_data));
     read_buffer \<leftarrow> buf;
     let s = put_self i s;
     if ret \<noteq> XDEVICE_OK then Some (- 1, s, w)
     else if take (length test_data) read_buffer \<noteq> test_data then Some (- 1, s, w)
     else do {
       get_info \<leftarrow> get_file_info_fn s;
       (ret, info) \<leftarrow> get_info (call te 6) w (Some (self_of s)) (Some test_path) (Some (stack_info te));
       if ret \<noteq> XDEVICE_OK then Some (- 1, s, w)
       else do {
         get_stats \<leftarrow> get_stats_fn s;
         if fst (get_stats (Some (self_of s)) (Some (stack_stats te))) \<noteq> XDEVICE_OK then Some (- 1, s, w)
         else do {
           delete \<leftarrow> delete_file_fn s;
           (ret, i, w) \<leftarrow> delete (call te 7) w (Some (self_of s)) (Some test_path);
           let s = put_self i s;
           if ret \<noteq> XDEVICE_OK then Some (- 1, s, w)
           else do {
             cleanup \<leftarrow> cleanup_fn s;
             (ret, i, w) \<leftarrow> cleanup (call te 8) w (Some (self_of s));
             Some (if ret \<noteq> XDEVICE_OK then - 1 else 0, put_self i s, w) } } } } }"

definition test_storage_interface ::
  "test_env \<Rightarrow> ('p, 'w) storage_interface \<Rightarrow> 'w \<Rightarrow> (int \<times> ('p, 'w) storage_interface \<times> 'w) option" where
  "test_storage_interface te storage w0 = do {
     (ret, s, w) \<leftarrow> test_prepare te storage w0;
     if ret \<noteq> 0 then Some (ret, s, w) else test_check te s w }"

section \<open>The in-memory backend passes\<close>

definition calm_test :: "test_env \<Rightarrow> bool" where
  "calm_test te \<longleftrightarrow> (\<forall>k. no_oom (call te k)) \<and> (\<forall>k. length (stack_buffer te k) = 128) \<and>
     length (heap_buffer te) = 4096"

lemma length_test_data [simp]: "length test_data = 23"
  by (simp add: test_data_def text_bytes_def)

lemma table_fns [simp]:
  "init_fn (put_self i b) = init_fn b" "create_file_fn (put_self i b) = create_file_fn b"
  "delete_file_fn (put_self i b) = delete_file_fn b" "get_file_info_fn (put_self i b) = get_file_info_fn b"
  "get_stats_fn (put_self i b) = get_stats_fn b"
  by (cases i; simp add: put_self_def)+

lemma mock_init_holds:
  assumes "no_oom e" and "itype i = STORAGE_BACKEND_MOCK"
  shows "\<exists>j. mock_storage_init e (Some i) config = (XDEVICE_OK, Some j) \<and> mock_holds j Map.empty"
  using assms
  by (simp add: mock_storage_init_def no_oom_def mock_holds_def mock_inv_default mock_limits_def
      mock_default_private_def mock_contents_def find_file_def fun_eq_iff)
     (simp add: mock_inv_def)

lemma mock_holds_create:
  assumes "mock_holds i c" and "no_oom e" and "c p = None" and "card (dom c) < 1000" and "length p < MAX_PATH_LEN"
  shows "\<exists>j. mock_storage_create_file e (Some i) (Some p) n = (XDEVICE_OK, Some j) \<and>
    mock_holds j (c(p \<mapsto> replicate (unat n) 0))"
proof -
  obtain priv where priv: "private_data i = Some priv" "mock_inv priv" "mock_limits priv" "mock_contents priv = c"
    using assms(1) by (auto simp: mock_holds_def)
  have none: "find_file priv p = None" using priv(4) assms(3) by (auto simp: mock_contents_def)
  have "file_count priv < max_files priv"
    using mock_file_count [OF priv(2)] priv(3,4) assms(4) by (simp add: mock_limits_def word_less_nat_alt)
  then obtain priv' where new: "create_new_file e priv p n = Some priv'"
    using assms(2) by (auto simp: create_new_file_def no_oom_def Let_def not_le)
  have "mock_limits priv'" using create_new_file_SomeD [OF new] priv(3) by (auto simp: mock_limits_def)
  with create_new_file_inv [OF new priv(2) none assms(5)] none new priv assms(1) show ?thesis
    by (simp add: mock_storage_create_file_def mock_holds_def)
qed

lemma mock_holds_delete:
  assumes "mock_holds i c" and "p \<in> dom c"
  shows "\<exists>j. mock_storage_delete_file (Some i) (Some p) = (XDEVICE_OK, Some j) \<and> private_data j \<noteq> None"
proof -
  obtain priv where priv: "private_data i = Some priv" "mock_contents priv = c"
    using assms(1) by (auto simp: mock_holds_def)
  then have "remove_file_in (files priv) p \<noteq> None"
    using assms(2) mock_contents_dom [of priv] by (simp add: remove_file_in_None)
  then show ?thesis using priv(1) by (auto simp: mock_storage_delete_file_def remove_file_def)
qed

lemma mock_table_fields [simp]:
  "itype mock_table = STORAGE_BACKEND_MOCK"
  "init_fn mock_table = Some (\<lambda>e w i c. Some (case mock_storage_init e i c of (ret, i') \<Rightarrow> (ret, i', w)))"
  "cleanup_fn mock_table = Some (\<lambda>e w i. Some (case mock_storage_cleanup i of (ret, i') \<Rightarrow> (ret, i', w)))"
  "health_check_fn mock_table = Some (\<lambda>e w i. mock_storage_health_check i)"
  "read_sync_fn mock_table = Some (\<lambda>e w i p off buf n.
     map_option (\<lambda>(ret, b, i'). (ret, b, i', w)) (mock_storage_read_sync e i p off buf n))"
  "write_sync_fn mock_table = Some (\<lambda>e w i p off d n.
     map_option (\<lambda>(ret, i'). (ret, i', w)) (mock_storage_write_sync e i p off d n))"
  "fsync_fn mock_table = Some (\<lambda>e w i p. Some (mock_storage_fsync i p, i, w))"
  "create_file_fn mock_table = Some (\<lambda>e w i p n. Some (case mock_storage_create_file e i p n of (ret, i') \<Rightarrow> (ret, i', w)))"
  "delete_file_fn mock_table = Some (\<lambda>e w i p. Some (case mock_storage_delete_file i p of (ret, i') \<Rightarrow> (ret, i', w)))"
  "get_file_info_fn mock_table = Some (\<lambda>e w i p inf. Some (mock_storage_get_file_info i p inf))"
  "get_stats_fn mock_table = Some mock_storage_get_stats"
  by (simp_all add: mock_table_def)

lemma mock_holds_answers:
  assumes "mock_holds i c"
  shows "mock_storage_health_check (Some i) = XDEVICE_OK" "mock_storage_fsync (Some i) (Some p) = XDEVICE_OK"
    "fst (mock_storage_get_stats (Some i) (Some st)) = XDEVICE_OK"
    "p \<in> dom c \<Longrightarrow> fst (mock_storage_get_file_info (Some i) (Some p) (Some out)) = XDEVICE_OK"
  using assms
  by (auto simp: mock_holds_def mock_storage_health_check_def mock_storage_fsync_def mock_storage_get_stats_def
      mock_storage_get_file_info_def mock_contents_def dom_def Let_def split: option.splits)

lemma mock_prepare:
  fixes w :: 'w
  assumes "calm_test te"
  shows "\<exists>j c. test_prepare te mock_table w = Some (0, put_self (Some j) mock_table, w) \<and>
    mock_holds j [test_path \<mapsto> c] \<and> take 23 c = test_data"
proof -
  have calm: "no_oom (call te k)" for k using assms by (simp add: calm_test_def)
  have p: "length test_path < MAX_PATH_LEN" by (simp add: test_path_def MAX_PATH_LEN_def)
  let ?i = "self_of (mock_table :: (mock_storage_private, 'w) storage_interface)"
  obtain j0 where 0: "mock_storage_init (call te 0) (Some ?i) (Some ''/tmp/xdevice_test'') =
      (XDEVICE_OK, Some j0)" "mock_holds j0 Map.empty"
    using mock_init_holds [OF calm, of ?i] by auto
  obtain j1 where 1: "mock_storage_create_file (call te 2) (Some j0) (Some test_path) 1024 = (XDEVICE_OK, Some j1)"
      "mock_holds j1 [test_path \<mapsto> replicate 1024 0]"
    using mock_holds_create [OF 0(2) calm _ _ p, of 2 1024] by auto
  let ?c = "file_write (Some (replicate 1024 0)) 0 test_data"
  obtain j2 where 2: "mock_storage_write_sync (call te 3) (Some j1) (Some test_path) 0 (Some test_data) 23 =
      Some (XDEVICE_OK, Some j2)" "mock_holds j2 [test_path \<mapsto> ?c]"
    using mock_holds_write [OF 1(2) calm p, of test_data 3] by (auto simp: test_data_def text_bytes_def)
  have "test_prepare te mock_table w = Some (0, put_self (Some j2) mock_table, w)"
    using 0 1 2 mock_holds_answers(1) [OF 0(2)] mock_holds_answers(2) [OF 2(2)]
    by (simp add: test_prepare_def Let_def put_self_twice)
  moreover have "take 23 ?c = test_data" by (simp add: file_write_def overlay_def)
  ultimately show ?thesis using 2(2) by blast
qed

lemma mock_check:
  fixes w :: 'w
  assumes j: "mock_holds j [test_path \<mapsto> c]" and c: "take 23 c = test_data"
  shows "\<exists>s. test_check te (put_self (Some j) mock_table) w = Some (0, s, w) \<and> private_data s = None"
proof -
  have ne: "c \<noteq> []" using c by (auto simp: test_data_def text_bytes_def)
  have "length c \<ge> 23" using arg_cong [OF c, of length] by simp
  then have "take 23 (overlay zero_buffer 0 (file_read c 0 23)) = test_data"
    using c by (simp add: overlay_def file_read_def)
  then obtain rb j1 where 1: "mock_storage_read_sync (call te 5) (Some j) (Some test_path) 0 (Some zero_buffer) 23 =
      Some (XDEVICE_OK, Some rb, Some j1)" "mock_holds j1 [test_path \<mapsto> c]" and same: "take 23 rb = test_data"
    using mock_holds_read [OF j _ ne, where p = test_path and sz = 23 and buf = zero_buffer and e = "call te 5"] by auto
  obtain out where info: "mock_storage_get_file_info (Some j1) (Some test_path) (Some (stack_info te)) = (XDEVICE_OK, out)"
    using mock_holds_answers(4) [OF 1(2), of test_path "stack_info te"] by (metis domI fst_conv fun_upd_same surj_pair)
  obtain j2 where 2: "mock_storage_delete_file (Some j1) (Some test_path) = (XDEVICE_OK, Some j2)" "private_data j2 \<noteq> None"
    using mock_holds_delete [OF 1(2), of test_path] by auto
  obtain j3 where 3: "mock_storage_cleanup (Some j2) = (XDEVICE_OK, Some j3)" "private_data j3 = None"
    using 2(2) by (auto simp: mock_storage_cleanup_def)
  have stats: "fst (mock_storage_get_stats (Some j1) (Some (stack_stats te))) = XDEVICE_OK"
    by (rule mock_holds_answers(3) [OF 1(2)])
  have "test_check te (put_self (Some j) mock_table) w = Some (0, put_self (Some j3) mock_table, w)"
    unfolding test_check_def
    by (simp add: put_self_twice 1(1) same info stats 2(1) 3(1))
  moreover have "private_data (put_self (Some j3) mock_table) = None" using 3(2) by (simp add: put_self_def)
  ultimately show ?thesis by blast
qed

lemma mock_test_passes:
  assumes "calm_test te"
  shows "\<exists>s. test_storage_interface te mock_table w = Some (0, s, w) \<and> private_data s = None"
proof -
  obtain j c where 1: "test_prepare te mock_table w = Some (0, put_self (Some j) mock_table, w)"
      "mock_holds j [test_path \<mapsto> c]" "take 23 c = test_data"
    using mock_prepare [OF assms, of w] by (elim exE conjE)
  obtain s where "test_check te (put_self (Some j) mock_table) w = Some (0, s, w)" "private_data s = None"
    using mock_check [OF 1(2,3), of te w] by (elim exE conjE)
  moreover from this 1(1) have "test_storage_interface te mock_table w = Some (0, s, w)"
    by (simp only: test_storage_interface_def bind.simps prod.case if_False simp_thms)
  ultimately show ?thesis by blast
qed

section \<open>The local backend does not pass\<close>

lemma local_table_fields [simp]:
  "init_fn local_table = Some local_storage_init" "health_check_fn local_table = Some local_storage_health_check"
  "read_sync_fn local_table = Some local_storage_read_sync" "write_sync_fn local_table = Some local_storage_write_sync"
  "fsync_fn local_table = Some local_storage_fsync" "create_file_fn local_table = Some local_storage_create_file"
  by (simp_all add: local_table_def)

lemma local_init_defined:
  assumes "c \<noteq> []"
  shows "local_storage_init e v i (Some c) \<noteq> None"
proof -
  have "c_strncpy (MAX_PATH_LEN - 1) c \<noteq> []" using assms by (simp add: c_strncpy_def MAX_PATH_LEN_def)
  then obtain r w where "create_directories e (c_strncpy (MAX_PATH_LEN - 1) c) v = Some (r, w)"
    using create_directories_None [of e "c_strncpy (MAX_PATH_LEN - 1) c" v] by fastforce
  then show ?thesis by (simp add: local_storage_init_def Let_def split: option.split)
qed

text \<open>On a path that fits and does not lie in the root directory the calls are defined.\<close>

definition plain_path :: "local_iface option \<Rightarrow> string \<Rightarrow> bool" where
  "plain_path i p \<longleftrightarrow> (\<forall>a. priv_of i = Some a \<longrightarrow>
     length (build_file_path (base_path a) p MAX_PATH_LEN) < MAX_PATH_LEN - 1 \<and>
     parent_of (build_file_path (base_path a) p MAX_PATH_LEN) \<noteq> Some [])"

lemma local_calls_defined:
  assumes a: "priv_of i = Some a" and wf: "local_wf a v" and p: "plain_path i p"
  shows "local_storage_create_file e v i (Some p) n \<noteq> None" and "local_storage_fsync e v i (Some p) \<noteq> None"
    and "unat sz \<le> length d \<Longrightarrow> local_storage_write_sync e v i (Some p) off (Some d) sz \<noteq> None"
proof -
  let ?full = "build_file_path (base_path a) p MAX_PATH_LEN"
  have full: "length ?full < MAX_PATH_LEN - 1" "parent_of ?full \<noteq> Some []" using p a by (auto simp: plain_path_def)
  then obtain v0 where mp: "make_parents e ?full v = Some v0"
    using make_parents_None [of e ?full v] by fastforce
  then have "local_wf a v0" using make_parents_moves [OF mp wf] by (simp add: local_moves_def)
  then obtain r where r: "get_file_descriptor e a v0 ?full (O_WRONLY\<lparr>f_creat := True\<rparr>) = Some r"
    using descriptor_defined [OF _ full(1)] by blast
  show "local_storage_create_file e v i (Some p) n \<noteq> None"
    using a mp by (simp add: local_storage_create_file_def Let_def split: prod.split sum.split bool.split)
  show "local_storage_fsync e v i (Some p) \<noteq> None"
    using a descriptor_defined [OF wf full(1), of e O_WRONLY] by (auto simp: local_storage_fsync_def)
  assume "unat sz \<le> length d"
  then have "unat (min sz io_limit) \<le> length d" by (simp add: min_def word_le_nat_alt)
  then show "local_storage_write_sync e v i (Some p) off (Some d) sz \<noteq> None"
    using a mp r by (auto simp: local_storage_write_sync_def Let_def split: option.splits prod.splits)
qed

lemma local_create_same:
  assumes "local_storage_create_file e v i p n = Some (ret, j, w)"
  shows "j = i"
proof (cases "priv_of i = None \<or> p = None")
  case True
  then show ?thesis using assms by (auto simp: local_storage_create_file_def split: option.splits)
next
  case False
  then obtain a q where aq: "priv_of i = Some a" "p = Some q" by auto
  then obtain v0 where v0: "make_parents e (build_file_path (base_path a) q MAX_PATH_LEN) v = Some v0"
    using assms by (auto simp: local_storage_create_file_def Let_def bind_eq_Some_conv)
  obtain r u where o: "sys_open (sys_ok e 0) (now e) (build_file_path (base_path a) q MAX_PATH_LEN)
      (O_WRONLY\<lparr>f_creat := True, f_excl := True\<rparr>) v0 = (r, u)" by fastforce
  show ?thesis
  proof (cases r)
    case (Inr fd)
    obtain ok x where "sys_ftruncate (sys_ok e 3) (now e) fd n u = (ok, x)" by fastforce
    then show ?thesis
      using assms aq v0 o Inr by (auto simp: local_storage_create_file_def Let_def split: if_splits bool.splits)
  qed (use assms aq v0 o in \<open>simp add: local_storage_create_file_def Let_def\<close>)
qed

definition test_full :: string where
  "test_full = ''/tmp/xdevice_test/test_file.dat''"

lemma test_full:
  "build_file_path ''/tmp/xdevice_test'' test_path MAX_PATH_LEN = test_full"
  "length test_full < MAX_PATH_LEN - 1" "parent_of test_full \<noteq> Some []"
  by (simp_all add: build_file_path_def test_path_def test_full_def c_snprintf_def parent_of_def MAX_PATH_LEN_def)

text \<open>The backend of the test after initialisation, and after the first write.\<close>

definition local_ready :: "local_iface option \<Rightarrow> vfs \<Rightarrow> bool" where
  "local_ready i v \<longleftrightarrow> (\<exists>a. priv_of i = Some a \<and> local_wf a v \<and> base_path a = ''/tmp/xdevice_test'' \<and>
     cache_index a test_full = None \<and> fd_cache_size a < max_open_files a)"

definition local_written :: "local_iface option \<Rightarrow> vfs \<Rightarrow> bool" where
  "local_written i v \<longleftrightarrow> (\<exists>a. priv_of i = Some a \<and> local_wf a v \<and> base_path a = ''/tmp/xdevice_test'' \<and>
     stuck_mode a v test_full False True)"

lemma test_plain_path:
  "local_ready i v \<Longrightarrow> plain_path i test_path" "local_written i v \<Longrightarrow> plain_path i test_path"
  using test_full by (auto simp: local_ready_def local_written_def plain_path_def)

lemma local_init_ready:
  assumes "local_storage_init e v i (Some ''/tmp/xdevice_test'') = Some (XDEVICE_OK, j, w)" and "vfs_wf v"
  shows "local_ready j w \<and> j \<noteq> None"
proof -
  have "vfs_wf w" by (rule init_frame(4) [OF assms])
  moreover have "c_strncpy (MAX_PATH_LEN - 1) ''/tmp/xdevice_test'' = ''/tmp/xdevice_test''"
    by (simp add: c_strncpy_def MAX_PATH_LEN_def)
  moreover have "cache_index (local_default_private b) p = None" for b p
    by (simp add: cache_index_def local_default_private_def)
  ultimately show ?thesis
    using init_frame(6) [OF assms(1)] default_private_wf [of w "''/tmp/xdevice_test''"]
    by (auto simp: local_ready_def priv_of_set_priv local_default_private_def)
qed

lemma local_create_ready:
  assumes "local_storage_create_file e v i (Some p) n = Some (ret, j, w)" and "local_ready i v"
  shows "local_ready j w"
proof -
  obtain a where a: "priv_of i = Some a" "local_wf a v" "base_path a = ''/tmp/xdevice_test''"
      "cache_index a test_full = None" "fd_cache_size a < max_open_files a"
    using assms(2) by (auto simp: local_ready_def)
  have "obj_moves i v i w" using create_moves [OF assms(1) a(1,2)] local_create_same [OF assms(1)] by simp
  then obtain b where b: "i = set_priv (Some b) i" "local_wf b w" using a(1) by (auto simp: obj_moves_def local_moves_def)
  have "priv_of (set_priv (Some b) i) = Some b" using a(1) by (simp add: priv_of_set_priv)
  with b a(1) have "local_wf a w" by simp
  then show ?thesis using a local_create_same [OF assms(1)] by (auto simp: local_ready_def)
qed

lemma local_ready_write:
  assumes "local_storage_write_sync e v i (Some test_path) off (Some d) sz = Some (XDEVICE_OK, j, w)" and "local_ready i v"
    and "0 \<le> sint sz"
  shows "local_written j w"
proof -
  obtain a where a: "priv_of i = Some a" "local_wf a v" "base_path a = ''/tmp/xdevice_test''"
      "cache_index a test_full = None" "fd_cache_size a < max_open_files a"
    using assms(2) by (auto simp: local_ready_def)
  have "test_full = build_file_path (base_path a) test_path MAX_PATH_LEN" using a(3) test_full(1) by simp
  from first_write_stuck [OF assms(1) a(1,2,4,5) assms(3) this] show ?thesis
    using a(3) by (simp add: local_written_def)
qed

lemma local_written_fsync:
  assumes "local_storage_fsync e v i p = Some (ret, j, w)" and "local_written i v"
  shows "local_written j w"
proof -
  have "local_op\<^sup>*\<^sup>* (i, v) (j, w)" using op_fsync [OF assms(1)] by (rule r_into_rtranclp)
  from stuck_mode_ops [OF this] assms(2) show ?thesis by (simp add: local_written_def)
qed

lemma local_written_Some: "local_written i v \<Longrightarrow> \<exists>k. i = Some k"
  by (cases i) (auto simp: local_written_def)

lemma local_written_read:
  assumes "local_written i v" and "sz \<noteq> 0" and "0 \<le> sint sz"
  shows "\<exists>j w. local_storage_read_sync e v i (Some test_path) off (Some buf) sz = Some (XDEVICE_ERROR_IO, Some buf, j, w)"
  using assms(1) read_stuck_fails [OF _ _ _ test_full(2) _ assms(2,3)] test_full(1)
  by (auto simp: local_written_def)

text \<open>The result of the first five steps, whatever fails.\<close>

lemma local_prepare:
  assumes "vfs_wf v"
  shows "\<exists>r s w. test_prepare te local_table v = Some (r, s, w) \<and>
    (r = - 1 \<or> r = 0 \<and> (\<exists>i. s = put_self (Some i) local_table \<and> local_written (Some i) w))"
proof -
  let ?i = "self_of local_table"
  obtain r0 j0 w0 where 0: "local_storage_init (call te 0) v (Some ?i) (Some ''/tmp/xdevice_test'') = Some (r0, j0, w0)"
    using local_init_defined [of "''/tmp/xdevice_test''" "call te 0" v "Some ?i"] by fastforce
  show ?thesis
  proof (cases "r0 = XDEVICE_OK \<and> local_storage_health_check (call te 1) w0 j0 = XDEVICE_OK")
    case False
    then show ?thesis using 0 assms init_frame(6) [OF 0]
      by (auto simp: test_prepare_def Let_def)
  next
    case True
    then obtain i0 where j0: "j0 = Some i0" and rdy: "local_ready j0 w0" using 0 local_init_ready assms by blast
    obtain a0 where a0: "priv_of j0 = Some a0" "local_wf a0 w0" using rdy by (auto simp: local_ready_def)
    obtain r1 j1 w1 where 1: "local_storage_create_file (call te 2) w0 j0 (Some test_path) 1024 = Some (r1, j1, w1)"
      using local_calls_defined(1) [OF a0 test_plain_path(1) [OF rdy]] by fastforce
    then have j1: "j1 = j0" and rdy1: "local_ready j0 w1"
      using local_create_same local_create_ready rdy by blast+
    obtain a1 where a1: "priv_of j0 = Some a1" "local_wf a1 w1" using rdy1 by (auto simp: local_ready_def)
    obtain r2 j2 w2 where 2: "local_storage_write_sync (call te 3) w1 j0 (Some test_path) 0 (Some test_data) 23 = Some (r2, j2, w2)"
      using local_calls_defined(3) [OF a1 test_plain_path(1) [OF rdy1], of 23 test_data] by fastforce
    show ?thesis
    proof (cases "r1 = XDEVICE_OK \<and> r2 = XDEVICE_OK")
      case False
      then show ?thesis using 0 True 1 2 j0 j1
        by (auto simp: test_prepare_def Let_def put_self_twice)
    next
      case OK: True
      then have wr: "local_written j2 w2" using local_ready_write 2 rdy1 by simp
      obtain i2 where j2: "j2 = Some i2" using local_written_Some [OF wr] by blast
      obtain a2 where a2: "priv_of j2 = Some a2" "local_wf a2 w2" using wr by (auto simp: local_written_def)
      obtain r3 j3 w3 where 3: "local_storage_fsync (call te 4) w2 j2 (Some test_path) = Some (r3, j3, w3)"
        using local_calls_defined(2) [OF a2 test_plain_path(2) [OF wr]] by fastforce
      then have wr3: "local_written j3 w3" using local_written_fsync wr by blast
      then obtain i3 where "j3 = Some i3" using local_written_Some by blast
      with 0 True 1 2 3 OK j0 j1 j2 wr3 show ?thesis
        by (auto simp: test_prepare_def Let_def put_self_twice)
    qed
  qed
qed

lemma local_test_fails:
  assumes "vfs_wf v"
  shows "\<exists>s w. test_storage_interface te local_table v = Some (- 1, s, w)"
proof -
  obtain r s w where 1: "test_prepare te local_table v = Some (r, s, w)"
      "r = - 1 \<or> r = 0 \<and> (\<exists>i. s = put_self (Some i) local_table \<and> local_written (Some i) w)"
    using local_prepare [OF assms, of te] by blast
  show ?thesis
  proof (cases "r = 0")
    case True
    with 1(2) obtain i where i: "s = put_self (Some i) local_table" "local_written (Some i) w" by auto
    obtain j u where "local_storage_read_sync (call te 5) w (Some i) (Some test_path) 0 (Some zero_buffer) 23 =
        Some (XDEVICE_ERROR_IO, Some zero_buffer, j, u)"
      using local_written_read [OF i(2), of 23 "call te 5" 0 zero_buffer] by auto
    then have "test_check te s w = Some (- 1, put_self j s, u)" by (simp add: test_check_def i(1))
    with 1(1) True show ?thesis by (simp add: test_storage_interface_def)
  qed (use 1 in \<open>simp add: test_storage_interface_def\<close>)
qed

section \<open>The tests of the manager and of the Raft adapter\<close>

text \<open>\<open>mock_storage->init(mock_storage, NULL)\<close> on the object at \<open>a\<close>.\<close>

definition call_init ::
  "call_env \<Rightarrow> ('p, 'w) sys \<Rightarrow> nat \<Rightarrow> (xdevice_error \<times> ('p, 'w) sys) option" where
  "call_init e s a = do {
     b \<leftarrow> objs s a;
     init \<leftarrow> init_fn b;
     (ret, i, w) \<leftarrow> init e (os s) (Some (self_of b)) None;
     Some (ret, s\<lparr>objs := (objs s)(a \<mapsto> put_self i b), os := w\<rparr>) }"

definition manager_text :: "byte list" where
  "manager_text = text_bytes ''Storage Manager Test Data''"

text \<open>The operations through the manager and its cleanup.\<close>

definition test_manager_calls ::
  "test_env \<Rightarrow> (mock_storage_private, 'w) sys \<Rightarrow> storage_manager
     \<Rightarrow> (int \<times> (mock_storage_private, 'w) sys) option" where
  "test_manager_calls te s0 manager = do {
     let test_data_len = of_nat (length manager_text);
     (ret, m, s) \<leftarrow> storage_manager_write (call te 3) s0 (Some manager) (Some ''manager_test.dat'') 0
        (Some manager_text) test_data_len;
     if ret \<noteq> XDEVICE_OK then Some (- 1, s)
     else do {
       (ret, buf, m, s) \<leftarrow> storage_manager_read (call te 4) s m (Some ''manager_test.dat'') 0 (Some zero_buffer)
          test_data_len;
       read_buffer \<leftarrow> buf;
       if ret \<noteq> XDEVICE_OK then Some (- 1, s)
       else if take (length manager_text) read_buffer \<noteq> manager_text then Some (- 1, s)
       else do {
         (ret, m, s) \<leftarrow> storage_manager_cleanup (call te 5) s m;
         Some (if ret \<noteq> XDEVICE_OK then - 1 else 0, s) } } }"

text \<open>The whole test; \<open>p\<close> is the result of \<open>malloc\<close> in the constructor.\<close>

definition test_storage_manager ::
  "test_env \<Rightarrow> nat option \<Rightarrow> (mock_storage_private, 'w) sys \<Rightarrow> (int \<times> (mock_storage_private, 'w) sys) option" where
  "test_storage_manager te p s0 =
     (case storage_manager_init (call te 0) (Some (stack_manager te)) of
        (ret, m) \<Rightarrow>
          if ret \<noteq> XDEVICE_OK then Some (- 1, s0)
          else
            (case create_mock_storage_interface p s0 of
               (None, s) \<Rightarrow> Some (- 1, s)
             | (Some mock_storage, s) \<Rightarrow> do {
                 (ret, s) \<leftarrow> call_init (call te 1) s mock_storage;
                 if ret \<noteq> XDEVICE_OK then Some (- 1, s)
                 else do {
                   (ret, m, s) \<leftarrow> storage_manager_register_backend (call te 2) s m (Some mock_storage);
                   if ret \<noteq> XDEVICE_OK then Some (- 1, s)
                   else do {
                     manager \<leftarrow> m;
                     test_manager_calls te s (manager\<lparr>primary_backend := STORAGE_BACKEND_MOCK\<rparr>) } } }))"

definition log_text :: "byte list" where
  "log_text = text_bytes ''Log Entry #1: Test Transaction''"

definition state_text :: "byte list" where
  "state_text = text_bytes ''current_term=5,voted_for=node2''"

definition snapshot_text :: "byte list" where
  "snapshot_text = text_bytes ''Snapshot at index 100: Application State Checkpoint''"

text \<open>The operations of the adapter and the cleanup; the buffers are not initialised and their contents are not
  looked at.\<close>

definition test_adapter_calls ::
  "test_env \<Rightarrow> (mock_storage_private, 'w) sys \<Rightarrow> storage_manager \<Rightarrow> raft_storage_adapter option
     \<Rightarrow> (int \<times> (mock_storage_private, 'w) sys) option" where
  "test_adapter_calls te s manager adapter = do {
     (ret, x) \<leftarrow> raft_storage_append_log (call te 3) (s, manager) adapter 1 (Some log_text) (size_arg log_text);
     if ret \<noteq> XDEVICE_OK then Some (- 1, fst x)
     else do {
       (ret, b, x) \<leftarrow> raft_storage_read_log (call te 4) x adapter 1 (Some (stack_buffer te 0)) (Some 128);
       if ret \<noteq> XDEVICE_OK then Some (- 1, fst x)
       else do {
         (ret, x) \<leftarrow> raft_storage_save_state (call te 5) x adapter (Some ''persistent_state'') (Some state_text)
            (size_arg state_text);
         if ret \<noteq> XDEVICE_OK then Some (- 1, fst x)
         else do {
           (ret, b, x) \<leftarrow> raft_storage_load_state (call te 6) x adapter (Some ''persistent_state'')
              (Some (stack_buffer te 1)) (Some 128);
           if ret \<noteq> XDEVICE_OK then Some (- 1, fst x)
           else do {
             (ret, x) \<leftarrow> raft_storage_save_snapshot (call te 7) x adapter 100 (Some snapshot_text)
                (size_arg snapshot_text);
             if ret \<noteq> XDEVICE_OK then Some (- 1, fst x)
             else do {
               (ret, b, x) \<leftarrow> raft_storage_load_snapshot (call te 8) x adapter 100 (Some (stack_buffer te 2)) (Some 128);
               if ret \<noteq> XDEVICE_OK then Some (- 1, fst x)
               else if fst (raft_storage_adapter_cleanup adapter) \<noteq> XDEVICE_OK then Some (- 1, fst x)
               else do {
                 (ret, m, s) \<leftarrow> storage_manager_cleanup (call te 9) (fst x) (Some (snd x));
                 Some (if ret \<noteq> XDEVICE_OK then - 1 else 0, s) } } } } } } }"

text \<open>Here the constructor's result and two return codes are not checked.\<close>

definition test_raft_storage_adapter ::
  "test_env \<Rightarrow> nat option \<Rightarrow> (mock_storage_private, 'w) sys \<Rightarrow> (int \<times> (mock_storage_private, 'w) sys) option" where
  "test_raft_storage_adapter te p s0 =
     (case storage_manager_init (call te 0) (Some (stack_manager te)) of
        (ret, m) \<Rightarrow>
          if ret \<noteq> XDEVICE_OK then Some (- 1, s0)
          else
            (case create_mock_storage_interface p s0 of
               (iface, s) \<Rightarrow> do {
                 mock_storage \<leftarrow> iface;
                 (ret, s) \<leftarrow> call_init (call te 1) s mock_storage;
                 (ret, m, s) \<leftarrow> storage_manager_register_backend (call te 2) s m iface;
                 v \<leftarrow> m;
                 let manager = v\<lparr>primary_backend := STORAGE_BACKEND_MOCK\<rparr>;
                 (case raft_storage_adapter_init (Some (stack_adapter te)) (Some manager) (Some ''raft1_'') of
                    (ret, adapter) \<Rightarrow>
                      if ret \<noteq> XDEVICE_OK then Some (- 1, s)
                      else test_adapter_calls te s manager adapter) }))"

section \<open>A manager over one in-memory backend\<close>

definition mock_managed ::
  "nat \<Rightarrow> storage_manager \<Rightarrow> (mock_storage_private, 'w) sys \<Rightarrow> (string \<Rightarrow> byte list option) \<Rightarrow> bool" where
  "mock_managed a m s c \<longleftrightarrow> manager_rep m [a] \<and> primary_backend m = STORAGE_BACKEND_MOCK \<and>
     (\<exists>j. objs s a = Some (put_self (Some j) mock_table) \<and> mock_holds j c)"

lemma managed_select:
  assumes "mock_managed a m s c"
  shows "select_backend e s (Some m) = Some (Some a)"
proof -
  obtain j where j: "objs s a = Some (put_self (Some j) mock_table)" "mock_holds j c"
    using assms by (auto simp: mock_managed_def)
  have rep: "manager_rep m [a]" using assms by (simp add: mock_managed_def)
  have "backend_at s m 0 = Some (a, put_self (Some j) mock_table)"
    using manager_repD(5) [OF rep, of 0] j(1) by (simp add: backend_at_def)
  moreover have "itype (put_self (Some j) (mock_table :: (mock_storage_private, 'w) storage_interface)) = STORAGE_BACKEND_MOCK"
    using j(2) by (simp add: put_self_def mock_holds_def)
  moreover have "healthy e s (put_self (Some j) mock_table)"
    using mock_holds_answers(1) [OF j(2)] by (simp add: healthy_def)
  moreover have "backend_count m \<noteq> 0" using manager_repD(2) [OF rep] by (auto simp: unat_eq_zero)
  ultimately show ?thesis
    using manager_repD(4) [OF rep] assms by (simp add: select_backend_def mock_managed_def)
qed

lemma managed_write:
  assumes x: "mock_managed a (snd x) (fst x) c" and e: "no_oom e" and p: "length p < MAX_PATH_LEN"
    and d: "d \<noteq> []" "length d \<le> 2 ^ 20" and room: "card (dom c) < 1000" and new: "c p = None"
  shows "\<exists>y. mgr_wr e x p 0 d (of_nat (length d)) = Some (XDEVICE_OK, y) \<and> mock_managed a (snd y) (fst y) (c(p \<mapsto> d))"
proof -
  obtain s m where sm: "x = (s, m)" by (cases x)
  obtain j where j: "objs s a = Some (put_self (Some j) mock_table)" "mock_holds j c"
    and rep: "manager_rep m [a]" "primary_backend m = STORAGE_BACKEND_MOCK"
    using x by (auto simp: mock_managed_def sm)
  have w: "file_write (c p) 0 d = d" using new by (simp add: file_write_def overlay_def)
  obtain k where k: "mock_storage_write_sync e (Some j) (Some p) 0 (Some d) (of_nat (length d)) = Some (XDEVICE_OK, Some k)"
      "mock_holds k (c(p \<mapsto> d))"
    using mock_holds_write [OF j(2) e p d] room new w by auto
  have "(of_nat (length d) :: u64) \<noteq> 0"
  proof
    assume "(of_nat (length d) :: u64) = 0"
    then have "unat (of_nat (length d) :: u64) = 0" by simp
    then show False using d by (simp add: unat_of_nat)
  qed
  then show ?thesis
    using managed_select [of a m s c e] x j(1) k rep
    by (auto simp: sm mgr_wr_def storage_manager_write_def mock_managed_def put_self_twice update_stats_def)
qed

lemma managed_read:
  assumes x: "mock_managed a (snd x) (fst x) c" and c: "c p = Some b" "b \<noteq> []"
    and sz: "sz \<noteq> 0" "unat sz \<le> length buf" "unat sz < 2 ^ 63"
  shows "\<exists>y. mgr_rd e x p 0 buf sz = Some (XDEVICE_OK, overlay buf 0 (file_read b 0 (unat sz)), y) \<and>
    mock_managed a (snd y) (fst y) c"
proof -
  obtain s m where sm: "x = (s, m)" by (cases x)
  obtain j where j: "objs s a = Some (put_self (Some j) mock_table)" "mock_holds j c"
    and rep: "manager_rep m [a]" "primary_backend m = STORAGE_BACKEND_MOCK"
    using x by (auto simp: mock_managed_def sm)
  obtain k where k: "mock_storage_read_sync e (Some j) (Some p) 0 (Some buf) sz =
      Some (XDEVICE_OK, Some (overlay buf 0 (file_read b 0 (unat sz))), Some k)" "mock_holds k c"
    using mock_holds_read [OF j(2) c sz, of e] by auto
  then show ?thesis
    using managed_select [of a m s c e] x j(1) rep sz(1)
    by (auto simp: sm mgr_rd_def storage_manager_read_def mock_managed_def put_self_twice update_stats_def)
qed

lemma managed_cleanup:
  assumes "mock_managed a m s c"
  shows "\<exists>m' s'. storage_manager_cleanup e s (Some m) = Some (XDEVICE_OK, m', s')"
proof -
  obtain j where j: "objs s a = Some (put_self (Some j) mock_table)" "mock_holds j c" and rep: "manager_rep m [a]"
    using assms by (auto simp: mock_managed_def)
  have "backends m \<noteq> []" using manager_repD(1) [OF rep] by (auto simp: MAX_STORAGE_BACKENDS_def)
  then show ?thesis
    using manager_repD(4) [OF rep] manager_repD(5) [OF rep, of 0] j(1)
    by (auto simp: storage_manager_cleanup_def set_slot_def call_cleanup_def split: prod.splits)
qed

text \<open>The common beginning of the two tests.\<close>

lemma managed_setup:
  fixes s :: "(mock_storage_private, 'w) sys"
  assumes "calm_test te"
  shows "\<exists>s1. call_init (call te 1) (s\<lparr>objs := (objs s)(a \<mapsto> mock_table)\<rparr>) a = Some (XDEVICE_OK, s1) \<and>
    (\<exists>m. storage_manager_register_backend (call te 2) s1 (Some manager_defaults) (Some a) = Some (XDEVICE_OK, Some m, s1) \<and>
      mock_managed a (m\<lparr>primary_backend := STORAGE_BACKEND_MOCK\<rparr>) s1 Map.empty)"
proof -
  let ?i = "self_of (mock_table :: (mock_storage_private, 'w) storage_interface)"
  have "no_oom (call te 1)" using assms by (simp add: calm_test_def)
  then obtain j where j: "mock_storage_init (call te 1) (Some ?i) None = (XDEVICE_OK, Some j)" "mock_holds j Map.empty"
    using mock_init_holds [of "call te 1" ?i None] by auto
  define s1 where "s1 = s\<lparr>objs := (objs s)(a \<mapsto> put_self (Some j) mock_table)\<rparr>"
  have "call_init (call te 1) (s\<lparr>objs := (objs s)(a \<mapsto> mock_table)\<rparr>) a = Some (XDEVICE_OK, s1)"
    using j(1) by (simp add: call_init_def s1_def)
  moreover define m where "m = manager_defaults\<lparr>backends := (backends manager_defaults)[0 := Some a], backend_count := 1\<rparr>"
  have "storage_manager_register_backend (call te 2) s1 (Some manager_defaults) (Some a) = Some (XDEVICE_OK, Some m, s1)"
    by (simp add: storage_manager_register_backend_def s1_def m_def manager_defaults_def loop_range_def set_slot_def
        MAX_STORAGE_BACKENDS_def)
  moreover have "mock_managed a (m\<lparr>primary_backend := STORAGE_BACKEND_MOCK\<rparr>) s1 Map.empty"
    using j(2) by (auto simp: mock_managed_def manager_rep_def m_def manager_defaults_def MAX_STORAGE_BACKENDS_def s1_def
        numeral_eq_Suc)
  ultimately show ?thesis by blast
qed

lemma manager_calls_pass:
  assumes te: "calm_test te" and m: "mock_managed a m s Map.empty"
  shows "\<exists>s'. test_manager_calls te s m = Some (0, s')"
proof -
  have e: "no_oom (call te k)" for k using te by (simp add: calm_test_def)
  have len: "length manager_text = 25" by (simp add: manager_text_def text_bytes_def)
  then have d: "manager_text \<noteq> []" by auto
  have p: "length ''manager_test.dat'' < MAX_PATH_LEN" by (simp add: MAX_PATH_LEN_def)
  obtain y1 where "mgr_wr (call te 3) (s, m) ''manager_test.dat'' 0 manager_text 25 = Some (XDEVICE_OK, y1)"
      and y1: "mock_managed a (snd y1) (fst y1) [''manager_test.dat'' \<mapsto> manager_text]"
    using managed_write [of a "(s, m)" Map.empty "call te 3" "''manager_test.dat''" manager_text] m e p d len by auto
  then obtain s1 m1 where 1: "storage_manager_write (call te 3) s (Some m) (Some ''manager_test.dat'') 0 (Some manager_text) 25 =
      Some (XDEVICE_OK, Some m1, s1)" "y1 = (s1, m1)"
    by (auto simp: mgr_wr_def bind_eq_Some_conv)
  obtain y2 where "mgr_rd (call te 4) y1 ''manager_test.dat'' 0 zero_buffer 25 =
        Some (XDEVICE_OK, overlay zero_buffer 0 (file_read manager_text 0 25), y2)"
      and y2: "mock_managed a (snd y2) (fst y2) [''manager_test.dat'' \<mapsto> manager_text]"
    using managed_read [OF y1 _ d, of "''manager_test.dat''" 25 zero_buffer "call te 4"] by auto
  then obtain s2 m2 where 2: "storage_manager_read (call te 4) s1 (Some m1) (Some ''manager_test.dat'') 0 (Some zero_buffer) 25 =
      Some (XDEVICE_OK, Some (overlay zero_buffer 0 (file_read manager_text 0 25)), Some m2, s2)" "y2 = (s2, m2)"
    by (auto simp: mgr_rd_def bind_eq_Some_conv 1(2))
  have same: "take 25 (overlay zero_buffer 0 (file_read manager_text 0 25)) = manager_text"
    by (simp add: overlay_def file_read_def len)
  obtain m3 s3 where 3: "storage_manager_cleanup (call te 5) s2 (Some m2) = Some (XDEVICE_OK, m3, s3)"
    using managed_cleanup [of a m2 s2 _ "call te 5"] y2 2(2) by fastforce
  show ?thesis by (simp add: test_manager_calls_def len 1(1) 2(1) same 3)
qed

lemma manager_test_passes:
  assumes te: "calm_test te"
  shows "\<exists>s'. test_storage_manager te (Some a) s = Some (0, s')"
proof -
  obtain s1 m where 1: "call_init (call te 1) (s\<lparr>objs := (objs s)(a \<mapsto> mock_table)\<rparr>) a = Some (XDEVICE_OK, s1)"
      "storage_manager_register_backend (call te 2) s1 (Some manager_defaults) (Some a) = Some (XDEVICE_OK, Some m, s1)"
      "mock_managed a (m\<lparr>primary_backend := STORAGE_BACKEND_MOCK\<rparr>) s1 Map.empty"
    using managed_setup [OF te, of s a] by (elim exE conjE)
  obtain s' where "test_manager_calls te s1 (m\<lparr>primary_backend := STORAGE_BACKEND_MOCK\<rparr>) = Some (0, s')"
    using manager_calls_pass [OF te 1(3)] by blast
  moreover have "mutex_ok (call te 0) 0" using te by (simp add: calm_test_def no_oom_def)
  ultimately show ?thesis
    using 1(1,2) by (simp add: test_storage_manager_def storage_manager_init_def create_mock_storage_interface_def)
qed

text \<open>One save and the load after it, for a key that is not stored yet.\<close>

lemma adapter_save_load:
  assumes x: "mock_managed a (snd x) (fst x) c" and te: "calm_test te" and room: "card (dom c) < 999" and new: "c (adapter_path ad k) = None"
    and d: "d \<noteq> []" "length d \<le> 2 ^ 20"
  shows "\<exists>y z b. mgr_wr (call te i) x (adapter_path ad k) 0 d (size_arg d) = Some (XDEVICE_OK, y) \<and>
    mgr_rd (call te j) y (adapter_path ad k) 0 (stack_buffer te l) 128 = Some (XDEVICE_OK, b, z) \<and>
    mock_managed a (snd z) (fst z) (c(adapter_path ad k \<mapsto> d))"
proof -
  have e: "no_oom (call te i)" and buf: "length (stack_buffer te l) = 128" using te by (simp_all add: calm_test_def)
  have p: "length (adapter_path ad k) < MAX_PATH_LEN"
    unfolding adapter_path_def by (rule length_c_snprintf) (simp add: MAX_PATH_LEN_def)
  obtain y where y: "mgr_wr (call te i) x (adapter_path ad k) 0 d (size_arg d) = Some (XDEVICE_OK, y)"
      "mock_managed a (snd y) (fst y) (c(adapter_path ad k \<mapsto> d))"
    using managed_write [OF x e p d _ new] room by (auto simp: size_arg_def)
  obtain z where "mgr_rd (call te j) y (adapter_path ad k) 0 (stack_buffer te l) 128 =
      Some (XDEVICE_OK, overlay (stack_buffer te l) 0 (file_read d 0 128), z)"
      "mock_managed a (snd z) (fst z) (c(adapter_path ad k \<mapsto> d))"
    using managed_read [OF y(2) _ d(1), of "adapter_path ad k" 128 "stack_buffer te l" "call te j"] buf by auto
  with y(1) show ?thesis by blast
qed

lemma test_texts:
  "log_text \<noteq> [] \<and> length log_text \<le> 2 ^ 20" "state_text \<noteq> [] \<and> length state_text \<le> 2 ^ 20"
  "snapshot_text \<noteq> [] \<and> length snapshot_text \<le> 2 ^ 20"
  by (simp_all add: log_text_def state_text_def snapshot_text_def text_bytes_def)

lemma test_text_sizes: "size_arg log_text \<noteq> 0" "size_arg state_text \<noteq> 0" "size_arg snapshot_text \<noteq> 0"
  by (simp_all add: log_text_def state_text_def snapshot_text_def text_bytes_def size_arg_def)

lemma adapter_calls_pass:
  assumes te: "calm_test te" and m: "mock_managed a m s Map.empty" and ad: "adapter_wf ad" "length (device_prefix ad) < 100"
  shows "\<exists>s'. test_adapter_calls te s m (Some ad) = Some (0, s')"
proof -
  have keys: "adapter_path ad (LogKey 1) \<noteq> adapter_path ad (StateKey ''persistent_state'')"
      "adapter_path ad (LogKey 1) \<noteq> adapter_path ad (SnapKey 100)"
      "adapter_path ad (StateKey ''persistent_state'') \<noteq> adapter_path ad (SnapKey 100)"
    using ad(2) length_dec_string_u64 [of 1] length_dec_string_u64 [of 100]
    by (simp_all add: adapter_path_def MAX_PATH_LEN_def)
  let ?c1 = "[adapter_path ad (LogKey 1) \<mapsto> log_text]"
  let ?c2 = "?c1(adapter_path ad (StateKey ''persistent_state'') \<mapsto> state_text)"
  obtain x1 y1 b1 where 1: "mgr_wr (call te 3) (s, m) (adapter_path ad (LogKey 1)) 0 log_text (size_arg log_text) = Some (XDEVICE_OK, x1)"
      "mgr_rd (call te 4) x1 (adapter_path ad (LogKey 1)) 0 (stack_buffer te 0) 128 = Some (XDEVICE_OK, b1, y1)"
      "mock_managed a (snd y1) (fst y1) ?c1"
    using adapter_save_load [of a "(s, m)" Map.empty te ad "LogKey 1" log_text 3 4 0] m te test_texts(1) by auto
  have new2: "?c1 (adapter_path ad (StateKey ''persistent_state'')) = None" using keys by simp
  have room2: "card (dom ?c1) < 999" by simp
  obtain x2 y2 b2 where 2: "mgr_wr (call te 5) y1 (adapter_path ad (StateKey ''persistent_state'')) 0 state_text
        (size_arg state_text) = Some (XDEVICE_OK, x2)"
      "mgr_rd (call te 6) x2 (adapter_path ad (StateKey ''persistent_state'')) 0 (stack_buffer te 1) 128 = Some (XDEVICE_OK, b2, y2)"
      "mock_managed a (snd y2) (fst y2) ?c2"
    using adapter_save_load [OF 1(3) te room2 new2, of state_text 5 6 1] test_texts(2) by blast
  have new3: "?c2 (adapter_path ad (SnapKey 100)) = None" using keys by auto
  have room3: "card (dom ?c2) < 999" by (simp add: card_insert_if)
  obtain x3 y3 b3 where 3: "mgr_wr (call te 7) y2 (adapter_path ad (SnapKey 100)) 0 snapshot_text
        (size_arg snapshot_text) = Some (XDEVICE_OK, x3)"
      "mgr_rd (call te 8) x3 (adapter_path ad (SnapKey 100)) 0 (stack_buffer te 2) 128 = Some (XDEVICE_OK, b3, y3)"
      and y3: "mock_managed a (snd y3) (fst y3) (?c2(adapter_path ad (SnapKey 100) \<mapsto> snapshot_text))"
    using adapter_save_load [OF 2(3) te room3 new3, of snapshot_text 7 8 2] test_texts(3) by blast
  obtain m4 s4 where 4: "storage_manager_cleanup (call te 9) (fst y3) (Some (snd y3)) = Some (XDEVICE_OK, m4, s4)"
    using managed_cleanup [OF y3] by blast
  show ?thesis
    using adapter_loads(1) [OF ad(1) 1(2)] adapter_loads(2) [OF ad(1) 2(2)] adapter_loads(3) [OF ad(1) 3(2)] 1(1) 2(1) 3(1) 4
      test_text_sizes
    by (simp add: test_adapter_calls_def adapter_saves [OF ad(1)] raft_storage_adapter_cleanup_def)
qed

lemma adapter_test_passes:
  assumes te: "calm_test te"
  shows "\<exists>s'. test_raft_storage_adapter te (Some a) s = Some (0, s')"
proof -
  obtain s1 m where 1: "call_init (call te 1) (s\<lparr>objs := (objs s)(a \<mapsto> mock_table)\<rparr>) a = Some (XDEVICE_OK, s1)"
      "storage_manager_register_backend (call te 2) s1 (Some manager_defaults) (Some a) = Some (XDEVICE_OK, Some m, s1)"
      "mock_managed a (m\<lparr>primary_backend := STORAGE_BACKEND_MOCK\<rparr>) s1 Map.empty"
    using managed_setup [OF te, of s a] by (elim exE conjE)
  let ?m = "m\<lparr>primary_backend := STORAGE_BACKEND_MOCK\<rparr>"
  obtain ad where ad: "raft_storage_adapter_init (Some (stack_adapter te)) (Some ?m) (Some ''raft1_'') = (XDEVICE_OK, Some ad)"
      "device_prefix ad = ''raft1_''"
    by (simp add: raft_storage_adapter_init_def c_strncpy_def)
  obtain s' where "test_adapter_calls te s1 ?m (Some ad) = Some (0, s')"
    using adapter_calls_pass [OF te 1(3) adapter_init_wf [OF ad(1)]] ad(2) by auto
  moreover have "mutex_ok (call te 0) 0" using te by (simp add: calm_test_def no_oom_def)
  ultimately show ?thesis
    using 1(1,2) ad(1)
    by (simp add: test_raft_storage_adapter_def storage_manager_init_def create_mock_storage_interface_def Let_def)
qed

section \<open>The performance run\<close>

definition perf_path :: "nat \<Rightarrow> string" where
  "perf_path i = c_snprintf 64 (''perf_test_'' @ dec_string i @ ''.dat'')"

definition perf_data :: "byte list" where
  "perf_data = replicate 4096 171"

lemma length_perf_data [simp]: "length perf_data = 4096"
  by (simp add: perf_data_def)

text \<open>The two loops; each ends at the first call that fails.\<close>

fun perf_writes ::
  "test_env \<Rightarrow> ('p, 'w) storage_interface \<Rightarrow> 'w \<Rightarrow> nat list \<Rightarrow> (('p, 'w) storage_interface \<times> 'w) option" where
  "perf_writes te s w [] = Some (s, w)"
| "perf_writes te s w (i # is) = do {
     write_sync \<leftarrow> write_sync_fn s;
     (ret, j, w) \<leftarrow> write_sync (call te i) w (Some (self_of s)) (Some (perf_path i)) 0 (Some perf_data) 4096;
     if ret \<noteq> XDEVICE_OK then Some (put_self j s, w) else perf_writes te (put_self j s) w is }"

fun perf_reads ::
  "test_env \<Rightarrow> ('p, 'w) storage_interface \<Rightarrow> 'w \<Rightarrow> byte list \<Rightarrow> nat list
     \<Rightarrow> (('p, 'w) storage_interface \<times> 'w) option" where
  "perf_reads te s w buf [] = Some (s, w)"
| "perf_reads te s w buf (i # is) = do {
     read_sync \<leftarrow> read_sync_fn s;
     (ret, out, j, w) \<leftarrow> read_sync (call te (1000 + i)) w (Some (self_of s)) (Some (perf_path i)) 0 (Some buf) 4096;
     read_buffer \<leftarrow> out;
     if ret \<noteq> XDEVICE_OK then Some (put_self j s, w) else perf_reads te (put_self j s) w read_buffer is }"

text \<open>The run; \<open>created\<close> tells whether the constructor gets its memory.  The result is the return value and
  the statistics that it prints; times and throughput are left out.\<close>

definition test_performance :: "test_env \<Rightarrow> bool \<Rightarrow> 'w \<Rightarrow> (int \<times> storage_stats option \<times> 'w) option" where
  "test_performance te created w0 =
     (if \<not> created then Some (- 1, None, w0)
      else do {
        let s = (mock_table :: (mock_storage_private, 'w) storage_interface);
        init \<leftarrow> init_fn s;
        (ret, i, w) \<leftarrow> init (call te 2000) w0 (Some (self_of s)) None;
        let s = put_self i s;
        if ret \<noteq> XDEVICE_OK then Some (- 1, None, w)
        else do {
          let s = put_self (mock_storage_set_delays (Some (self_of s)) 100 200) s;
          if \<not> alloc (call te 2001) 0 \<or> \<not> alloc (call te 2001) 1 then Some (- 1, None, w)
          else do {
            (s, w) \<leftarrow> perf_writes te s w [0..<1000];
            (s, w) \<leftarrow> perf_reads te s w (heap_buffer te) [0..<1000];
            get_stats \<leftarrow> get_stats_fn s;
            let stats = snd (get_stats (Some (self_of s)) (Some (stack_stats te)));
            cleanup \<leftarrow> cleanup_fn s;
            (ret, i, w) \<leftarrow> cleanup (call te 2002) w (Some (self_of s));
            Some (0, stats, w) } } })"

text \<open>The results of the tests in order; \<open>p\<close> holds the results of \<open>malloc\<close> in the constructors.\<close>

definition test_main ::
  "(nat \<Rightarrow> test_env) \<Rightarrow> (nat \<Rightarrow> nat option) \<Rightarrow> (mock_storage_private, vfs) sys \<Rightarrow> (int \<times> vfs) option" where
  "test_main te p s0 = do {
     (r1, v) \<leftarrow> (case p 0 of
        None \<Rightarrow> Some (0, os s0)
      | Some _ \<Rightarrow> map_option (\<lambda>(r, s, v). (r, v)) (test_storage_interface (te 0) mock_table (os s0)));
     (r2, v) \<leftarrow> (case p 1 of
        None \<Rightarrow> Some (0, v)
      | Some _ \<Rightarrow> map_option (\<lambda>(r, s, v). (r, v)) (test_storage_interface (te 1) local_table v));
     (r3, s) \<leftarrow> test_storage_manager (te 2) (p 2) (s0\<lparr>os := v\<rparr>);
     (r4, s) \<leftarrow> test_raft_storage_adapter (te 3) (p 3) s;
     (r5, stats, v) \<leftarrow> test_performance (te 4) (p 4 \<noteq> None) (os s);
     Some (if r1 \<noteq> 0 \<or> r2 \<noteq> 0 \<or> r3 \<noteq> 0 \<or> r4 \<noteq> 0 \<or> r5 \<noteq> 0 then - 1 else 0, v) }"

text \<open>The state between two operations of the run: the files hold the test data, at most \<open>n\<close> of them, and the
  statistics have counted \<open>r\<close> reads and \<open>n\<close> writes of 4096 bytes.\<close>

definition perf_counts :: "mock_iface \<Rightarrow> nat \<Rightarrow> nat \<Rightarrow> bool" where
  "perf_counts i r n \<longleftrightarrow> (\<exists>priv. private_data i = Some priv \<and>
     read_ops (mstats priv) = of_nat r \<and> read_bytes (mstats priv) = 4096 * of_nat r \<and>
     write_ops (mstats priv) = of_nat n \<and> write_bytes (mstats priv) = 4096 * of_nat n)"

definition perf_files :: "nat \<Rightarrow> (string \<Rightarrow> byte list option) \<Rightarrow> bool" where
  "perf_files n c \<longleftrightarrow> card (dom c) \<le> n \<and> (\<forall>b \<in> ran c. b = perf_data)"

lemma perf_file_write: "perf_files n c \<Longrightarrow> file_write (c p) 0 perf_data = perf_data"
  by (cases "c p") (auto simp: perf_files_def file_write_def overlay_def ran_def)

lemma perf_files_add:
  assumes "perf_files n c"
  shows "perf_files (Suc n) (c(p \<mapsto> perf_data))"
proof -
  have "card (insert p (dom c)) \<le> Suc (card (dom c))" by (cases "finite (dom c)") (simp_all add: card_insert_if)
  moreover have "x = perf_data \<or> x \<in> ran c" if "x \<in> ran (c(p \<mapsto> perf_data))" for x
    using that by (auto simp: ran_def split: if_splits)
  ultimately show ?thesis using assms by (auto simp: perf_files_def)
qed

lemma mock_write_counts:
  assumes run: "mock_storage_write_sync e (Some i) (Some p) 0 (Some perf_data) 4096 = Some (XDEVICE_OK, Some j)"
    and "mock_holds i c" and "length p < MAX_PATH_LEN" and counts: "perf_counts i r n"
  shows "perf_counts j r (Suc n)"
proof -
  obtain priv where priv: "private_data i = Some priv" "mock_inv priv" "mock_limits priv"
    using assms(2) by (auto simp: mock_holds_def)
  obtain ret v where v: "mock_write_locked e priv p 0 perf_data 4096 = Some (ret, v)" "mock_config_eq v priv"
    by (rule mock_write_locked_spec [OF priv(2) assms(3), of 4096 perf_data 0 e]) simp_all
  then have "\<exists>t. private_data j = Some (v\<lparr>mstats := stats_write 4096 t (mstats priv)\<rparr>)"
    using run priv by (auto simp: mock_storage_write_sync_def mock_config_eq_def mock_limits_def split: if_splits)
  with counts priv(1) show ?thesis by (auto simp: perf_counts_def stats_write_def)
qed

lemma mock_read_counts:
  assumes run: "mock_storage_read_sync e (Some i) (Some p) 0 (Some buf) 4096 = Some (XDEVICE_OK, out, Some j)"
    and "mock_holds i c" and "c p = Some perf_data" and "length buf = 4096" and counts: "perf_counts i r n"
  shows "perf_counts j (Suc r) n"
proof -
  obtain priv where priv: "private_data i = Some priv" "mock_inv priv" "mock_limits priv" "mock_contents priv = c"
    using assms(2) by (auto simp: mock_holds_def)
  obtain k b where k: "mock_read_locked priv p 0 buf 4096 = Some (XDEVICE_OK, k, b)" "unat k = 4096"
    using mock_read_locked_spec [OF priv(2), of p perf_data 0 4096 buf] priv(4) assms(3,4) by auto
  have "k = 4096" using k(2) by (simp add: word_unat_eq_iff)
  with run priv k(1) have "\<exists>t. private_data j = Some (priv\<lparr>mstats := stats_read 4096 t (mstats priv)\<rparr>)"
    by (auto simp: mock_storage_read_sync_def mock_limits_def split: if_splits)
  with counts priv(1) show ?thesis by (auto simp: perf_counts_def stats_read_def)
qed

lemma length_perf_path: "length (perf_path i) < MAX_PATH_LEN"
  using length_c_snprintf [of 64 "''perf_test_'' @ dec_string i @ ''.dat''"] by (simp add: perf_path_def MAX_PATH_LEN_def)

lemma perf_writes_hold:
  fixes w :: 'w
  assumes te: "calm_test te" and "mock_holds j c" and "perf_files n c" and "n + length is \<le> 1000" and "perf_counts j r n"
  shows "\<exists>k d. perf_writes te (put_self (Some j) mock_table) w is = Some (put_self (Some k) mock_table, w) \<and>
    mock_holds k d \<and> perf_files (n + length is) d \<and> dom c \<subseteq> dom d \<and> perf_path ` set is \<subseteq> dom d \<and>
    perf_counts k r (n + length is)"
  using assms(2-)
proof (induction "is" arbitrary: j c n)
  case Nil
  then show ?case by auto
next
  case (Cons i "is")
  let ?c = "c(perf_path i \<mapsto> perf_data)"
  have e: "no_oom (call te i)" using te by (simp add: calm_test_def)
  have d: "perf_data \<noteq> []" "length perf_data \<le> 2 ^ 20" by (auto simp flip: length_0_conv)
  have old: "length (the (c (perf_path i))) \<le> 2 ^ 20 \<or> c (perf_path i) = None"
    using Cons.prems(2) by (cases "c (perf_path i)") (auto simp: perf_files_def ran_def)
  obtain k where k: "mock_storage_write_sync (call te i) (Some j) (Some (perf_path i)) 0 (Some perf_data) 4096 =
      Some (XDEVICE_OK, Some k)" "mock_holds k ?c"
    using mock_holds_write [OF Cons.prems(1) e length_perf_path d _ old] Cons.prems(2,3)
    by (auto simp: perf_files_def perf_file_write [OF Cons.prems(2)])
  have counts: "perf_counts k r (Suc n)"
    by (rule mock_write_counts [OF k(1) Cons.prems(1) length_perf_path Cons.prems(4)])
  have len: "Suc n + length is \<le> 1000" using Cons.prems(3) by simp
  obtain l d where "perf_writes te (put_self (Some k) mock_table) w is = Some (put_self (Some l) mock_table, w)"
      "mock_holds l d" "perf_files (Suc n + length is) d" "dom ?c \<subseteq> dom d" "perf_path ` set is \<subseteq> dom d"
      "perf_counts l r (Suc n + length is)"
    using Cons.IH [OF k(2) perf_files_add [OF Cons.prems(2)] len counts] by (elim exE conjE)
  then show ?case using k(1) by (auto simp: put_self_twice)
qed

lemma perf_reads_hold:
  fixes w :: 'w
  assumes te: "calm_test te" and "mock_holds j c" and c: "perf_files m c" and "perf_path ` set is \<subseteq> dom c"
    and "length buf = 4096" and "perf_counts j r n"
  shows "\<exists>k. perf_reads te (put_self (Some j) mock_table) w buf is = Some (put_self (Some k) mock_table, w) \<and>
    mock_holds k c \<and> perf_counts k (r + length is) n"
  using assms(2,4-)
proof (induction "is" arbitrary: j buf r)
  case (Cons i "is")
  have b: "c (perf_path i) = Some perf_data" using Cons.prems(2) c by (auto simp: perf_files_def ran_def)
  have ne: "perf_data \<noteq> []" by (simp flip: length_0_conv)
  obtain k where k: "mock_storage_read_sync (call te (1000 + i)) (Some j) (Some (perf_path i)) 0 (Some buf) 4096 =
      Some (XDEVICE_OK, Some (overlay buf 0 (file_read perf_data 0 4096)), Some k)" "mock_holds k c"
    using mock_holds_read [OF Cons.prems(1) b ne, of 4096 buf "call te (1000 + i)"] Cons.prems(3) by auto
  have counts: "perf_counts k (Suc r) n"
    by (rule mock_read_counts [OF k(1) Cons.prems(1) b Cons.prems(3,4)])
  have len: "length (overlay buf 0 (file_read perf_data 0 4096)) = 4096" using Cons.prems(3) by (simp add: overlay_def)
  have sub: "perf_path ` set is \<subseteq> dom c" using Cons.prems(2) by simp
  obtain l where "perf_reads te (put_self (Some k) mock_table) w (overlay buf 0 (file_read perf_data 0 4096)) is =
      Some (put_self (Some l) mock_table, w)" "mock_holds l c" "perf_counts l (Suc r + length is) n"
    using Cons.IH [OF k(2) sub len counts] by (elim exE conjE)
  then show ?case using k(1) by (auto simp: put_self_twice)
qed auto

lemma mock_holds_delays:
  assumes "mock_holds i c" and "perf_counts i r n"
  shows "\<exists>j. mock_storage_set_delays (Some i) rd wr = Some j \<and> mock_holds j c \<and> perf_counts j r n"
proof -
  obtain priv where priv: "private_data i = Some priv" "mock_inv priv" "mock_limits priv" "mock_contents priv = c"
    "itype i = STORAGE_BACKEND_MOCK"
    using assms(1) by (auto simp: mock_holds_def)
  let ?new = "priv\<lparr>read_delay_us := rd, write_delay_us := wr\<rparr>"
  have "mock_inv ?new" "mock_limits ?new" using priv(2,3) by (simp_all add: mock_inv_def mock_limits_def)
  moreover have "mock_contents ?new = c" using priv(4) by (simp add: mock_contents_def find_file_def fun_eq_iff)
  ultimately show ?thesis using priv assms(2) by (simp add: mock_storage_set_delays_def mock_holds_def perf_counts_def)
qed

lemma mock_init_counts:
  "mock_storage_init e (Some i) config = (XDEVICE_OK, Some j) \<Longrightarrow> mock_holds j c \<Longrightarrow> perf_counts j 0 0"
  by (auto simp: mock_storage_init_def mock_default_private_def perf_counts_def mock_holds_def zero_stats_def
      split: if_splits)

lemma performance_passes:
  fixes w :: 'w
  assumes te: "calm_test te"
  shows "\<exists>st. test_performance te True w = Some (0, Some st, w) \<and> write_ops st = 1000 \<and>
    write_bytes st = 1000 * 4096 \<and> read_ops st = 1000 \<and> read_bytes st = 1000 * 4096"
proof -
  let ?i = "self_of (mock_table :: (mock_storage_private, 'w) storage_interface)"
  have e: "no_oom (call te k)" for k using te by (simp add: calm_test_def)
  obtain j0 where 0: "mock_storage_init (call te 2000) (Some ?i) None = (XDEVICE_OK, Some j0)" "mock_holds j0 Map.empty"
    using mock_init_holds [OF e, of ?i 2000 None] by auto
  obtain j1 where 1: "mock_storage_set_delays (Some j0) 100 200 = Some j1" "mock_holds j1 Map.empty" "perf_counts j1 0 0"
    using mock_holds_delays [OF 0(2) mock_init_counts [OF 0]] by blast
  have start: "perf_files 0 Map.empty" by (simp add: perf_files_def)
  have len: "0 + length [0..<1000] \<le> 1000" by simp
  obtain j2 d where 2: "perf_writes te (put_self (Some j1) mock_table) w [0..<1000] = Some (put_self (Some j2) mock_table, w)"
      "mock_holds j2 d" "perf_files (0 + length [0..<1000]) d" "perf_path ` set [0..<1000] \<subseteq> dom d"
      "perf_counts j2 0 (0 + length [0..<1000])"
    using perf_writes_hold [OF te 1(2) start len 1(3), of w] by (elim exE conjE)
  have buf: "length (heap_buffer te) = 4096" using te by (simp add: calm_test_def)
  obtain j3 where 3: "perf_reads te (put_self (Some j2) mock_table) w (heap_buffer te) [0..<1000] =
      Some (put_self (Some j3) mock_table, w)" "mock_holds j3 d"
      "perf_counts j3 (0 + length [0..<1000]) (0 + length [0..<1000])"
    using perf_reads_hold [OF te 2(2-4) buf 2(5), of w] by (elim exE conjE)
  obtain r j4 where 4: "mock_storage_cleanup (Some j3) = (r, j4)" by fastforce
  obtain priv where priv: "private_data j3 = Some priv" "write_ops (mstats priv) = 1000"
      "write_bytes (mstats priv) = 1000 * 4096" "read_ops (mstats priv) = 1000" "read_bytes (mstats priv) = 1000 * 4096"
    using 3(3) by (auto simp: perf_counts_def)
  have stats: "snd (mock_storage_get_stats (Some j3) (Some (stack_stats te))) = Some (mstats priv)"
    by (simp add: mock_storage_get_stats_def priv(1))
  have al: "alloc (call te 2001) k" for k using e by (simp add: no_oom_def)
  have s1: "put_self (mock_storage_set_delays (Some j0) 100 200) (put_self (Some j0) mock_table) =
      put_self (Some j1) (mock_table :: (mock_storage_private, 'w) storage_interface)"
    by (simp add: 1(1) put_self_twice)
  have "test_performance te True w = Some (0, Some (mstats priv), w)"
    by (simp add: test_performance_def Let_def 0(1) s1 al 2(1) 3(1) 4 stats del: upt_rec_numeral)
  with priv(2-) show ?thesis by blast
qed

section \<open>Properties of the test program\<close>

definition calm_tests :: test_env where
  "calm_tests = \<lparr>call = (\<lambda>_. calm_env),
     stack_info = \<lparr>info_size = 7, info_created_time = 7, info_modified_time = 7, info_permissions = 7,
       info_is_directory = True\<rparr>,
     stack_stats = zero_stats, stack_manager = manager_defaults\<lparr>backend_count := 77\<rparr>,
     stack_adapter = \<lparr>attached = False, device_prefix = ''junk'', log_prefix = [], state_prefix = [],
       snapshot_prefix = [], metadata_prefix = [], log_backend = STORAGE_BACKEND_NFS,
       state_backend = STORAGE_BACKEND_NFS, snapshot_backend = STORAGE_BACKEND_NFS,
       metadata_backend = STORAGE_BACKEND_NFS, batch_writes_enabled = False, batch_size = 0,
       batch_timeout_ms = 0, async_writes_enabled = False\<rparr>,
     stack_buffer = (\<lambda>_. replicate 128 205), heap_buffer = replicate 4096 205\<rparr>"

lemma calm_tests_calm: "calm_test calm_tests"
  by (simp add: calm_test_def calm_tests_def no_oom_def calm_env_def)

text \<open>Property C22.  What the tests promise of the in-memory backend, the manager over it and the Raft adapter
  over that: when no allocation and no lock initialisation fails, the first three tests return 0, which they
  do only when every check passed, and the first leaves the backend cleaned up; the performance run, which
  returns 0 whatever its loops meet, completes them: the statistics it prints are those of 1000 writes and
  1000 reads of 4096 bytes, the most files the backend holds.\<close>

theorem tests_pass_on_mock:
  assumes "calm_test te"
  shows "(\<exists>s. test_storage_interface te mock_table w = Some (0, s, w) \<and> private_data s = None) \<and>
    (\<exists>s'. test_storage_manager te (Some a) x = Some (0, s')) \<and>
    (\<exists>s'. test_raft_storage_adapter te (Some a) x = Some (0, s')) \<and>
    (\<exists>st. test_performance te True w = Some (0, Some st, w) \<and> write_ops st = 1000 \<and>
      write_bytes st = 1000 * 4096 \<and> read_ops st = 1000 \<and> read_bytes st = 1000 * 4096)"
  using mock_test_passes [OF assms, of w] manager_test_passes [OF assms, of a x] adapter_test_passes [OF assms, of a x]
    performance_passes [OF assms, of w] by (intro conjI)

theorem tests_pass_on_mock_witness:
  "(\<exists>s. test_storage_interface calm_tests mock_table () = Some (0, s, ()) \<and> private_data s = None) \<and>
    (\<exists>s'. test_storage_manager calm_tests (Some 7) \<lparr>objs = Map.empty, os = ()\<rparr> = Some (0, s')) \<and>
    (\<exists>s'. test_raft_storage_adapter calm_tests (Some 7) \<lparr>objs = Map.empty, os = ()\<rparr> = Some (0, s')) \<and>
    (\<exists>st. test_performance calm_tests True () = Some (0, Some st, ()) \<and> write_ops st = 1000 \<and>
      write_bytes st = 1000 * 4096 \<and> read_ops st = 1000 \<and> read_bytes st = 1000 * 4096)"
  by (rule tests_pass_on_mock) (rule calm_tests_calm)

text \<open>Property C21.  The local backend cannot pass the repository's own test: from every state of the file
  system and whatever the system calls answer, \<open>test_storage_interface\<close> returns -1 on it, never 0 and never
  without a result.  When the first five steps succeed, the read of the sixth goes through the descriptor
  that the write left in the cache, which cannot read.\<close>

theorem test_fails_on_local:
  assumes "vfs_wf v"
  shows "\<exists>s w. test_storage_interface te local_table v = Some (- 1, s, w)"
  using assms by (rule local_test_fails)

theorem test_fails_on_local_witness:
  "\<exists>s w. test_storage_interface calm_tests local_table demo_vfs = Some (- 1, s, w)"
  by (rule test_fails_on_local) (rule demo_vfs_wf)

text \<open>Property C20.  The result of the whole test program: when memory and locks are available, it reports a
  failure exactly when the local backend is created, so it passes only by skipping that backend.\<close>

theorem test_program_result:
  assumes te: "\<And>k. calm_test (te k)" and v: "vfs_wf (os s0)"
    and p: "p 2 = Some a" "p 3 = Some b" "p 4 = Some c"
  shows "\<exists>v. test_main te p s0 = Some (if p 1 = None then 0 else - 1, v)"
proof -
  have 1: "(case p 0 of None \<Rightarrow> Some (0, os s0)
      | Some _ \<Rightarrow> map_option (\<lambda>(r, s, v). (r, v)) (test_storage_interface (te 0) mock_table (os s0))) = Some (0, os s0)"
    using mock_test_passes [OF te, of 0 "os s0"] by (auto split: option.split)
  obtain r v where 2: "(case p 1 of None \<Rightarrow> Some (0, os s0)
      | Some _ \<Rightarrow> map_option (\<lambda>(r, s, v). (r, v)) (test_storage_interface (te 1) local_table (os s0))) = Some (r, v)"
      "r = (if p 1 = None then 0 else - 1)"
    using local_test_fails [OF v, of "te 1"] by (cases "p 1") auto
  obtain s3 where 3: "test_storage_manager (te 2) (p 2) (s0\<lparr>os := v\<rparr>) = Some (0, s3)"
    using manager_test_passes [OF te] p(1) by metis
  obtain s4 where 4: "test_raft_storage_adapter (te 3) (p 3) s3 = Some (0, s4)"
    using adapter_test_passes [OF te] p(2) by metis
  obtain st where 5: "test_performance (te 4) (p 4 \<noteq> None) (os s4) = Some (0, st, os s4)"
    using performance_passes [OF te, of 4 "os s4"] p(3) by auto
  have "test_main te p s0 = Some (if r \<noteq> 0 then - 1 else 0, os s4)"
    unfolding test_main_def by (simp only: 1 2(1) 3 4 5 bind.simps prod.case) simp
  then show ?thesis using 2(2) by auto
qed

theorem test_program_result_witness:
  "\<exists>v. test_main (\<lambda>_. calm_tests) (\<lambda>k. Some k) \<lparr>objs = Map.empty, os = demo_vfs\<rparr> = Some (- 1, v)"
  using test_program_result [of "\<lambda>_. calm_tests" "\<lparr>objs = Map.empty, os = demo_vfs\<rparr>" Some 2 3 4] calm_tests_calm demo_vfs_wf
  by simp

end
