(* ===== verification/XD_Raft.thy ===== *)
theory XD_Raft
  imports XD_Log
begin

text \<open>
  The Raft node of \<open>src/distributed/raft.c\<close>: creation and start, cluster membership, the bodies of
  the election and heartbeat threads, and appending to the replicated log; with the callback stubs
  that \<open>src/main/node_main.c\<close> installs.  The handlers for incoming votes and entries that
  \<open>include/raft.h\<close> declares have no implementation in the repository.
\<close>

section \<open>Data\<close>

definition RAFT_HEARTBEAT_INTERVAL_MS :: u64 where
  "RAFT_HEARTBEAT_INTERVAL_MS = 50"

definition RAFT_ELECTION_TIMEOUT_MIN_MS :: nat where
  "RAFT_ELECTION_TIMEOUT_MIN_MS = 150"

definition RAFT_ELECTION_TIMEOUT_MAX_MS :: nat where
  "RAFT_ELECTION_TIMEOUT_MAX_MS = 300"

record raft_log_entry =
  e_term :: u64
  e_index :: u64
  e_data :: "byte list option"
  e_length :: u64

record raft_vote_request =
  vq_term :: u64
  vq_candidate_id :: string
  vq_last_log_index :: u64
  vq_last_log_term :: u64

record raft_vote_response =
  vr_term :: u64
  vr_granted :: bool

record raft_append_request =
  aq_term :: u64
  aq_leader_id :: string
  aq_prev_log_index :: u64
  aq_prev_log_term :: u64
  aq_leader_commit :: u64
  aq_entries :: "raft_log_entry list"
  aq_entries_count :: u32

record raft_append_response =
  ar_term :: u64
  ar_success :: bool

record node_info =
  ni_node_id :: string
  ni_address :: string
  ni_port :: u16
  ni_state :: xdevice_node_state
  ni_last_heartbeat :: u64
  ni_term :: u64

text \<open>The callbacks receive, besides their C arguments, the state \<open>'n\<close> of the network at the time of
  the call, and the old contents of the response structure.\<close>

record 'n raft_callbacks =
  send_vote_request_fn :: "('n \<Rightarrow> string \<Rightarrow> raft_vote_request \<Rightarrow> raft_vote_response
     \<Rightarrow> xdevice_error \<times> raft_vote_response) option"
  send_append_entries_fn :: "('n \<Rightarrow> string \<Rightarrow> raft_append_request \<Rightarrow> raft_append_response
     \<Rightarrow> xdevice_error \<times> raft_append_response) option"

text \<open>An entry of \<open>log_entries\<close> is \<open>None\<close> while the memory is indeterminate.\<close>

record 'n raft_node =
  node_id :: string
  state :: xdevice_node_state
  current_term :: u64
  voted_for :: string
  commit_index :: u64
  last_applied :: u64
  log_entries :: "raft_log_entry option list"
  log_capacity :: u64
  log_size :: u64
  next_index :: "u64 list"
  match_index :: "u64 list"
  cluster_nodes :: "node_info list"
  cluster_size :: u32
  election_timeout :: u64
  last_heartbeat :: u64
  running :: bool
  callbacks :: "'n raft_callbacks"

record timeval =
  tv_s :: u64
  tv_us :: u64

text \<open>What the system answers during a call: clock readings and random numbers in the order they are
  taken, the network as each peer is contacted, the indeterminate response structures on the stack,
  allocations, lock and thread creation.\<close>

record 'n raft_env =
  clock :: "nat \<Rightarrow> timeval"
  rnd :: "nat \<Rightarrow> nat"
  net :: "nat \<Rightarrow> 'n"
  junk_vote :: "nat \<Rightarrow> raft_vote_response"
  junk_append :: "nat \<Rightarrow> raft_append_response"
  r_alloc :: "nat \<Rightarrow> bool"
  r_mutex :: bool
  r_thread :: "nat \<Rightarrow> bool"

definition get_current_time_ms :: "timeval \<Rightarrow> u64" where
  "get_current_time_ms tv = tv_s tv * 1000 + tv_us tv div 1000"

definition generate_election_timeout :: "nat \<Rightarrow> u64" where
  "generate_election_timeout r = of_nat (RAFT_ELECTION_TIMEOUT_MIN_MS +
     r mod (RAFT_ELECTION_TIMEOUT_MAX_MS - RAFT_ELECTION_TIMEOUT_MIN_MS))"

definition reset_election_timer :: "timeval \<Rightarrow> nat \<Rightarrow> 'n raft_node \<Rightarrow> 'n raft_node" where
  "reset_election_timer tv r node =
     node\<lparr>election_timeout := get_current_time_ms tv + generate_election_timeout r\<rparr>"

text \<open>\<open>node->log_entries[k].term\<close>; undefined outside the block and on indeterminate memory.\<close>

definition entry_term :: "'n raft_node \<Rightarrow> nat \<Rightarrow> u64 option" where
  "entry_term node k = do { slot \<leftarrow> at (log_entries node) k; en \<leftarrow> slot; Some (e_term en) }"

section \<open>The election thread\<close>

definition step_down :: "'n raft_env \<Rightarrow> nat \<Rightarrow> u64 \<Rightarrow> 'n raft_node \<Rightarrow> 'n raft_node" where
  "step_down e k term node = reset_election_timer (clock e k) (rnd e k)
     (node\<lparr>current_term := term, state := XDEVICE_NODE_FOLLOWER, voted_for := []\<rparr>)"

definition vote_request :: "'n raft_node \<Rightarrow> raft_vote_request option" where
  "vote_request node = do {
     t \<leftarrow> (if log_size node > 0 then entry_term node (unat (log_size node - 1)) else Some 0);
     Some \<lparr>vq_term = current_term node, vq_candidate_id = node_id node,
           vq_last_log_index = log_size node, vq_last_log_term = t\<rparr> }"

fun vote_loop :: "'n raft_env \<Rightarrow> nat list \<Rightarrow> u32 \<Rightarrow> 'n raft_node \<Rightarrow> (u32 \<times> 'n raft_node) option" where
  "vote_loop e [] votes node = Some (votes, node)"
| "vote_loop e (i # is) votes node = do {
     peer \<leftarrow> at (cluster_nodes node) i;
     if ni_node_id peer = node_id node then vote_loop e is votes node
     else do {
       req \<leftarrow> vote_request node;
       (case send_vote_request_fn (callbacks node) of
          None \<Rightarrow> vote_loop e is votes node
        | Some f \<Rightarrow>
            (let (ret, resp) = f (net e i) (ni_node_id peer) req (junk_vote e i)
             in if ret \<noteq> XDEVICE_OK then vote_loop e is votes node
                else
                  (let votes' = (if vr_granted resp then votes + 1 else votes)
                   in if vr_term resp > current_term node
                      then Some (votes', step_down e 2 (vr_term resp) node)
                      else vote_loop e is votes' node))) } }"

fun init_leader_loop :: "nat list \<Rightarrow> 'n raft_node \<Rightarrow> 'n raft_node option" where
  "init_leader_loop [] node = Some node"
| "init_leader_loop (i # is) node = do {
     ni \<leftarrow> put_at (next_index node) i (log_size node + 1);
     mi \<leftarrow> put_at (match_index node) i 0;
     init_leader_loop is (node\<lparr>next_index := ni, match_index := mi\<rparr>) }"

definition start_election :: "'n raft_env \<Rightarrow> 'n raft_node \<Rightarrow> 'n raft_node" where
  "start_election e node = reset_election_timer (clock e 1) (rnd e 1)
     (node\<lparr>state := XDEVICE_NODE_CANDIDATE, current_term := current_term node + 1,
           voted_for := c_strncpy 63 (node_id node)\<rparr>)"

text \<open>One pass of the loop of \<open>election_thread_func\<close>, under the lock.\<close>

definition election_tick :: "'n raft_env \<Rightarrow> 'n raft_node \<Rightarrow> 'n raft_node option" where
  "election_tick e node =
     (if state node \<noteq> XDEVICE_NODE_LEADER \<and> get_current_time_ms (clock e 0) \<ge> election_timeout node
      then do {
        (votes, n1) \<leftarrow> vote_loop e [0..<unat (cluster_size node)] 1 (start_election e node);
        if state n1 = XDEVICE_NODE_CANDIDATE \<and> votes > cluster_size n1 div 2
        then do {
          n2 \<leftarrow> init_leader_loop [0..<unat (cluster_size n1)] (n1\<lparr>state := XDEVICE_NODE_LEADER\<rparr>);
          Some (n2\<lparr>last_heartbeat := 0\<rparr>) }
        else Some n1 }
      else Some node)"

section \<open>The heartbeat thread\<close>

text \<open>The identifiers in the requests are the node's own: it has at most 63 characters, so that \<open>strncpy\<close>
  copies all of it.  The last byte of \<open>leader_id\<close> and \<open>candidate_id\<close>, which \<open>strncpy\<close> leaves as it was
  on the stack, follows the terminating zero unless the identifier has exactly 63 characters; the
  model has the identifier in that case too.\<close>

definition append_request :: "'n raft_node \<Rightarrow> nat \<Rightarrow> raft_append_request option" where
  "append_request node i = do {
     nx \<leftarrow> at (next_index node) i;
     let prev = nx - 1;
     t \<leftarrow> (if prev > 0 then entry_term node (unat (prev - 1)) else Some 0);
     Some \<lparr>aq_term = current_term node, aq_leader_id = node_id node, aq_prev_log_index = prev,
           aq_prev_log_term = t, aq_leader_commit = commit_index node, aq_entries = [],
           aq_entries_count = 0\<rparr> }"

definition handle_append_response ::
  "nat \<Rightarrow> raft_append_request \<Rightarrow> raft_append_response \<Rightarrow> 'n raft_node \<Rightarrow> 'n raft_node option" where
  "handle_append_response i req resp node =
     (if ar_success resp then do {
        mi \<leftarrow> put_at (match_index node) i (aq_prev_log_index req);
        ni \<leftarrow> put_at (next_index node) i (aq_prev_log_index req + 1);
        Some (node\<lparr>match_index := mi, next_index := ni\<rparr>) }
      else do {
        nx \<leftarrow> at (next_index node) i;
        if nx > 1 then do {
          ni \<leftarrow> put_at (next_index node) i (nx - 1);
          Some (node\<lparr>next_index := ni\<rparr>) }
        else Some node })"

fun heartbeat_loop :: "'n raft_env \<Rightarrow> nat list \<Rightarrow> 'n raft_node \<Rightarrow> 'n raft_node option" where
  "heartbeat_loop e [] node = Some node"
| "heartbeat_loop e (i # is) node = do {
     peer \<leftarrow> at (cluster_nodes node) i;
     if ni_node_id peer = node_id node then heartbeat_loop e is node
     else do {
       req \<leftarrow> append_request node i;
       (case send_append_entries_fn (callbacks node) of
          None \<Rightarrow> heartbeat_loop e is node
        | Some f \<Rightarrow>
            (let (ret, resp) = f (net e i) (ni_node_id peer) req (junk_append e i)
             in if ret \<noteq> XDEVICE_OK then heartbeat_loop e is node
                else if ar_term resp > current_term node
                then Some (step_down e 1 (ar_term resp) node)
                else do {
                  n1 \<leftarrow> handle_append_response i req resp node;
                  heartbeat_loop e is n1 })) } }"

text \<open>One pass of the loop of \<open>heartbeat_thread_func\<close>, under the lock.\<close>

definition heartbeat_tick :: "'n raft_env \<Rightarrow> 'n raft_node \<Rightarrow> 'n raft_node option" where
  "heartbeat_tick e node =
     (if state node = XDEVICE_NODE_LEADER then
        (let now_ms = get_current_time_ms (clock e 0)
         in if now_ms - last_heartbeat node \<ge> RAFT_HEARTBEAT_INTERVAL_MS then do {
              n1 \<leftarrow> heartbeat_loop e [0..<unat (cluster_size node)] node;
              Some (n1\<lparr>last_heartbeat := now_ms\<rparr>) }
            else Some node)
      else Some node)"

section \<open>The interface functions\<close>

definition zero_node_info :: node_info where
  "zero_node_info = \<lparr>ni_node_id = [], ni_address = [], ni_port = 0, ni_state = XDEVICE_NODE_UNKNOWN,
     ni_last_heartbeat = 0, ni_term = 0\<rparr>"

definition xdevice_raft_create_node :: "'n raft_env \<Rightarrow> string option \<Rightarrow> 'n raft_node option" where
  "xdevice_raft_create_node e nid =
     (case nid of
        None \<Rightarrow> None
      | Some s \<Rightarrow>
          if \<not> r_alloc e 0 then None
          else if \<not> r_alloc e 1 then None
          else if \<not> r_mutex e then None
          else Some (reset_election_timer (clock e 0) (rnd e 0)
            \<lparr>node_id = c_strncpy (XDEVICE_MAX_NODE_ID_LEN - 1) s, state = XDEVICE_NODE_FOLLOWER,
             current_term = 0, voted_for = [], commit_index = 0, last_applied = 0,
             log_entries = replicate 1024 None, log_capacity = 1024, log_size = 0,
             next_index = replicate XDEVICE_MAX_NODES 0, match_index = replicate XDEVICE_MAX_NODES 0,
             cluster_nodes = replicate XDEVICE_MAX_NODES zero_node_info, cluster_size = 0,
             election_timeout = 0, last_heartbeat = 0, running = False,
             callbacks = \<lparr>send_vote_request_fn = None, send_append_entries_fn = None\<rparr>\<rparr>))"

text \<open>Destroying a node frees the array of entries but not the data they point to: the second
  component is what stays allocated.\<close>

definition xdevice_raft_destroy_node :: "'n raft_node option \<Rightarrow> 'n raft_node option \<times> byte list list" where
  "xdevice_raft_destroy_node node =
     (case node of
        None \<Rightarrow> (None, [])
      | Some n \<Rightarrow> (None, List.map_filter (\<lambda>en. Option.bind en e_data) (take (unat (log_size n)) (log_entries n))))"

definition xdevice_raft_start_node ::
  "'n raft_env \<Rightarrow> 'n raft_node option \<Rightarrow> 'n raft_callbacks option \<Rightarrow> xdevice_error \<times> 'n raft_node option" where
  "xdevice_raft_start_node e node cbs =
     (case (node, cbs) of
        (Some n, Some c) \<Rightarrow>
          (let n1 = n\<lparr>callbacks := c, running := True\<rparr>
           in if \<not> r_thread e 0 then (XDEVICE_ERROR, Some n1)
              else if \<not> r_thread e 1 then (XDEVICE_ERROR, Some (n1\<lparr>running := False\<rparr>))
              else (XDEVICE_OK, Some n1))
      | _ \<Rightarrow> (XDEVICE_ERROR_INVALID_PARAM, node))"

text \<open>The membership call tests the size before it takes the lock; the two parts are separate steps
  when threads interleave.\<close>

definition add_node_check :: "'n raft_node \<Rightarrow> bool" where
  "add_node_check n = (\<not> unat (cluster_size n) \<ge> XDEVICE_MAX_NODES)"

definition add_node_locked :: "node_info \<Rightarrow> 'n raft_node \<Rightarrow> 'n raft_node option" where
  "add_node_locked new_node n = do {
     ns \<leftarrow> put_at (cluster_nodes n) (unat (cluster_size n)) new_node;
     Some (n\<lparr>cluster_nodes := ns, cluster_size := cluster_size n + 1\<rparr>) }"

definition xdevice_raft_add_node_to_cluster ::
  "'n raft_node option \<Rightarrow> node_info option \<Rightarrow> (xdevice_error \<times> 'n raft_node option) option" where
  "xdevice_raft_add_node_to_cluster node new_node =
     (case (node, new_node) of
        (Some n, Some v) \<Rightarrow>
          if \<not> add_node_check n then Some (XDEVICE_ERROR_INVALID_PARAM, node)
          else do { n1 \<leftarrow> add_node_locked v n; Some (XDEVICE_OK, Some n1) }
      | _ \<Rightarrow> Some (XDEVICE_ERROR_INVALID_PARAM, node))"

text \<open>\<open>realloc\<close> of \<open>sizeof(xdevice_raft_log_entry_t) * new_capacity\<close> bytes, with the product taken in
  \<open>size_t\<close> and entries of 32 bytes.  The allocator refuses requests above \<open>PTRDIFF_MAX\<close>.\<close>

definition realloc_entries :: "u64 \<Rightarrow> raft_log_entry option list \<Rightarrow> raft_log_entry option list" where
  "realloc_entries cap es =
     (let k = unat (32 * cap) div 32 in take k es @ replicate (k - length es) None)"

definition ensure_capacity :: "'n raft_env \<Rightarrow> 'n raft_node \<Rightarrow> 'n raft_node option" where
  "ensure_capacity e n =
     (if log_size n \<ge> log_capacity n then
        (let cap = log_capacity n * 2
         in if \<not> (r_alloc e 0 \<and> unat (32 * cap) < 2 ^ 63) then None
            else Some (n\<lparr>log_entries := realloc_entries cap (log_entries n), log_capacity := cap\<rparr>))
      else Some n)"

definition xdevice_raft_append_log ::
  "'n raft_env \<Rightarrow> 'n raft_node option \<Rightarrow> byte list option \<Rightarrow> u64 \<Rightarrow> (xdevice_error \<times> 'n raft_node option) option" where
  "xdevice_raft_append_log e node data len =
     (case (node, data) of
        (Some n, Some d) \<Rightarrow>
          if len = 0 then Some (XDEVICE_ERROR_INVALID_PARAM, node)
          else if state n \<noteq> XDEVICE_NODE_LEADER then Some (XDEVICE_ERROR_PERMISSION, node)
          else
            (case ensure_capacity e n of
               None \<Rightarrow> Some (XDEVICE_ERROR_OUT_OF_MEMORY, node)
             | Some n1 \<Rightarrow>
                 (let en = \<lparr>e_term = current_term n1, e_index = log_size n1 + 1, e_data = None, e_length = len\<rparr>;
                      k = unat (log_size n1)
                  in if \<not> r_alloc e 1 then do {
                       es \<leftarrow> put_at (log_entries n1) k (Some en);
                       Some (XDEVICE_ERROR_OUT_OF_MEMORY, Some (n1\<lparr>log_entries := es\<rparr>)) }
                     else do {
                       src \<leftarrow> mem_read d 0 (unat len);
                       es \<leftarrow> put_at (log_entries n1) k (Some (en\<lparr>e_data := Some src\<rparr>));
                       Some (XDEVICE_OK, Some (n1\<lparr>log_entries := es, log_size := log_size n1 + 1\<rparr>)) }))
      | _ \<Rightarrow> Some (XDEVICE_ERROR_INVALID_PARAM, node))"

definition xdevice_raft_get_state :: "'n raft_node option \<Rightarrow> xdevice_node_state" where
  "xdevice_raft_get_state node = (case node of None \<Rightarrow> XDEVICE_NODE_UNKNOWN | Some n \<Rightarrow> state n)"

section \<open>The callbacks of the node program\<close>

text \<open>\<open>send_vote_request\<close> and \<open>send_append_entries\<close> of \<open>src/main/node_main.c\<close> print a line and report
  success without writing the response.\<close>

definition send_vote_request ::
  "'n \<Rightarrow> string \<Rightarrow> raft_vote_request \<Rightarrow> raft_vote_response \<Rightarrow> xdevice_error \<times> raft_vote_response" where
  "send_vote_request nt nid request response = (XDEVICE_OK, response)"

definition send_append_entries ::
  "'n \<Rightarrow> string \<Rightarrow> raft_append_request \<Rightarrow> raft_append_response \<Rightarrow> xdevice_error \<times> raft_append_response" where
  "send_append_entries nt nid request response = (XDEVICE_OK, response)"

definition node_main_callbacks :: "'n raft_callbacks" where
  "node_main_callbacks = \<lparr>send_vote_request_fn = Some send_vote_request,
     send_append_entries_fn = Some send_append_entries\<rparr>"

section \<open>Well-formed nodes\<close>

definition raft_log :: "'n raft_node \<Rightarrow> raft_log_entry list" where
  "raft_log n = map the (take (unat (log_size n)) (log_entries n))"

text \<open>The arrays have their declared sizes, the log fills the front of its array, entries are numbered
  from one and their terms ascend up to the current one.\<close>

definition arrays_wf :: "'n raft_node \<Rightarrow> bool" where
  "arrays_wf n \<longleftrightarrow> length (next_index n) = XDEVICE_MAX_NODES \<and> length (match_index n) = XDEVICE_MAX_NODES \<and>
     length (cluster_nodes n) = XDEVICE_MAX_NODES \<and> unat (cluster_size n) \<le> XDEVICE_MAX_NODES"

definition log_wf :: "'n raft_node \<Rightarrow> bool" where
  "log_wf n \<longleftrightarrow> length (log_entries n) = unat (log_capacity n) \<and> log_size n \<le> log_capacity n \<and>
     0 < log_capacity n \<and> unat (log_capacity n) < 2 ^ 58 \<and>
     None \<notin> set (take (unat (log_size n)) (log_entries n)) \<and>
     map e_index (raft_log n) = map (\<lambda>i. of_nat (Suc i)) [0..<unat (log_size n)] \<and>
     sorted (map e_term (raft_log n)) \<and> (\<forall>en \<in> set (raft_log n). e_term en \<le> current_term n)"

definition node_wf :: "'n raft_node \<Rightarrow> bool" where
  "node_wf n \<longleftrightarrow> arrays_wf n \<and> log_wf n"

lemma log_wf_size: "log_wf n \<Longrightarrow> unat (log_size n) \<le> length (log_entries n)"
  by (simp add: log_wf_def word_le_nat_alt)

lemma length_raft_log: "log_wf n \<Longrightarrow> length (raft_log n) = unat (log_size n)"
  using log_wf_size [of n] by (simp add: raft_log_def)

lemma entry_term_defined:
  assumes "log_wf n" and "k < unat (log_size n)"
  shows "entry_term n k = Some (e_term (raft_log n ! k))"
proof -
  have k: "k < length (log_entries n)" using assms log_wf_size [OF assms(1)] by simp
  have "None \<notin> set (take (unat (log_size n)) (log_entries n))" using assms(1) by (simp add: log_wf_def)
  then have "log_entries n ! k \<noteq> None"
    using assms(2) k by (metis in_set_conv_nth length_take min_less_iff_conj nth_take)
  with k assms(2) show ?thesis by (auto simp: entry_term_def raft_log_def)
qed

lemma vote_request_defined: "log_wf n \<Longrightarrow> vote_request n \<noteq> None"
proof (cases "log_size n > 0")
  case True
  assume wf: "log_wf n"
  have "unat (log_size n - 1) < unat (log_size n)"
    using True by (metis word_less_nat_alt word_gt_0 word_less_1 measure_unat)
  with entry_term_defined [OF wf] show ?thesis by (simp add: vote_request_def)
next
  case False
  then show ?thesis by (simp add: vote_request_def)
qed

section \<open>Votes\<close>

text \<open>The peer with index \<open>i\<close> answered the request of \<open>n\<close> and granted its vote.\<close>

definition granted :: "'n raft_env \<Rightarrow> 'n raft_node \<Rightarrow> nat \<Rightarrow> bool" where
  "granted e n i \<longleftrightarrow> (case (at (cluster_nodes n) i, vote_request n, send_vote_request_fn (callbacks n)) of
     (Some peer, Some req, Some f) \<Rightarrow> ni_node_id peer \<noteq> node_id n \<and>
       (case f (net e i) (ni_node_id peer) req (junk_vote e i) of (ret, resp) \<Rightarrow>
          ret = XDEVICE_OK \<and> vr_granted resp)
   | _ \<Rightarrow> False)"

text \<open>What the peer with index \<open>i\<close> answered; the term it reported, and whether that is ahead of \<open>n\<close>.\<close>

definition vote_answer :: "'n raft_env \<Rightarrow> 'n raft_node \<Rightarrow> nat \<Rightarrow> (xdevice_error \<times> raft_vote_response) option" where
  "vote_answer e n i = do {
     peer \<leftarrow> at (cluster_nodes n) i;
     if ni_node_id peer = node_id n then None
     else do {
       req \<leftarrow> vote_request n;
       f \<leftarrow> send_vote_request_fn (callbacks n);
       Some (f (net e i) (ni_node_id peer) req (junk_vote e i)) } }"

definition reports :: "'n raft_env \<Rightarrow> 'n raft_node \<Rightarrow> nat \<Rightarrow> u64 \<Rightarrow> bool" where
  "reports e n i t \<longleftrightarrow> (case vote_answer e n i of Some (ret, resp) \<Rightarrow> ret = XDEVICE_OK \<and> vr_term resp = t | None \<Rightarrow> False)"

definition ahead :: "'n raft_env \<Rightarrow> 'n raft_node \<Rightarrow> nat \<Rightarrow> bool" where
  "ahead e n i \<longleftrightarrow>
     (case vote_answer e n i of Some (ret, resp) \<Rightarrow> ret = XDEVICE_OK \<and> current_term n < vr_term resp | None \<Rightarrow> False)"

text \<open>The loop counts the votes, unless it meets a peer that is ahead: it stops at the first of them.\<close>

lemma vote_loop_spec:
  "vote_loop e is v n = Some (v', n') \<Longrightarrow>
   n' = n \<and> v' = v + of_nat (length (filter (granted e n) is)) \<and> (\<forall>i \<in> set is. \<not> ahead e n i) \<or>
   (\<exists>us i vs t. is = us @ i # vs \<and> (\<forall>j \<in> set us. \<not> ahead e n j) \<and> reports e n i t \<and> current_term n < t \<and>
      n' = step_down e 2 t n)"
proof (induction "is" arbitrary: v)
  case Nil
  then show ?case by simp
next
  case (Cons i "is")
  from Cons.prems obtain peer where peer: "at (cluster_nodes n) i = Some peer" by (auto simp: bind_eq_Some_conv)
  have later: ?case if "vote_loop e is w n = Some (v', n')" "\<not> ahead e n i"
      "w = v + of_nat (length (filter (granted e n) [i]))" for w
  proof -
    have "length (filter (granted e n) (i # is)) = length (filter (granted e n) [i]) + length (filter (granted e n) is)"
      by simp
    then have sum: "w + of_nat (length (filter (granted e n) is)) = v + of_nat (length (filter (granted e n) (i # is)))"
      by (simp only: that(3) of_nat_add add.assoc)
    from Cons.IH [OF that(1)] show ?thesis
    proof (elim disjE exE conjE)
      assume "n' = n" "v' = w + of_nat (length (filter (granted e n) is))" "\<forall>i \<in> set is. \<not> ahead e n i"
      then show ?thesis using that(2) sum by (intro disjI1) simp
    next
      fix us k vs t
      assume "is = us @ k # vs" "\<forall>j \<in> set us. \<not> ahead e n j" "reports e n k t" "current_term n < t" "n' = step_down e 2 t n"
      then show ?thesis
        using that(2) by (intro disjI2 exI [of _ "i # us"] exI [of _ k] exI [of _ vs] exI [of _ t]) simp
    qed
  qed
  show ?case
  proof (cases "ni_node_id peer = node_id n")
    case True
    then have "\<not> granted e n i" "\<not> ahead e n i"
      using peer by (auto simp: granted_def ahead_def vote_answer_def simp del: at_Some_iff split: option.splits)
    with Cons.prems True peer show ?thesis by (intro later [of v]) (simp_all del: at_Some_iff)
  next
    case other: False
    with Cons.prems peer obtain req where req: "vote_request n = Some req" by (auto simp: bind_eq_Some_conv simp del: at_Some_iff)
    show ?thesis
    proof (cases "send_vote_request_fn (callbacks n)")
      case None
      then have "\<not> granted e n i" "\<not> ahead e n i"
        using peer req other by (auto simp: granted_def ahead_def vote_answer_def simp del: at_Some_iff split: option.splits)
      with Cons.prems other peer req None show ?thesis by (intro later [of v]) (simp_all del: at_Some_iff)
    next
      case (Some f)
      obtain ret resp where f: "f (net e i) (ni_node_id peer) req (junk_vote e i) = (ret, resp)" by (cases "f (net e i) (ni_node_id peer) req (junk_vote e i)")
      have g: "granted e n i \<longleftrightarrow> ret = XDEVICE_OK \<and> vr_granted resp"
          "ahead e n i \<longleftrightarrow> ret = XDEVICE_OK \<and> current_term n < vr_term resp"
          "reports e n i t \<longleftrightarrow> ret = XDEVICE_OK \<and> vr_term resp = t" for t
        using other peer req Some f by (simp_all add: granted_def ahead_def reports_def vote_answer_def del: at_Some_iff)
      show ?thesis
      proof (cases "ahead e n i")
        case True
        then have "n' = step_down e 2 (vr_term resp) n"
          using Cons.prems peer other req Some f g(2) by (auto simp: Let_def simp del: at_Some_iff)
        then show ?thesis using True g(2,3)
          by (intro disjI2 exI [of _ "[]"] exI [of _ i] exI [of _ "is"] exI [of _ "vr_term resp"]) simp
      next
        case False
        then have "vote_loop e is (v + of_nat (length (filter (granted e n) [i]))) n = Some (v', n')"
          using Cons.prems peer other req Some f g(1,2)
          by (auto simp: Let_def simp del: at_Some_iff split: if_splits)
        then show ?thesis using False by (rule later) simp
      qed
    qed
  qed
qed

lemma vote_loop_defined:
  assumes "vote_request n \<noteq> None" and "set is \<subseteq> {..<length (cluster_nodes n)}"
  shows "vote_loop e is v n \<noteq> None"
  using assms(2)
proof (induction "is" arbitrary: v)
  case Nil
  then show ?case by simp
next
  case (Cons i "is")
  obtain req where req: "vote_request n = Some req" using assms(1) by auto
  have i: "at (cluster_nodes n) i = Some (cluster_nodes n ! i)" using Cons.prems by simp
  have IH: "vote_loop e is w n \<noteq> None" for w using Cons by simp
  show ?case using i req IH by (auto simp: Let_def simp del: at_Some_iff split: option.splits prod.splits)
qed

lemma step_down_fields [simp]:
  "state (step_down e k t n) = XDEVICE_NODE_FOLLOWER" "current_term (step_down e k t n) = t"
  "voted_for (step_down e k t n) = []" "node_id (step_down e k t n) = node_id n"
  "log_entries (step_down e k t n) = log_entries n" "log_size (step_down e k t n) = log_size n"
  "log_capacity (step_down e k t n) = log_capacity n" "next_index (step_down e k t n) = next_index n"
  "match_index (step_down e k t n) = match_index n" "cluster_nodes (step_down e k t n) = cluster_nodes n"
  "cluster_size (step_down e k t n) = cluster_size n"
  by (simp_all add: step_down_def reset_election_timer_def)

lemma start_election_fields [simp]:
  "state (start_election e n) = XDEVICE_NODE_CANDIDATE" "current_term (start_election e n) = current_term n + 1"
  "voted_for (start_election e n) = c_strncpy 63 (node_id n)" "node_id (start_election e n) = node_id n"
  "log_entries (start_election e n) = log_entries n" "log_size (start_election e n) = log_size n"
  "log_capacity (start_election e n) = log_capacity n" "next_index (start_election e n) = next_index n"
  "match_index (start_election e n) = match_index n" "cluster_nodes (start_election e n) = cluster_nodes n"
  "cluster_size (start_election e n) = cluster_size n" "callbacks (start_election e n) = callbacks n"
  by (simp_all add: start_election_def reset_election_timer_def)

lemma vote_request_start:
  assumes "log_wf n"
  shows "vote_request (start_election e n) \<noteq> None"
proof -
  have "entry_term (start_election e n) = entry_term n" by (simp add: fun_eq_iff entry_term_def)
  with vote_request_defined [OF assms] show ?thesis
    by (cases "log_size n > 0"; cases "entry_term n (unat (log_size n - 1))") (simp_all add: vote_request_def)
qed

lemma arrays_wf_cong:
  assumes "next_index n' = next_index n" "match_index n' = match_index n" "cluster_nodes n' = cluster_nodes n"
    "cluster_size n' = cluster_size n"
  shows "arrays_wf n' = arrays_wf n"
  using assms by (simp add: arrays_wf_def)

lemma log_wf_term:
  assumes "log_wf n" "log_entries n' = log_entries n" "log_size n' = log_size n" "log_capacity n' = log_capacity n"
    "current_term n \<le> current_term n'"
  shows "log_wf n'"
  using assms by (auto simp: log_wf_def raft_log_def intro: order.trans)

text \<open>Initialising the leader's tables.\<close>

lemma init_leader_loop_eq:
  "set is \<subseteq> {..<length (next_index n)} \<Longrightarrow> length (match_index n) = length (next_index n) \<Longrightarrow>
   \<exists>ni mi. init_leader_loop is n = Some (n\<lparr>next_index := ni, match_index := mi\<rparr>) \<and>
     length ni = length (next_index n) \<and> length mi = length (match_index n) \<and>
     (\<forall>i < length ni. ni ! i = (if i \<in> set is then log_size n + 1 else next_index n ! i)) \<and>
     (\<forall>i < length ni. mi ! i = (if i \<in> set is then 0 else match_index n ! i))"
proof (induction "is" arbitrary: n)
  case Nil
  then show ?case by (intro exI [of _ "next_index n"] exI [of _ "match_index n"]) simp
next
  case (Cons i "is")
  let ?n = "n\<lparr>next_index := (next_index n)[i := log_size n + 1], match_index := (match_index n)[i := 0]\<rparr>"
  obtain ni mi where "init_leader_loop is ?n = Some (?n\<lparr>next_index := ni, match_index := mi\<rparr>)"
      "length ni = length (next_index ?n)" "length mi = length (match_index ?n)"
      "\<forall>i < length ni. ni ! i = (if i \<in> set is then log_size ?n + 1 else next_index ?n ! i)"
      "\<forall>i < length ni. mi ! i = (if i \<in> set is then 0 else match_index ?n ! i)"
    using Cons.IH [of ?n] Cons.prems by auto
  with Cons.prems show ?case
    by (intro exI [of _ ni] exI [of _ mi]) (auto simp: nth_list_update)
qed

section \<open>Outcomes of an election\<close>

definition vote_count :: "'n raft_env \<Rightarrow> 'n raft_node \<Rightarrow> nat" where
  "vote_count e n = Suc (length (filter (granted e (start_election e n)) [0..<unat (cluster_size n)]))"

lemma majority_arith:
  fixes c :: u32
  assumes "v < 2 ^ 32"
  shows "(of_nat v :: u32) > c div 2 \<longleftrightarrow> unat c < 2 * v"
  using assms by (auto simp: word_less_nat_alt unat_div unat_of_nat)

lemma upt_split:
  assumes "[0..<c] = us @ i # vs"
  shows "i < c" and "us = [0..<i]"
proof -
  have len: "length us < c" using arg_cong [OF assms, of length] by simp
  have "i = [0..<c] ! length us" by (simp add: assms)
  with len have i: "i = length us" by simp
  with len show "i < c" by simp
  have "us = take (length us) [0..<c]" by (simp add: assms)
  also have "\<dots> = [0..<length us]" using len by (simp add: take_upt)
  finally show "us = [0..<i]" by (simp add: i)
qed

lemma election_tick_cases:
  assumes wf: "node_wf n" and due: "state n \<noteq> XDEVICE_NODE_LEADER"
      "election_timeout n \<le> get_current_time_ms (clock e 0)"
  obtains (won) ni mi where "election_tick e n = Some ((start_election e n)\<lparr>state := XDEVICE_NODE_LEADER,
        next_index := ni, match_index := mi, last_heartbeat := 0\<rparr>)"
      "unat (cluster_size n) < 2 * vote_count e n"
      "length ni = XDEVICE_MAX_NODES" "length mi = XDEVICE_MAX_NODES"
      "\<forall>i < unat (cluster_size n). ni ! i = log_size n + 1 \<and> mi ! i = 0"
      "\<forall>i < XDEVICE_MAX_NODES. unat (cluster_size n) \<le> i \<longrightarrow> ni ! i = next_index n ! i"
      "\<forall>i < unat (cluster_size n). \<not> ahead e (start_election e n) i"
  | (lost) "election_tick e n = Some (start_election e n)" "\<not> unat (cluster_size n) < 2 * vote_count e n"
      "\<forall>i < unat (cluster_size n). \<not> ahead e (start_election e n) i"
  | (outdated) t i where "election_tick e n = Some (step_down e 2 t (start_election e n))" "current_term n + 1 < t"
      "i < unat (cluster_size n)" "reports e (start_election e n) i t" "\<forall>j < i. \<not> ahead e (start_election e n) j"
proof -
  let ?n = "start_election e n" and ?is = "[0..<unat (cluster_size n)]"
  have arr: "length (next_index n) = XDEVICE_MAX_NODES" "length (match_index n) = XDEVICE_MAX_NODES"
      "length (cluster_nodes n) = XDEVICE_MAX_NODES" "unat (cluster_size n) \<le> XDEVICE_MAX_NODES"
    using wf by (simp_all add: node_wf_def arrays_wf_def)
  have "vote_request ?n \<noteq> None" using wf by (intro vote_request_start) (simp add: node_wf_def)
  then have "vote_loop e ?is 1 ?n \<noteq> None"
    by (rule vote_loop_defined) (use arr in \<open>simp add: atLeast_upt\<close>)
  then obtain v' n' where run: "vote_loop e ?is 1 ?n = Some (v', n')" by (metis option.exhaust surj_pair)
  have count: "length (filter (granted e ?n) ?is) \<le> XDEVICE_MAX_NODES"
    using arr(4) length_filter_le [of "granted e ?n" ?is] by simp
  from vote_loop_spec [OF run] show thesis
  proof (elim disjE conjE exE)
    assume n': "n' = ?n" and v: "v' = 1 + of_nat (length (filter (granted e ?n) ?is))" and low: "\<forall>i \<in> set ?is. \<not> ahead e ?n i"
    then have v': "v' = of_nat (vote_count e n)" by (simp add: vote_count_def)
    have maj: "v' > cluster_size n div 2 \<longleftrightarrow> unat (cluster_size n) < 2 * vote_count e n"
      unfolding v' by (rule majority_arith) (use count in \<open>simp add: vote_count_def XDEVICE_MAX_NODES_def\<close>)
    show thesis
    proof (cases "unat (cluster_size n) < 2 * vote_count e n")
      case True
      obtain ni mi where "init_leader_loop ?is (?n\<lparr>state := XDEVICE_NODE_LEADER\<rparr>) =
            Some (?n\<lparr>state := XDEVICE_NODE_LEADER, next_index := ni, match_index := mi\<rparr>)"
          "length ni = XDEVICE_MAX_NODES" "length mi = XDEVICE_MAX_NODES"
          "\<forall>i < unat (cluster_size n). ni ! i = log_size n + 1 \<and> mi ! i = 0"
          "\<forall>i < XDEVICE_MAX_NODES. unat (cluster_size n) \<le> i \<longrightarrow> ni ! i = next_index n ! i"
        using init_leader_loop_eq [of ?is "?n\<lparr>state := XDEVICE_NODE_LEADER\<rparr>"] arr by (force simp: atLeast_upt)
      with True maj run n' due low show thesis by (intro won [where ni = ni and mi = mi]) (simp_all add: election_tick_def)
    next
      case False
      with maj run n' due low show thesis by (intro lost) (simp_all add: election_tick_def)
    qed
  next
    fix us i vs t
    assume up: "?is = us @ i # vs" and low: "\<forall>j \<in> set us. \<not> ahead e ?n j" and rep: "reports e ?n i t"
      and t: "current_term ?n < t" and n': "n' = step_down e 2 t ?n"
    from run due low rep t n' upt_split [OF up] show thesis
      by (intro outdated [of t i]) (simp_all add: election_tick_def)
  qed
qed

section \<open>Heartbeats\<close>

text \<open>A leader whose table of next indices points into the log, or just behind it, for every member.\<close>

definition next_ok :: "'n raft_node \<Rightarrow> bool" where
  "next_ok n \<longleftrightarrow> (\<forall>i < unat (cluster_size n). 0 < next_index n ! i \<and> next_index n ! i \<le> log_size n + 1)"

definition leader_ok :: "'n raft_node \<Rightarrow> bool" where
  "leader_ok n \<longleftrightarrow> (state n = XDEVICE_NODE_LEADER \<longrightarrow> next_ok n)"

text \<open>What a round of heartbeats leaves alone.\<close>

definition same_log :: "'n raft_node \<Rightarrow> 'n raft_node \<Rightarrow> bool" where
  "same_log n n' \<longleftrightarrow> log_entries n' = log_entries n \<and> log_size n' = log_size n \<and>
     log_capacity n' = log_capacity n \<and> cluster_nodes n' = cluster_nodes n \<and>
     cluster_size n' = cluster_size n \<and> node_id n' = node_id n"

lemma same_log_trans: "same_log a b \<Longrightarrow> same_log b c \<Longrightarrow> same_log a c"
  by (simp add: same_log_def)

lemma append_request_defined:
  assumes wf: "log_wf n" "arrays_wf n" and nx: "next_ok n" and i: "i < unat (cluster_size n)"
  obtains req where "append_request n i = Some req" and "aq_prev_log_index req = next_index n ! i - 1"
proof -
  let ?x = "next_index n ! i"
  have x: "0 < ?x" "?x \<le> log_size n + 1" using nx i by (simp_all add: next_ok_def)
  have size: "unat (log_size n) < 2 ^ 58" using wf(1) by (simp add: log_wf_def word_le_nat_alt)
  have s1: "unat (log_size n + 1) = Suc (unat (log_size n))" by (rule unat_Suc_no_wrap) (use size in simp)
  have x1: "unat (?x - 1) = unat ?x - 1" using x(1) by (metis unat_minus_one word_gt_0)
  have len: "i < length (next_index n)" using wf(2) i by (simp add: arrays_wf_def)
  show thesis
  proof (cases "?x - 1 > 0")
    case True
    then have "unat (?x - 1 - 1) = unat ?x - 2" using x1 by (metis unat_minus_one word_gt_0 diff_diff_left one_add_one)
    moreover have "unat ?x \<le> Suc (unat (log_size n))" using x(2) s1 by (simp add: word_le_nat_alt)
    moreover have "0 < unat (?x - 1)" using True by (simp add: word_less_nat_alt)
    ultimately have "unat (?x - 1 - 1) < unat (log_size n)" using x1 by linarith
    from entry_term_defined [OF wf(1) this] True len show thesis
      by (intro that) (simp add: append_request_def Let_def, simp)
  next
    case False
    with len show thesis by (intro that) (simp add: append_request_def Let_def, simp)
  qed
qed

lemma handle_append_response_ok:
  assumes wf: "arrays_wf n" and nx: "next_ok n" and i: "i < unat (cluster_size n)"
    and req: "aq_prev_log_index req = next_index n ! i - 1"
  obtains n' where "handle_append_response i req resp n = Some n'" and "same_log n n'" and "arrays_wf n'"
    and "next_ok n'" and "current_term n' = current_term n" and "state n' = state n" and "callbacks n' = callbacks n"
proof -
  let ?x = "next_index n ! i"
  have x: "0 < ?x" "?x \<le> log_size n + 1" using nx i by (simp_all add: next_ok_def)
  have len: "i < length (next_index n)" "i < length (match_index n)" using wf i by (simp_all add: arrays_wf_def)
  show thesis
  proof (cases "ar_success resp")
    case True
    then show thesis
      by (rule_tac that [of "n\<lparr>match_index := (match_index n)[i := ?x - 1], next_index := (next_index n)[i := ?x]\<rparr>"])
         (use len req wf nx in \<open>auto simp: handle_append_response_def same_log_def arrays_wf_def next_ok_def\<close>)
  next
    case False
    show thesis
    proof (cases "?x > 1")
      case True
      have "0 < ?x - 1" "?x - 1 \<le> log_size n + 1"
      proof -
        have "unat (?x - 1) = unat ?x - 1" using x(1) by (metis unat_minus_one word_gt_0)
        then show "0 < ?x - 1" "?x - 1 \<le> log_size n + 1"
          using True x(2) by (simp_all add: word_less_nat_alt word_le_nat_alt)
      qed
      with True False len wf nx show thesis
        by (intro that [of "n\<lparr>next_index := (next_index n)[i := ?x - 1]\<rparr>"])
           (auto simp: handle_append_response_def same_log_def arrays_wf_def next_ok_def nth_list_update)
    next
      case no: False
      with False len wf nx show thesis
        by (intro that [of n]) (auto simp: handle_append_response_def same_log_def)
    qed
  qed
qed

lemma heartbeat_loop_ok:
  "log_wf n \<Longrightarrow> arrays_wf n \<Longrightarrow> next_ok n \<Longrightarrow> set is \<subseteq> {..<unat (cluster_size n)} \<Longrightarrow>
   \<exists>n'. heartbeat_loop e is n = Some n' \<and> same_log n n' \<and> arrays_wf n' \<and> current_term n \<le> current_term n' \<and>
     (state n' = state n \<and> next_ok n' \<or> state n' = XDEVICE_NODE_FOLLOWER \<and> current_term n < current_term n')"
proof (induction "is" arbitrary: n)
  case Nil
  then show ?case by (simp add: same_log_def)
next
  case (Cons i "is")
  have i: "i < unat (cluster_size n)" using Cons.prems by simp
  then have peer: "at (cluster_nodes n) i = Some (cluster_nodes n ! i)"
    using Cons.prems(2) by (simp add: arrays_wf_def)
  have IH: "\<exists>n'. heartbeat_loop e is m = Some n' \<and> same_log n n' \<and> arrays_wf n' \<and> current_term n \<le> current_term n' \<and>
     (state n' = state n \<and> next_ok n' \<or> state n' = XDEVICE_NODE_FOLLOWER \<and> current_term n < current_term n')"
    if m: "same_log n m" "arrays_wf m" "next_ok m" "current_term m = current_term n" "state m = state n" for m
  proof -
    have "log_wf m" using m(1,4) Cons.prems(1) by (auto simp: same_log_def intro: log_wf_term)
    moreover have "set is \<subseteq> {..<unat (cluster_size m)}" using m(1) Cons.prems(4) by (simp add: same_log_def)
    ultimately show ?thesis using Cons.IH [of m] m by (auto intro: same_log_trans)
  qed
  note self = IH [of n]
  obtain req where req: "append_request n i = Some req" "aq_prev_log_index req = next_index n ! i - 1"
    by (rule append_request_defined [OF Cons.prems(1-3) i])
  show ?case
  proof (cases "ni_node_id (cluster_nodes n ! i) = node_id n \<or> send_append_entries_fn (callbacks n) = None")
    case True
    with self Cons.prems peer req show ?thesis by (auto simp: same_log_def)
  next
    case False
    then obtain f where f: "send_append_entries_fn (callbacks n) = Some f" by auto
    obtain ret resp where r: "f (net e i) (ni_node_id (cluster_nodes n ! i)) req (junk_append e i) = (ret, resp)"
      by (cases "f (net e i) (ni_node_id (cluster_nodes n ! i)) req (junk_append e i)")
    obtain m where m: "handle_append_response i req resp n = Some m" "same_log n m" "arrays_wf m" "next_ok m"
        "current_term m = current_term n" "state m = state n"
      using handle_append_response_ok [OF Cons.prems(2,3) i req(2), of resp] by metis
    have down: "same_log n (step_down e 1 t n)" "arrays_wf (step_down e 1 t n)" for t
      using Cons.prems(2) by (simp_all add: same_log_def arrays_wf_def)
    show ?thesis
    proof (cases "ret \<noteq> XDEVICE_OK")
      case True
      with self Cons.prems peer req f r False show ?thesis by (auto simp: same_log_def)
    next
      case ok: False
      show ?thesis
      proof (cases "current_term n < ar_term resp")
        case True
        with peer req f r False ok down show ?thesis by simp
      next
        case le: False
        with IH [OF m(2-6)] m(1) peer req f r False ok show ?thesis by simp
      qed
    qed
  qed
qed

text \<open>Without that condition a pass may be undefined; what holds of its outcome, when it has one.  No next
  index reaches behind the log, and those of places without a member are zero.\<close>

definition index_ok :: "'n raft_node \<Rightarrow> bool" where
  "index_ok n \<longleftrightarrow> (\<forall>i < XDEVICE_MAX_NODES. next_index n ! i \<le> log_size n + 1 \<and>
     (unat (cluster_size n) \<le> i \<longrightarrow> next_index n ! i = 0))"

definition index_step :: "'n raft_node \<Rightarrow> 'n raft_node \<Rightarrow> bool" where
  "index_step n n' \<longleftrightarrow> (\<forall>i. next_index n' ! i \<le> next_index n ! i \<and> (next_index n' ! i = 0 \<longleftrightarrow> next_index n ! i = 0))"

lemma index_step_refl [simp]: "index_step n n"
  by (simp add: index_step_def)

lemma index_step_trans: "index_step a b \<Longrightarrow> index_step b c \<Longrightarrow> index_step a c"
  unfolding index_step_def by (meson order.trans)

lemma index_step_ok: "index_ok n \<Longrightarrow> same_log n n' \<Longrightarrow> index_step n n' \<Longrightarrow> index_ok n'"
  by (auto simp: index_ok_def index_step_def same_log_def intro: order.trans)

lemma index_step_set:
  "y \<le> next_index n ! i \<Longrightarrow> y = 0 \<longleftrightarrow> next_index n ! i = 0 \<Longrightarrow>
   index_step n (n\<lparr>match_index := mi, next_index := (next_index n)[i := y]\<rparr>)"
  by (cases "i < length (next_index n)") (auto simp: index_step_def nth_list_update list_update_beyond)

lemma handle_append_response_effect:
  assumes req: "append_request n i = Some req" and run: "handle_append_response i req resp n = Some n'"
  obtains mi y where "n' = n\<lparr>match_index := mi, next_index := (next_index n)[i := y]\<rparr>"
    and "length mi = length (match_index n)" and "y \<le> next_index n ! i" and "y = 0 \<longleftrightarrow> next_index n ! i = 0"
proof -
  let ?x = "next_index n ! i"
  have i: "i < length (next_index n)" and prev: "aq_prev_log_index req = ?x - 1"
    using req by (auto simp: append_request_def Let_def bind_eq_Some_conv)
  show thesis
  proof (cases "ar_success resp")
    case True
    with run prev show thesis
      by (intro that [of ?x "(match_index n)[i := ?x - 1]"])
         (auto simp: handle_append_response_def bind_eq_Some_conv put_at_def split: if_splits)
  next
    case False
    show thesis
    proof (cases "?x > 1")
      case True
      then have "0 < ?x" by (metis word_gt_0 not_less_iff_gr_or_eq word_less_1)
      then have "unat (?x - 1) = unat ?x - 1" by (metis unat_minus_one word_gt_0)
      then have "?x - 1 \<le> ?x" "?x - 1 = 0 \<longleftrightarrow> ?x = 0"
        using True by (auto simp: word_le_nat_alt word_less_nat_alt unat_eq_zero [symmetric])
      with True False run show thesis
        by (intro that [of "?x - 1" "match_index n"])
           (use i in \<open>auto simp: handle_append_response_def at_def\<close>)
    next
      case no: False
      with False run show thesis
        by (intro that [of ?x "match_index n"])
           (use i in \<open>auto simp: handle_append_response_def at_def split: if_splits\<close>)
    qed
  qed
qed

lemma heartbeat_loop_inv:
  "heartbeat_loop e is n = Some n' \<Longrightarrow> arrays_wf n \<Longrightarrow>
   same_log n n' \<and> arrays_wf n' \<and> index_step n n' \<and> current_term n \<le> current_term n' \<and>
   (state n' = state n \<or> state n' = XDEVICE_NODE_FOLLOWER)"
proof (induction "is" arbitrary: n)
  case Nil
  then show ?case by (simp add: same_log_def)
next
  case (Cons i "is")
  from Cons.prems(1) obtain peer where peer: "at (cluster_nodes n) i = Some peer"
    by (auto simp: bind_eq_Some_conv simp del: at_Some_iff)
  have self: ?case if "heartbeat_loop e is n = Some n'"
    using Cons.IH [OF that Cons.prems(2)] .
  show ?case
  proof (cases "ni_node_id peer = node_id n")
    case True
    with Cons.prems peer show ?thesis by (intro self) (simp del: at_Some_iff)
  next
    case other: False
    with Cons.prems peer obtain req where req: "append_request n i = Some req"
      by (auto simp: bind_eq_Some_conv simp del: at_Some_iff)
    show ?thesis
    proof (cases "send_append_entries_fn (callbacks n)")
      case None
      with Cons.prems other peer req show ?thesis by (intro self) (simp del: at_Some_iff)
    next
      case (Some f)
      obtain ret resp where f: "f (net e i) (ni_node_id peer) req (junk_append e i) = (ret, resp)" by fastforce
      consider "ret \<noteq> XDEVICE_OK" | "ret = XDEVICE_OK" "current_term n < ar_term resp"
        | "ret = XDEVICE_OK" "\<not> current_term n < ar_term resp" by blast
      then show ?thesis
      proof cases
        case 1
        with Cons.prems other peer req Some f show ?thesis by (intro self) (simp del: at_Some_iff)
      next
        case 2
        with Cons.prems other peer req Some f have "n' = step_down e 1 (ar_term resp) n"
          by (simp del: at_Some_iff)
        with 2 Cons.prems(2) show ?thesis by (simp add: same_log_def arrays_wf_def index_step_def)
      next
        case 3
        with Cons.prems other peer req Some f obtain m where m: "handle_append_response i req resp n = Some m"
            and rest: "heartbeat_loop e is m = Some n'"
          by (auto simp: bind_eq_Some_conv simp del: at_Some_iff)
        obtain mi y where eq: "m = n\<lparr>match_index := mi, next_index := (next_index n)[i := y]\<rparr>"
            "length mi = length (match_index n)" "y \<le> next_index n ! i" "y = 0 \<longleftrightarrow> next_index n ! i = 0"
          by (rule handle_append_response_effect [OF req m])
        have "arrays_wf m" using Cons.prems(2) eq(1,2) by (simp add: arrays_wf_def)
        moreover have "same_log n m" "current_term m = current_term n" "state m = state n"
          using eq(1) by (simp_all add: same_log_def)
        moreover have "index_step n m" unfolding eq(1) by (rule index_step_set [OF eq(3,4)])
        ultimately show ?thesis
          using Cons.IH [OF rest] by (auto intro: same_log_trans index_step_trans)
      qed
    qed
  qed
qed

section \<open>The replicated log\<close>

definition raft_app :: "'n raft_node \<Rightarrow> 'n raft_env \<times> byte list \<Rightarrow> (xdevice_error \<times> 'n raft_node) option" where
  "raft_app n c = do {
     (ret, n') \<leftarrow> xdevice_raft_append_log (fst c) (Some n) (Some (snd c)) (of_nat (length (snd c)));
     v \<leftarrow> n';
     Some (ret, v) }"

definition raft_legal :: "'n raft_env \<times> byte list \<Rightarrow> bool" where
  "raft_legal c \<longleftrightarrow> length (snd c) < 2 ^ 64"

definition new_entry :: "'n raft_node \<Rightarrow> byte list \<Rightarrow> raft_log_entry" where
  "new_entry n d = \<lparr>e_term = current_term n, e_index = log_size n + 1, e_data = Some d,
     e_length = of_nat (length d)\<rparr>"

lemma ensure_capacity_cases:
  assumes wf: "log_wf n"
  obtains (refused) "ensure_capacity e n = None" "log_size n = log_capacity n"
  | (room) es cap where "ensure_capacity e n = Some (n\<lparr>log_entries := es, log_capacity := cap\<rparr>)"
      "log_wf (n\<lparr>log_entries := es, log_capacity := cap\<rparr>)" "unat (log_size n) < length es"
      "raft_log (n\<lparr>log_entries := es, log_capacity := cap\<rparr>) = raft_log n"
proof (cases "log_size n \<ge> log_capacity n")
  case False
  then have "ensure_capacity e n = Some (n\<lparr>log_entries := log_entries n, log_capacity := log_capacity n\<rparr>)"
    by (cases n) (simp add: ensure_capacity_def)
  with False wf show thesis
    by (intro room [where es = "log_entries n" and cap = "log_capacity n"])
       (simp_all add: log_wf_def raft_log_def word_less_nat_alt not_le)
next
  case True
  then have full: "log_size n = log_capacity n" using wf by (simp add: log_wf_def)
  let ?cap = "log_capacity n * 2"
  have cap: "unat (log_capacity n) < 2 ^ 58" "0 < unat (log_capacity n)" "length (log_entries n) = unat (log_capacity n)"
    using wf by (simp_all add: log_wf_def word_less_nat_alt)
  have c2: "unat ?cap = 2 * unat (log_capacity n)" using cap(1) by (simp add: unat_word_ariths)
  have c32: "unat (32 * ?cap) = 64 * unat (log_capacity n)" using cap(1) by (simp add: unat_word_ariths)
  show thesis
  proof (cases "r_alloc e 0 \<and> unat (32 * ?cap) < 2 ^ 63")
    case False
    with True full show thesis by (intro refused) (simp_all add: ensure_capacity_def Let_def)
  next
    case ok: True
    let ?es = "log_entries n @ replicate (unat (log_capacity n)) None"
    have es: "realloc_entries ?cap (log_entries n) = ?es" using cap(3) c32 by (simp add: realloc_entries_def Let_def)
    have "unat ?cap < 2 ^ 58" using ok c32 c2 by simp
    moreover have "0 < ?cap" using c2 cap(2) by (simp add: word_less_nat_alt)
    moreover have "log_size n \<le> ?cap" using full c2 by (simp add: word_le_nat_alt)
    ultimately have "log_wf (n\<lparr>log_entries := ?es, log_capacity := ?cap\<rparr>)"
      using wf full cap(3) c2 by (simp add: log_wf_def raft_log_def)
    moreover have "raft_log (n\<lparr>log_entries := ?es, log_capacity := ?cap\<rparr>) = raft_log n"
      using full cap(3) by (simp add: raft_log_def)
    ultimately show thesis
      using True ok es cap(2,3) full
      by (intro room [where es = ?es and cap = ?cap]) (simp_all add: ensure_capacity_def Let_def)
  qed
qed

lemma log_wf_beyond:
  assumes "log_wf n" and "unat (log_size n) < length (log_entries n)"
  shows "log_wf (n\<lparr>log_entries := (log_entries n)[unat (log_size n) := v]\<rparr>)"
    and "raft_log (n\<lparr>log_entries := (log_entries n)[unat (log_size n) := v]\<rparr>) = raft_log n"
  using assms by (simp_all add: log_wf_def raft_log_def)

lemma log_wf_snoc:
  assumes wf: "log_wf n" and room: "unat (log_size n) < length (log_entries n)"
    and en: "e_index en = log_size n + 1" "e_term en = current_term n"
  defines "n' \<equiv> n\<lparr>log_entries := (log_entries n)[unat (log_size n) := Some en], log_size := log_size n + 1\<rparr>"
  shows "log_wf n'" and "raft_log n' = raft_log n @ [en]"
proof -
  have cap: "unat (log_capacity n) < 2 ^ 58" "length (log_entries n) = unat (log_capacity n)"
    using wf by (simp_all add: log_wf_def)
  have s: "unat (log_size n + 1) = Suc (unat (log_size n))"
    by (rule unat_Suc_no_wrap) (use cap room in simp)
  have t: "take (Suc (unat (log_size n))) ((log_entries n)[unat (log_size n) := Some en]) =
      take (unat (log_size n)) (log_entries n) @ [Some en]"
    using room by (simp add: take_Suc_conv_app_nth)
  then show log: "raft_log n' = raft_log n @ [en]" by (simp add: raft_log_def n'_def s)
  have "log_size n + 1 \<le> log_capacity n" using room cap s by (simp add: word_le_nat_alt)
  moreover have "sorted (map e_term (raft_log n @ [en]))" "\<forall>x \<in> set (raft_log n @ [en]). e_term x \<le> current_term n"
    using wf en(2) by (auto simp: log_wf_def sorted_append)
  moreover have "map e_index (raft_log n @ [en]) = map (\<lambda>i. of_nat (Suc i)) [0..<Suc (unat (log_size n))]"
    using wf en(1) by (simp add: log_wf_def)
  moreover have "None \<notin> set (take (unat (log_size n)) (log_entries n) @ [Some en])"
    using wf by (simp add: log_wf_def)
  ultimately show "log_wf n'"
    using wf t by (simp add: log_wf_def log s) (simp add: n'_def s log_wf_def)
qed

text \<open>One append, on every branch.\<close>

lemma raft_append_cases:
  assumes wf: "node_wf n" and len: "length d < 2 ^ 64"
  obtains (empty) "raft_app n (e, d) = Some (XDEVICE_ERROR_INVALID_PARAM, n)" "d = []"
  | (not_leader) "raft_app n (e, d) = Some (XDEVICE_ERROR_PERMISSION, n)" "state n \<noteq> XDEVICE_NODE_LEADER" "d \<noteq> []"
  | (no_memory) n' where "raft_app n (e, d) = Some (XDEVICE_ERROR_OUT_OF_MEMORY, n')" "node_wf n'"
      "raft_log n' = raft_log n" "log_size n' = log_size n" "state n' = state n" "current_term n' = current_term n"
      "next_index n' = next_index n" "cluster_size n' = cluster_size n" "d \<noteq> []" "state n = XDEVICE_NODE_LEADER"
  | (ok) n' where "raft_app n (e, d) = Some (XDEVICE_OK, n')" "node_wf n'"
      "raft_log n' = raft_log n @ [new_entry n d]" "log_size n' = log_size n + 1" "state n' = state n"
      "current_term n' = current_term n" "next_index n' = next_index n" "cluster_size n' = cluster_size n"
      "d \<noteq> []" "state n = XDEVICE_NODE_LEADER"
proof -
  have log: "log_wf n" and arr: "arrays_wf n" using wf by (simp_all add: node_wf_def)
  let ?len = "of_nat (length d) :: u64"
  have ulen: "unat ?len = length d" using len by (simp add: unat_of_nat)
  then have z: "?len = 0 \<longleftrightarrow> d = []" by (metis length_0_conv unat_eq_zero)
  consider "d = []" | "d \<noteq> []" "state n \<noteq> XDEVICE_NODE_LEADER" | "d \<noteq> []" "state n = XDEVICE_NODE_LEADER" by blast
  then show thesis
  proof cases
    case 1
    then show thesis by (intro empty) (simp_all add: raft_app_def xdevice_raft_append_log_def)
  next
    case 2
    then show thesis using z by (intro not_leader) (simp_all add: raft_app_def xdevice_raft_append_log_def)
  next
    case 3
    show thesis
    proof (cases rule: ensure_capacity_cases [OF log, of e], goal_cases refused room)
      case refused
      with 3 z wf show ?case by (intro no_memory [of n]) (simp_all add: raft_app_def xdevice_raft_append_log_def)
    next
      case (room es cap)
      let ?m = "n\<lparr>log_entries := es, log_capacity := cap\<rparr>"
      have room': "unat (log_size ?m) < length (log_entries ?m)" using room(3) by simp
      show ?case
      proof (cases "r_alloc e 1")
        case False
        let ?en = "Some \<lparr>e_term = current_term n, e_index = log_size n + 1, e_data = None, e_length = ?len\<rparr>"
        from log_wf_beyond [OF room(2) room', of ?en] room 3 z arr False show ?thesis
          by (intro no_memory [of "n\<lparr>log_capacity := cap, log_entries := es[unat (log_size n) := ?en]\<rparr>"])
             (simp_all add: raft_app_def xdevice_raft_append_log_def node_wf_def arrays_wf_def)
      next
        case True
        from log_wf_snoc [OF room(2) room', of "new_entry n d"] room 3 z arr True ulen show ?thesis
          by (intro ok [of "n\<lparr>log_capacity := cap, log_entries := es[unat (log_size n) := Some (new_entry n d)],
                 log_size := log_size n + 1\<rparr>"])
             (simp_all add: raft_app_def xdevice_raft_append_log_def node_wf_def arrays_wf_def new_entry_def)
      qed
    qed
  qed
qed

definition raft_entry :: "'n raft_node \<Rightarrow> 'n raft_env \<times> byte list \<Rightarrow> raft_log_entry" where
  "raft_entry n c = new_entry n (snd c)"

interpretation raft_alog: append_log node_wf raft_legal raft_log raft_app raft_entry
proof
  fix n :: "'n raft_node" and c :: "'n raft_env \<times> byte list"
  assume n: "node_wf n" and "raft_legal c"
  obtain e d where c: "c = (e, d)" by (cases c)
  with \<open>raft_legal c\<close> have d: "length d < 2 ^ 64" by (simp add: raft_legal_def)
  show "\<exists>ret s'. raft_app n c = Some (ret, s') \<and> node_wf s'"
    unfolding c by (rule raft_append_cases [OF n d, of e]) (use n in auto)
  fix n' assume "raft_app n c = Some (XDEVICE_OK, n')"
  then show "raft_log n' = raft_log n @ [raft_entry n c]"
    unfolding c raft_entry_def by (rule_tac raft_append_cases [OF n d, of e]) auto
next
  fix n :: "'n raft_node" and c :: "'n raft_env \<times> byte list" and ret n'
  assume n: "node_wf n" and "raft_legal c" and run: "raft_app n c = Some (ret, n')" "ret \<noteq> XDEVICE_OK"
  obtain e d where c: "c = (e, d)" by (cases c)
  with \<open>raft_legal c\<close> have d: "length d < 2 ^ 64" by (simp add: raft_legal_def)
  show "raft_log n' = raft_log n"
    by (rule raft_append_cases [OF n d, of e]) (use run c in auto)
qed

section \<open>Reachable nodes\<close>

text \<open>The steps of the two threads and of the callers, in any state of the node.  Fewer than \<open>2 ^ 64\<close>
  terms pass.\<close>

inductive raft_step :: "'n raft_node \<Rightarrow> 'n raft_node \<Rightarrow> bool" where
  elect: "current_term n \<noteq> 0xFFFFFFFFFFFFFFFF \<Longrightarrow> election_tick e n = Some n' \<Longrightarrow> raft_step n n'"
| beat: "heartbeat_tick e n = Some n' \<Longrightarrow> raft_step n n'"
| append: "length d < 2 ^ 64 \<Longrightarrow>
    xdevice_raft_append_log e (Some n) (Some d) (of_nat (length d)) = Some (ret, Some n') \<Longrightarrow> raft_step n n'"
| join: "xdevice_raft_add_node_to_cluster (Some n) (Some v) = Some (ret, Some n') \<Longrightarrow> raft_step n n'"
| start: "xdevice_raft_start_node e (Some n) (Some c) = (ret, Some n') \<Longrightarrow> raft_step n n'"

inductive raft_reachable :: "'n raft_node \<Rightarrow> bool" where
  create: "xdevice_raft_create_node e (Some s) = Some n \<Longrightarrow> raft_reachable n"
| step: "raft_reachable n \<Longrightarrow> raft_step n n' \<Longrightarrow> raft_reachable n'"

definition raft_ok :: "'n raft_node \<Rightarrow> bool" where
  "raft_ok n \<longleftrightarrow> node_wf n \<and> leader_ok n"

lemma term_less_next:
  fixes t :: u64
  assumes "t \<noteq> 0xFFFFFFFFFFFFFFFF"
  shows "t < t + 1"
proof -
  have "unat t \<noteq> 2 ^ 64 - 1" using assms by (auto dest: arg_cong [where f = "of_nat :: nat \<Rightarrow> u64"])
  then have "Suc (unat t) < 2 ^ LENGTH(64)" using unat_u64_bound [of t] by (simp del: unat_u64_bound)
  then have "unat (t + 1) = Suc (unat t)" by (rule unat_Suc_no_wrap)
  then show ?thesis by (simp add: word_less_nat_alt)
qed

lemma log_size_next:
  assumes "log_wf n"
  shows "0 < log_size n + 1" "x \<le> log_size n + 1 \<Longrightarrow> x \<le> log_size n + 1 + 1"
proof -
  have s: "unat (log_size n) < 2 ^ 58" using assms by (simp add: log_wf_def word_le_nat_alt)
  then have 1: "unat (log_size n + 1) = Suc (unat (log_size n))" by (intro unat_Suc_no_wrap) simp
  then have "unat (log_size n + 1 + 1) = Suc (Suc (unat (log_size n)))" using s by (subst unat_Suc_no_wrap) simp_all
  with 1 show "0 < log_size n + 1" "x \<le> log_size n + 1 \<Longrightarrow> x \<le> log_size n + 1 + 1"
    by (simp_all add: word_less_nat_alt word_le_nat_alt)
qed

lemma election_tick_ok:
  assumes ok: "raft_ok n" and t: "current_term n \<noteq> 0xFFFFFFFFFFFFFFFF"
  obtains n' where "election_tick e n = Some n'" and "raft_ok n'" and "current_term n \<le> current_term n'"
proof (cases "state n \<noteq> XDEVICE_NODE_LEADER \<and> election_timeout n \<le> get_current_time_ms (clock e 0)")
  case False
  with ok show thesis by (intro that [of n]) (auto simp: election_tick_def)
next
  case True
  note lt = term_less_next [OF t]
  have wf: "node_wf n" and log: "log_wf n" and arr: "arrays_wf n" using ok by (simp_all add: raft_ok_def node_wf_def)
  have log': "log_wf m" if "log_entries m = log_entries n" "log_size m = log_size n" "log_capacity m = log_capacity n"
      "current_term n + 1 \<le> current_term m" for m :: "'a raft_node"
    by (rule log_wf_term [OF log]) (use that lt in simp_all)
  show thesis
  proof (cases rule: election_tick_cases [OF wf True [THEN conjunct1] True [THEN conjunct2]], goal_cases won lost outdated)
    case (won ni mi)
    with lt log' arr log_size_next(1) [OF log] show ?case
      by (intro that [OF won(1)]) (simp_all add: raft_ok_def node_wf_def arrays_wf_def leader_ok_def next_ok_def)
  next
    case lost
    with lt log' arr show ?case
      by (intro that [OF lost(1)]) (simp_all add: raft_ok_def node_wf_def arrays_wf_def leader_ok_def)
  next
    case (outdated u)
    then have "current_term n \<le> u" using lt by simp
    with outdated lt log' arr show ?case
      by (intro that [OF outdated(1)]) (simp_all add: raft_ok_def node_wf_def arrays_wf_def leader_ok_def)
  qed
qed

lemma heartbeat_tick_ok:
  assumes ok: "raft_ok n"
  obtains n' where "heartbeat_tick e n = Some n'" and "raft_ok n'" and "current_term n \<le> current_term n'"
proof (cases "state n = XDEVICE_NODE_LEADER \<and>
    get_current_time_ms (clock e 0) - last_heartbeat n \<ge> RAFT_HEARTBEAT_INTERVAL_MS")
  case False
  with ok show thesis by (intro that [of n]) (auto simp: heartbeat_tick_def Let_def)
next
  case True
  have log: "log_wf n" and arr: "arrays_wf n" and nx: "next_ok n"
    using ok True by (simp_all add: raft_ok_def node_wf_def leader_ok_def)
  obtain n' where n': "heartbeat_loop e [0..<unat (cluster_size n)] n = Some n'" "same_log n n'" "arrays_wf n'"
      "current_term n \<le> current_term n'"
      "state n' = state n \<and> next_ok n' \<or> state n' = XDEVICE_NODE_FOLLOWER \<and> current_term n < current_term n'"
    using heartbeat_loop_ok [OF log arr nx, of "[0..<unat (cluster_size n)]" e] by (auto simp: atLeast_upt)
  let ?m = "n'\<lparr>last_heartbeat := get_current_time_ms (clock e 0)\<rparr>"
  have "log_wf ?m" by (rule log_wf_term [OF log]) (use n' in \<open>simp_all add: same_log_def\<close>)
  moreover have "arrays_wf ?m" using n'(3) by (simp add: arrays_wf_def)
  moreover have "leader_ok ?m" using n'(5) True by (auto simp: leader_ok_def next_ok_def)
  ultimately show thesis
    using n' True by (intro that [of ?m]) (simp_all add: heartbeat_tick_def raft_ok_def node_wf_def)
qed

text \<open>The invariant of every reachable node, and what a leader needs besides for its heartbeats.\<close>

definition raft_inv :: "'n raft_node \<Rightarrow> bool" where
  "raft_inv n \<longleftrightarrow> node_wf n \<and> index_ok n"

definition settled :: "'n raft_node \<Rightarrow> bool" where
  "settled n \<longleftrightarrow> (state n = XDEVICE_NODE_LEADER \<longrightarrow> (\<forall>i < unat (cluster_size n). next_index n ! i \<noteq> 0))"

lemma settled_ok: "raft_inv n \<Longrightarrow> settled n \<Longrightarrow> raft_ok n"
  by (auto simp: raft_inv_def settled_def raft_ok_def node_wf_def arrays_wf_def leader_ok_def next_ok_def
      index_ok_def word_gt_0)

lemma follower_settled: "state n \<noteq> XDEVICE_NODE_LEADER \<Longrightarrow> settled n"
  by (simp add: settled_def)

lemma raft_inv_fields: "raft_inv n \<Longrightarrow> node_wf n \<and> log_wf n \<and> arrays_wf n \<and> index_ok n"
  by (simp add: raft_inv_def node_wf_def)

lemma index_ok_cong:
  assumes "next_index n' = next_index n" "log_size n' = log_size n" "cluster_size n' = cluster_size n"
  shows "index_ok n' = index_ok n"
  using assms by (simp add: index_ok_def)

lemma election_tick_inv:
  assumes inv: "raft_inv n" and t: "current_term n \<noteq> 0xFFFFFFFFFFFFFFFF" and run: "election_tick e n = Some n'"
  shows "raft_inv n' \<and> current_term n \<le> current_term n' \<and> (settled n \<longrightarrow> settled n')"
proof (cases "state n \<noteq> XDEVICE_NODE_LEADER \<and> election_timeout n \<le> get_current_time_ms (clock e 0)")
  case False
  with run inv show ?thesis by (auto simp: election_tick_def)
next
  case True
  have ok: "raft_ok n" using inv True by (simp add: settled_ok follower_settled)
  have wf: "node_wf n" and log: "log_wf n" and idx: "index_ok n" using inv by (simp_all add: raft_inv_fields)
  have ok': "raft_ok n'" "current_term n \<le> current_term n'"
    using election_tick_ok [OF ok t, of e] run by (metis option.inject)+
  have "index_ok n'"
    by (cases rule: election_tick_cases [OF wf True [THEN conjunct1] True [THEN conjunct2]])
       (use run idx log_size_next(1) [OF log] in \<open>auto simp: index_ok_def not_less [symmetric]\<close>)
  with ok' show ?thesis by (auto simp: raft_inv_def raft_ok_def settled_def leader_ok_def next_ok_def)
qed

lemma heartbeat_tick_inv:
  assumes inv: "raft_inv n" and run: "heartbeat_tick e n = Some n'"
  shows "raft_inv n' \<and> current_term n \<le> current_term n' \<and> same_log n n' \<and> (settled n \<longrightarrow> settled n')"
proof (cases "n' = n")
  case True
  with inv show ?thesis by (simp add: same_log_def)
next
  case False
  have log: "log_wf n" and arr: "arrays_wf n" and idx: "index_ok n" using inv by (simp_all add: raft_inv_fields)
  obtain m where m: "heartbeat_loop e [0..<unat (cluster_size n)] n = Some m"
      and n': "n' = m\<lparr>last_heartbeat := get_current_time_ms (clock e 0)\<rparr>" and lead: "state n = XDEVICE_NODE_LEADER"
    using run False by (auto simp: heartbeat_tick_def Let_def bind_eq_Some_conv split: if_splits)
  note inv' = heartbeat_loop_inv [OF m arr]
  have "log_wf n'" by (rule log_wf_term [OF log]) (use inv' in \<open>simp_all add: n' same_log_def\<close>)
  moreover have "arrays_wf n'" using inv' by (simp add: n' arrays_wf_def)
  moreover have "index_ok n'" using inv' index_step_ok [OF idx] index_ok_cong [of n' m] by (simp add: n')
  moreover have "settled n \<longrightarrow> settled n'"
    using inv' lead by (auto simp: n' settled_def index_step_def same_log_def)
  moreover have "current_term n \<le> current_term n'" "same_log n n'" using inv' by (simp_all add: n' same_log_def)
  ultimately show ?thesis by (simp add: raft_inv_def node_wf_def)
qed

lemma append_inv:
  assumes inv: "raft_inv n" and d: "length d < 2 ^ 64"
    and run: "xdevice_raft_append_log e (Some n) (Some d) (of_nat (length d)) = Some (ret, Some n')"
  shows "raft_inv n' \<and> current_term n' = current_term n \<and> (settled n \<longrightarrow> settled n')"
proof -
  have wf: "node_wf n" and log: "log_wf n" using inv by (simp_all add: raft_inv_fields)
  have app: "raft_app n (e, d) = Some (ret, n')" using run by (simp add: raft_app_def)
  show ?thesis
    by (cases rule: raft_append_cases [OF wf d, of e])
       (use app inv log_size_next(2) [OF log] in \<open>auto simp: raft_inv_def index_ok_def settled_def\<close>)
qed

lemma join_effect:
  assumes run: "xdevice_raft_add_node_to_cluster (Some n) (Some v) = Some (ret, Some n')"
  shows "n' = n \<or> unat (cluster_size n) < XDEVICE_MAX_NODES \<and>
    n' = n\<lparr>cluster_nodes := (cluster_nodes n)[unat (cluster_size n) := v], cluster_size := cluster_size n + 1\<rparr> \<and>
    unat (cluster_size n') = Suc (unat (cluster_size n))"
proof -
  have "unat (cluster_size n + 1) = Suc (unat (cluster_size n))" if "\<not> XDEVICE_MAX_NODES \<le> unat (cluster_size n)"
    by (rule unat_Suc_no_wrap) (use that in \<open>simp add: XDEVICE_MAX_NODES_def\<close>)
  with run show ?thesis
    by (auto simp: xdevice_raft_add_node_to_cluster_def add_node_check_def add_node_locked_def put_at_def
        bind_eq_Some_conv split: if_splits)
qed

lemma join_inv:
  assumes inv: "raft_inv n" and run: "xdevice_raft_add_node_to_cluster (Some n) (Some v) = Some (ret, Some n')"
  shows "raft_inv n' \<and> current_term n' = current_term n \<and> state n' = state n \<and> raft_log n' = raft_log n \<and>
    (cluster_size n' = cluster_size n \<longrightarrow> n' = n)"
proof -
  have "log_wf n'"
    by (rule log_wf_term [of n]) (use inv join_effect [OF run] in \<open>auto simp: raft_inv_fields\<close>)
  with inv join_effect [OF run] show ?thesis
    by (auto simp: raft_inv_def node_wf_def arrays_wf_def index_ok_def raft_log_def)
qed

lemma start_effect:
  assumes "xdevice_raft_start_node e (Some n) (Some c) = (ret, Some n')"
  shows "\<exists>b. n' = n\<lparr>callbacks := c, running := b\<rparr>"
  using assms by (auto simp: xdevice_raft_start_node_def Let_def split: if_splits)

lemma start_inv: "raft_inv (n\<lparr>callbacks := c, running := b\<rparr>) = raft_inv n"
  by (simp add: raft_inv_def node_wf_def arrays_wf_def log_wf_def raft_log_def index_ok_def)

lemma raft_step_inv:
  assumes "raft_step n n'" and inv: "raft_inv n"
  shows "raft_inv n' \<and> current_term n \<le> current_term n' \<and>
    (settled n \<and> (cluster_size n' = cluster_size n \<or> state n \<noteq> XDEVICE_NODE_LEADER) \<longrightarrow> settled n')"
  using assms(1)
proof cases
  case (elect e)
  with election_tick_inv [OF inv] show ?thesis by blast
next
  case (beat e)
  with heartbeat_tick_inv [OF inv] show ?thesis by blast
next
  case (append d e ret)
  with append_inv [OF inv] show ?thesis by fastforce
next
  case (join v ret)
  from join_inv [OF inv join] show ?thesis by (auto simp: follower_settled)
next
  case (start e c ret)
  from start_effect [OF start] show ?thesis using inv by (auto simp: start_inv settled_def)
qed

lemma raft_create_inv: "xdevice_raft_create_node e (Some s) = Some n \<Longrightarrow> raft_inv n \<and> state n = XDEVICE_NODE_FOLLOWER"
  by (auto simp: xdevice_raft_create_node_def reset_election_timer_def raft_inv_def node_wf_def arrays_wf_def
      log_wf_def raft_log_def index_ok_def XDEVICE_MAX_NODES_def split: if_splits)

lemma raft_reachable_inv: "raft_reachable n \<Longrightarrow> raft_inv n"
  by (induction rule: raft_reachable.induct) (simp_all add: raft_create_inv raft_step_inv)

lemma raft_create_ok: "xdevice_raft_create_node e (Some s) = Some n \<Longrightarrow> raft_ok n"
  using raft_create_inv [of e s n] by (simp add: settled_ok follower_settled)

section \<open>Quorums\<close>

text \<open>Any two quorums of a fixed set of voters have a member in common, so that two candidates that
  each have a quorum of votes, with one vote per voter, are the same.\<close>

locale quorum_system =
  fixes voters :: "'v set" and quorum :: "'v set \<Rightarrow> bool"
  assumes quorum_sub: "quorum Q \<Longrightarrow> Q \<subseteq> voters"
    and quorum_meet: "quorum Q \<Longrightarrow> quorum R \<Longrightarrow> Q \<inter> R \<noteq> {}"
begin

lemma one_winner:
  assumes "quorum Q" and "quorum R" and "\<And>v. v \<in> Q \<Longrightarrow> vote v = Some a" and "\<And>v. v \<in> R \<Longrightarrow> vote v = Some b"
  shows "a = b"
proof -
  obtain v where "v \<in> Q" "v \<in> R" using quorum_meet [OF assms(1,2)] by blast
  then show ?thesis using assms(3,4) by fastforce
qed

end

definition members :: "'n raft_node \<Rightarrow> string list" where
  "members n = map ni_node_id (take (unat (cluster_size n)) (cluster_nodes n))"

definition is_majority :: "string list \<Rightarrow> string set \<Rightarrow> bool" where
  "is_majority ids Q \<longleftrightarrow> Q \<subseteq> set ids \<and> length ids < 2 * card Q"

interpretation majority: quorum_system "set ids" "is_majority ids" for ids
proof
  fix Q R assume Q: "is_majority ids Q" and R: "is_majority ids R"
  show "Q \<inter> R \<noteq> {}"
  proof
    assume "Q \<inter> R = {}"
    moreover have "finite Q" "finite R" using Q R by (auto simp: is_majority_def intro: finite_subset)
    ultimately have "card Q + card R = card (Q \<union> R)" by (simp add: card_Un_disjoint)
    also have "\<dots> \<le> card (set ids)" using Q R by (intro card_mono) (auto simp: is_majority_def)
    also have "\<dots> \<le> length ids" by (rule card_length)
    finally show False using Q R by (simp add: is_majority_def)
  qed
qed (simp add: is_majority_def)

text \<open>The members that voted for \<open>n\<close>: itself and the peers that granted their vote.\<close>

definition vote_set :: "'n raft_env \<Rightarrow> 'n raft_node \<Rightarrow> string set" where
  "vote_set e n = insert (node_id n)
     ((!) (members n) ` set (filter (granted e (start_election e n)) [0..<unat (cluster_size n)]))"

lemma granted_peer: "granted e n i \<Longrightarrow> i < length (cluster_nodes n) \<and> ni_node_id (cluster_nodes n ! i) \<noteq> node_id n"
  by (auto simp: granted_def split: option.splits prod.splits)

lemma vote_set_majority:
  assumes wf: "node_wf n" and own: "node_id n \<in> set (members n)" and dist: "distinct (members n)"
    and won: "unat (cluster_size n) < 2 * vote_count e n"
  shows "is_majority (members n) (vote_set e n)"
proof -
  let ?G = "filter (granted e (start_election e n)) [0..<unat (cluster_size n)]"
  have len: "length (members n) = unat (cluster_size n)"
    using wf by (simp add: members_def node_wf_def arrays_wf_def)
  have nth: "members n ! i = ni_node_id (cluster_nodes n ! i)" if "i \<in> set ?G" for i
    using that wf by (simp add: members_def node_wf_def arrays_wf_def)
  have inj: "inj_on ((!) (members n)) (set ?G)"
    using dist len by (auto simp: inj_on_def nth_eq_iff_index_eq)
  have "card ((!) (members n) ` set ?G) = length ?G"
    using card_image [OF inj] distinct_card [of ?G] by simp
  moreover have "node_id n \<notin> (!) (members n) ` set ?G"
    using nth granted_peer [of e "start_election e n"] by fastforce
  ultimately have "card (vote_set e n) = vote_count e n"
    by (simp add: vote_set_def vote_count_def)
  moreover have "vote_set e n \<subseteq> set (members n)" using own len by (auto simp: vote_set_def)
  ultimately show ?thesis using won len by (simp add: is_majority_def)
qed

section \<open>Concrete nodes\<close>

definition calm_raft_env :: "unit raft_env" where
  "calm_raft_env = \<lparr>clock = (\<lambda>_. \<lparr>tv_s = 1700000000, tv_us = 250000\<rparr>), rnd = (\<lambda>_. 42), net = (\<lambda>_. ()),
     junk_vote = (\<lambda>_. \<lparr>vr_term = 0, vr_granted = True\<rparr>), junk_append = (\<lambda>_. \<lparr>ar_term = 0, ar_success = False\<rparr>),
     r_alloc = (\<lambda>_. True), r_mutex = True, r_thread = (\<lambda>_. True)\<rparr>"

definition peer_info :: "string \<Rightarrow> node_info" where
  "peer_info s = zero_node_info\<lparr>ni_node_id := s\<rparr>"

definition fresh_node :: "unit raft_node" where
  "fresh_node = the (xdevice_raft_create_node calm_raft_env (Some ''n1''))"

text \<open>A started node of a cluster of three, with its election timer expired.\<close>

definition trio_node :: "unit raft_node" where
  "trio_node = fresh_node\<lparr>cluster_nodes := [peer_info ''n1'', peer_info ''n2'', peer_info ''n3''] @
       replicate 61 zero_node_info, cluster_size := 3, election_timeout := 0, callbacks := node_main_callbacks\<rparr>"

lemma fresh_node_eq: "xdevice_raft_create_node calm_raft_env (Some ''n1'') = Some fresh_node"
  by (simp add: fresh_node_def xdevice_raft_create_node_def calm_raft_env_def)

lemma fresh_node_reachable: "raft_reachable fresh_node"
  by (rule raft_reachable.create [OF fresh_node_eq])

lemma fresh_node_fields [simp]:
  "node_id fresh_node = ''n1''" "state fresh_node = XDEVICE_NODE_FOLLOWER" "current_term fresh_node = 0"
  "log_entries fresh_node = replicate 1024 None" "log_capacity fresh_node = 1024" "log_size fresh_node = 0"
  "next_index fresh_node = replicate 64 0" "match_index fresh_node = replicate 64 0" "cluster_size fresh_node = 0"
  "cluster_nodes fresh_node = replicate 64 zero_node_info" "last_heartbeat fresh_node = 0"
  by (simp_all add: fresh_node_def xdevice_raft_create_node_def calm_raft_env_def reset_election_timer_def
      XDEVICE_MAX_NODES_def XDEVICE_MAX_NODE_ID_LEN_def)

lemma trio_wf: "node_wf trio_node"
  by (simp add: node_wf_def arrays_wf_def log_wf_def raft_log_def trio_node_def XDEVICE_MAX_NODES_def)

lemma trio_members: "members trio_node = [''n1'', ''n2'', ''n3'']"
  by (simp add: members_def trio_node_def peer_info_def)

lemma trio_due: "state trio_node \<noteq> XDEVICE_NODE_LEADER" "election_timeout trio_node \<le> get_current_time_ms t"
  by (simp_all add: trio_node_def)

lemma trio_granted:
  "filter (granted calm_raft_env (start_election calm_raft_env trio_node)) [0..<unat (cluster_size trio_node)] = [1, 2]"
proof -
  have "[0..<unat (cluster_size trio_node)] = [0, 1, 2]" by (simp add: trio_node_def upt_rec)
  then show ?thesis
    by (simp add: granted_def vote_request_def trio_node_def peer_info_def at_def node_main_callbacks_def
        send_vote_request_def calm_raft_env_def)
qed

lemma trio_wins:
  obtains n' where "election_tick calm_raft_env trio_node = Some n'" "state n' = XDEVICE_NODE_LEADER"
    "current_term n' = 1" "voted_for n' = ''n1''"
proof -
  let ?n = "start_election calm_raft_env trio_node"
  have no: "vote_loop calm_raft_env [0, 1, 2] 1 ?n = Some (3, ?n)"
    by (simp add: trio_node_def peer_info_def at_def vote_request_def node_main_callbacks_def
        send_vote_request_def calm_raft_env_def Let_def)
  have r: "[0..<3] = [0, Suc 0, 2]" by (simp add: upt_rec)
  have f: "node_id trio_node = ''n1''" "current_term trio_node = 0" "cluster_size trio_node = 3"
      "length (next_index trio_node) = 64" "length (match_index trio_node) = 64"
    by (simp_all add: trio_node_def)
  obtain ni mi where "init_leader_loop [0, 1, 2] (?n\<lparr>state := XDEVICE_NODE_LEADER\<rparr>) =
      Some (?n\<lparr>state := XDEVICE_NODE_LEADER, next_index := ni, match_index := mi\<rparr>)"
    using init_leader_loop_eq [of "[0, 1, 2]" "?n\<lparr>state := XDEVICE_NODE_LEADER\<rparr>"] f
    by (auto simp del: init_leader_loop.simps)
  then have "election_tick calm_raft_env trio_node = Some (?n\<lparr>state := XDEVICE_NODE_LEADER,
      next_index := ni, match_index := mi, last_heartbeat := 0\<rparr>)"
    using trio_due(1) trio_due(2) [of "clock calm_raft_env 0"] no f
    by (simp add: election_tick_def r del: init_leader_loop.simps vote_loop.simps)
  then show thesis by (rule that) (simp_all add: f)
qed

text \<open>A node that elects itself and so leads.\<close>

definition old_node :: "unit raft_node" where
  "old_node = the (election_tick (calm_raft_env\<lparr>clock := \<lambda>_. \<lparr>tv_s = 1700000001, tv_us = 0\<rparr>\<rparr>) fresh_node)"

lemma old_node_facts: "raft_reachable old_node" "state old_node = XDEVICE_NODE_LEADER" "node_wf old_node"
proof -
  let ?e = "calm_raft_env\<lparr>clock := \<lambda>_. \<lparr>tv_s = 1700000001, tv_us = 0\<rparr>\<rparr>"
  have due: "election_timeout fresh_node \<le> get_current_time_ms (clock ?e 0)"
    by (simp add: fresh_node_def xdevice_raft_create_node_def calm_raft_env_def reset_election_timer_def
        generate_election_timeout_def get_current_time_ms_def RAFT_ELECTION_TIMEOUT_MIN_MS_def
        RAFT_ELECTION_TIMEOUT_MAX_MS_def)
  have run: "election_tick ?e fresh_node = Some old_node" and st: "state old_node = XDEVICE_NODE_LEADER"
    using due by (simp_all add: old_node_def election_tick_def)
  show "raft_reachable old_node"
    by (rule raft_reachable.step [OF fresh_node_reachable raft_step.elect [OF _ run]]) simp
  from raft_reachable_inv [OF this] show "node_wf old_node" by (simp add: raft_inv_fields)
  show "state old_node = XDEVICE_NODE_LEADER" by (rule st)
qed

lemma old_node_append:
  obtains n' where "xdevice_raft_append_log calm_raft_env (Some old_node) (Some [1, 2]) (of_nat (length [1, 2 :: byte])) =
      Some (XDEVICE_OK, Some n')" and "raft_step old_node n'"
proof -
  have f: "log_size old_node = 0" "log_capacity old_node = 1024" "log_entries old_node = replicate 1024 None"
      "r_alloc calm_raft_env (Suc 0)"
    by (simp_all add: calm_raft_env_def old_node_def election_tick_def)
  have "mem_read [1, 2 :: byte] 0 2 = Some [1, 2]" by (simp add: mem_read_def)
  then obtain n' where a: "xdevice_raft_append_log calm_raft_env (Some old_node) (Some [1, 2])
      (of_nat (length [1, 2 :: byte])) = Some (XDEVICE_OK, Some n')"
    using f old_node_facts(2) by (simp add: xdevice_raft_append_log_def ensure_capacity_def put_at_def Let_def)
  then have "raft_step old_node n'" by (intro raft_step.append [of "[1, 2]"]) simp_all
  with a show thesis by (rule that)
qed

lemma fresh_node_wf:
  "node_wf (fresh_node\<lparr>state := st\<rparr>)" "node_wf (fresh_node\<lparr>cluster_size := 63\<rparr>)"
  by (simp_all add: node_wf_def arrays_wf_def log_wf_def raft_log_def XDEVICE_MAX_NODES_def)

text \<open>A node that joins itself and a peer to its cluster, starts and wins the election.\<close>

definition pair_node :: "unit raft_node" where
  "pair_node = fresh_node\<lparr>cluster_nodes := [peer_info ''n1'', peer_info ''n2''] @ replicate 62 zero_node_info,
     cluster_size := 2, callbacks := node_main_callbacks, running := True\<rparr>"

definition late_raft_env :: "unit raft_env" where
  "late_raft_env = calm_raft_env\<lparr>clock := \<lambda>_. \<lparr>tv_s = 1700000001, tv_us = 0\<rparr>\<rparr>"

definition pair_leader :: "unit raft_node" where
  "pair_leader = the (election_tick late_raft_env pair_node)"

lemma pair_node_reachable: "raft_reachable pair_node"
proof -
  let ?a = "fresh_node\<lparr>cluster_nodes := peer_info ''n1'' # replicate 63 zero_node_info, cluster_size := 1\<rparr>"
  let ?b = "fresh_node\<lparr>cluster_nodes := [peer_info ''n1'', peer_info ''n2''] @ replicate 62 zero_node_info,
    cluster_size := 2\<rparr>"
  have r: "replicate 64 x = x # replicate 63 x" "replicate 63 x = x # replicate 62 x" for x :: node_info
    by (simp_all add: replicate_app_Cons_same eval_nat_numeral flip: replicate_Suc)
  have "xdevice_raft_add_node_to_cluster (Some fresh_node) (Some (peer_info ''n1'')) = Some (XDEVICE_OK, Some ?a)"
    by (simp add: xdevice_raft_add_node_to_cluster_def add_node_check_def add_node_locked_def XDEVICE_MAX_NODES_def r)
  with fresh_node_reachable have "raft_reachable ?a" by (blast intro: raft_reachable.step raft_step.join)
  moreover have "xdevice_raft_add_node_to_cluster (Some ?a) (Some (peer_info ''n2'')) = Some (XDEVICE_OK, Some ?b)"
    by (simp add: xdevice_raft_add_node_to_cluster_def add_node_check_def add_node_locked_def XDEVICE_MAX_NODES_def r)
  ultimately have "raft_reachable ?b" by (blast intro: raft_reachable.step raft_step.join)
  moreover have "xdevice_raft_start_node calm_raft_env (Some ?b) (Some node_main_callbacks) = (XDEVICE_OK, Some pair_node)"
    by (simp add: xdevice_raft_start_node_def calm_raft_env_def pair_node_def)
  ultimately show ?thesis by (blast intro: raft_reachable.step raft_step.start)
qed

lemma pair_leader_facts:
  "raft_reachable pair_leader" "state pair_leader = XDEVICE_NODE_LEADER" "cluster_size pair_leader = 2"
  "node_id pair_leader = ''n1''" "last_heartbeat pair_leader = 0" "callbacks pair_leader = node_main_callbacks"
  "current_term pair_leader = 1"
proof -
  let ?n = "start_election late_raft_env pair_node"
  have no: "vote_loop late_raft_env [0, Suc 0] 1 ?n = Some (2, ?n)"
    by (simp add: pair_node_def peer_info_def at_def vote_request_def node_main_callbacks_def
        send_vote_request_def calm_raft_env_def late_raft_env_def Let_def)
  have r: "[0..<2] = [0, Suc 0]" by (simp add: upt_rec)
  have f: "node_id pair_node = ''n1''" "current_term pair_node = 0" "cluster_size pair_node = 2"
      "length (next_index pair_node) = 64" "length (match_index pair_node) = 64" "log_size pair_node = 0"
      "callbacks pair_node = node_main_callbacks" "state pair_node = XDEVICE_NODE_FOLLOWER"
    by (simp_all add: pair_node_def)
  have due: "election_timeout pair_node \<le> get_current_time_ms (clock late_raft_env 0)"
    by (simp add: pair_node_def fresh_node_def xdevice_raft_create_node_def calm_raft_env_def late_raft_env_def
        reset_election_timer_def generate_election_timeout_def get_current_time_ms_def
        RAFT_ELECTION_TIMEOUT_MIN_MS_def RAFT_ELECTION_TIMEOUT_MAX_MS_def)
  obtain ni mi where "init_leader_loop [0, Suc 0] (?n\<lparr>state := XDEVICE_NODE_LEADER\<rparr>) =
      Some (?n\<lparr>state := XDEVICE_NODE_LEADER, next_index := ni, match_index := mi\<rparr>)"
    using init_leader_loop_eq [of "[0, Suc 0]" "?n\<lparr>state := XDEVICE_NODE_LEADER\<rparr>"] f
    by (auto simp del: init_leader_loop.simps)
  then have run: "election_tick late_raft_env pair_node = Some (?n\<lparr>state := XDEVICE_NODE_LEADER,
      next_index := ni, match_index := mi, last_heartbeat := 0\<rparr>)"
    using due no f by (simp add: election_tick_def r del: init_leader_loop.simps vote_loop.simps)
  then have "election_tick late_raft_env pair_node = Some pair_leader" by (simp add: pair_leader_def)
  then show "raft_reachable pair_leader"
    using f by (intro raft_reachable.step [OF pair_node_reachable raft_step.elect]) simp_all
  show "state pair_leader = XDEVICE_NODE_LEADER" "cluster_size pair_leader = 2" "node_id pair_leader = ''n1''"
      "last_heartbeat pair_leader = 0" "callbacks pair_leader = node_main_callbacks" "current_term pair_leader = 1"
    using run f by (simp_all add: pair_leader_def)
qed

section \<open>Properties\<close>

lemma election_won:
  assumes wf: "node_wf n" and run: "election_tick e n = Some n'"
    and st: "state n \<noteq> XDEVICE_NODE_LEADER" "state n' = XDEVICE_NODE_LEADER"
  shows "unat (cluster_size n) < 2 * vote_count e n" and "voted_for n' = c_strncpy 63 (node_id n)"
proof -
  have due: "election_timeout n \<le> get_current_time_ms (clock e 0)"
    using run st by (auto simp: election_tick_def split: if_splits)
  have "unat (cluster_size n) < 2 * vote_count e n \<and> voted_for n' = c_strncpy 63 (node_id n)"
    by (cases rule: election_tick_cases [OF wf st(1) due]) (use run st(2) in auto)
  then show "unat (cluster_size n) < 2 * vote_count e n" "voted_for n' = c_strncpy 63 (node_id n)" by simp_all
qed

text \<open>Property C1.  Election safety: two nodes with the same membership list, each a member of it, that
  both become leader of the same term are the same node, provided every member casts one vote in that
  term: a granted answer means that the peer voted for the candidate that asked, and a candidate's
  own vote is the one it records in \<open>voted_for\<close>.\<close>

theorem raft_election_safety:
  assumes a: "node_wf na" "node_id na \<in> set (members na)" "distinct (members na)" "length (node_id na) \<le> 63"
    and b: "node_wf nb" "node_id nb \<in> set (members nb)" "length (node_id nb) \<le> 63"
    and same: "members na = members nb"
    and win_a: "election_tick ea na = Some na'" "state na \<noteq> XDEVICE_NODE_LEADER" "state na' = XDEVICE_NODE_LEADER"
    and win_b: "election_tick eb nb = Some nb'" "state nb \<noteq> XDEVICE_NODE_LEADER" "state nb' = XDEVICE_NODE_LEADER"
    and terms: "current_term na' = t" "current_term nb' = t"
    and vote_a: "\<And>i. granted ea (start_election ea na) i \<Longrightarrow> vote t (members na ! i) = Some (node_id na)"
    and vote_b: "\<And>i. granted eb (start_election eb nb) i \<Longrightarrow> vote t (members nb ! i) = Some (node_id nb)"
    and own: "vote t (node_id na) = Some (voted_for na')" "vote t (node_id nb) = Some (voted_for nb')"
  shows "node_id na = node_id nb"
proof -
  have "is_majority (members na) (vote_set ea na)"
    by (rule vote_set_majority [OF a(1-3) election_won(1) [OF a(1) win_a]])
  moreover have "is_majority (members na) (vote_set eb nb)"
    using vote_set_majority [OF b(1,2) _ election_won(1) [OF b(1) win_b]] a(3) same by simp
  moreover have "vote t v = Some (node_id na)" if "v \<in> vote_set ea na" for v
    using that vote_a own(1) election_won(2) [OF a(1) win_a] a(4) by (auto simp: vote_set_def)
  moreover have "vote t v = Some (node_id nb)" if "v \<in> vote_set eb nb" for v
    using that vote_b own(2) election_won(2) [OF b(1) win_b] b(3) by (auto simp: vote_set_def)
  ultimately show ?thesis by (rule majority.one_winner)
qed

theorem raft_election_safety_witness: "node_id trio_node = node_id trio_node \<and> vote_count calm_raft_env trio_node = 3"
proof -
  obtain n' where w: "election_tick calm_raft_env trio_node = Some n'" "state n' = XDEVICE_NODE_LEADER"
      "current_term n' = 1" "voted_for n' = ''n1''"
    by (rule trio_wins)
  have id: "node_id trio_node = ''n1''" by (simp add: trio_node_def)
  have "node_id trio_node = node_id trio_node"
    by (rule raft_election_safety [OF trio_wf _ _ _ trio_wf _ _ refl w(1) trio_due(1) w(2) w(1) trio_due(1) w(2) w(3) w(3),
          where vote = "\<lambda>_ _. Some ''n1''"])
       (simp_all add: id trio_members w(4))
  moreover have "vote_count calm_raft_env trio_node = 3" by (simp only: vote_count_def trio_granted) simp
  ultimately show ?thesis by simp
qed

text \<open>None of the first \<open>k\<close> members reports, to the candidate \<open>n\<close> becomes, a term ahead of its own.\<close>

definition none_before :: "'n raft_env \<Rightarrow> 'n raft_node \<Rightarrow> nat \<Rightarrow> bool" where
  "none_before e n k \<longleftrightarrow> list_all (\<lambda>i. \<not> ahead e (start_election e n) i) [0..<k]"

text \<open>Property C34.  An election that is due ends in one of three ways, and never in undefined behaviour.
  When no peer reports a term above the new one, a strict majority of the membership count, the own
  vote included, makes the node the leader of the new term with fresh tables, and without one it stays
  a candidate.  Otherwise it becomes a follower of the term that the first peer ahead of it reported,
  with its vote withdrawn.\<close>

theorem raft_election_outcome:
  assumes "node_wf n" and "state n \<noteq> XDEVICE_NODE_LEADER"
    and "election_timeout n \<le> get_current_time_ms (clock e 0)"
  shows "\<exists>n'. election_tick e n = Some n' \<and>
    (case state n' of
       XDEVICE_NODE_LEADER \<Rightarrow> unat (cluster_size n) < 2 * vote_count e n \<and>
         none_before e n (unat (cluster_size n)) \<and> current_term n' = current_term n + 1 \<and>
         list_all (\<lambda>i. next_index n' ! i = log_size n + 1 \<and> match_index n' ! i = 0)
           [0..<unat (cluster_size n)]
     | XDEVICE_NODE_CANDIDATE \<Rightarrow> \<not> unat (cluster_size n) < 2 * vote_count e n \<and>
         none_before e n (unat (cluster_size n)) \<and> current_term n' = current_term n + 1
     | XDEVICE_NODE_FOLLOWER \<Rightarrow> current_term n + 1 < current_term n' \<and> voted_for n' = [] \<and>
         list_ex (\<lambda>i. reports e (start_election e n) i (current_term n') \<and> none_before e n i)
           [0..<unat (cluster_size n)]
     | _ \<Rightarrow> False)"
  by (cases rule: election_tick_cases [OF assms]) (auto simp: list_all_iff list_ex_iff none_before_def)

theorem raft_election_outcome_witness:
  "\<exists>n'. election_tick calm_raft_env trio_node = Some n' \<and>
    (case state n' of
       XDEVICE_NODE_LEADER \<Rightarrow> unat (cluster_size trio_node) < 2 * vote_count calm_raft_env trio_node \<and>
         none_before calm_raft_env trio_node (unat (cluster_size trio_node)) \<and> current_term n' = current_term trio_node + 1 \<and>
         list_all (\<lambda>i. next_index n' ! i = log_size trio_node + 1 \<and> match_index n' ! i = 0)
           [0..<unat (cluster_size trio_node)]
     | XDEVICE_NODE_CANDIDATE \<Rightarrow> \<not> unat (cluster_size trio_node) < 2 * vote_count calm_raft_env trio_node \<and>
         none_before calm_raft_env trio_node (unat (cluster_size trio_node)) \<and> current_term n' = current_term trio_node + 1
     | XDEVICE_NODE_FOLLOWER \<Rightarrow> current_term trio_node + 1 < current_term n' \<and> voted_for n' = [] \<and>
         list_ex (\<lambda>i. reports calm_raft_env (start_election calm_raft_env trio_node) i (current_term n') \<and> none_before calm_raft_env trio_node i)
           [0..<unat (cluster_size trio_node)]
     | _ \<Rightarrow> False)"
  by (rule raft_election_outcome [OF trio_wf trio_due])

text \<open>Property C8.  In every reachable node the entries of the log are numbered from one without gaps,
  their terms never decrease and do not exceed the current term.\<close>

theorem raft_log_consistent:
  assumes "raft_reachable n"
  shows "map e_index (raft_log n) = map (\<lambda>i. of_nat (Suc i)) [0..<length (raft_log n)] \<and>
    sorted (map e_term (raft_log n) @ [current_term n])"
  using raft_reachable_inv [OF assms] length_raft_log [of n]
  by (auto simp: raft_inv_def node_wf_def log_wf_def sorted_append)

theorem raft_log_consistent_witness:
  "\<exists>n'. xdevice_raft_append_log calm_raft_env (Some old_node) (Some [1, 2]) (of_nat (length [1, 2 :: byte])) =
      Some (XDEVICE_OK, Some n') \<and>
    map e_index (raft_log n') = map (\<lambda>i. of_nat (Suc i)) [0..<length (raft_log n')] \<and>
    sorted (map e_term (raft_log n') @ [current_term n'])"
proof -
  obtain n' where n': "xdevice_raft_append_log calm_raft_env (Some old_node) (Some [1, 2])
      (of_nat (length [1, 2 :: byte])) = Some (XDEVICE_OK, Some n')" "raft_step old_node n'"
    by (rule old_node_append)
  from raft_log_consistent [OF raft_reachable.step [OF old_node_facts(1) n'(2)]] n'(1) show ?thesis by blast
qed

text \<open>Property C9.  In every reachable node a pass of the election thread is free of undefined behaviour,
  whatever the peers answer, and so is a pass of the heartbeat thread as long as the node is settled:
  it does not lead, or no next index of its members is zero.  Every step, except that a member joins
  while the node leads, keeps a node settled.  No pass lowers the term.\<close>

theorem raft_threads_safe:
  assumes "raft_reachable n" and "current_term n \<noteq> 0xFFFFFFFFFFFFFFFF"
  shows "(\<exists>n'. election_tick e n = Some n' \<and> current_term n \<le> current_term n') \<and>
    (settled n \<longrightarrow> heartbeat_tick e n \<noteq> None) \<and>
    (\<forall>n'. heartbeat_tick e n = Some n' \<longrightarrow> current_term n \<le> current_term n') \<and>
    (\<forall>n'. raft_step n n' \<and> settled n \<and> (cluster_size n' = cluster_size n \<or> state n \<noteq> XDEVICE_NODE_LEADER) \<longrightarrow>
       settled n')"
proof (intro conjI)
  have inv: "raft_inv n" by (rule raft_reachable_inv [OF assms(1)])
  show "\<exists>n'. election_tick e n = Some n' \<and> current_term n \<le> current_term n'"
  proof (cases "state n = XDEVICE_NODE_LEADER")
    case True
    then show ?thesis by (simp add: election_tick_def)
  next
    case False
    with inv have "raft_ok n" by (simp add: settled_ok follower_settled)
    from election_tick_ok [OF this assms(2), of e] show ?thesis by metis
  qed
  show "settled n \<longrightarrow> heartbeat_tick e n \<noteq> None"
    using heartbeat_tick_ok [OF settled_ok [OF inv], of e] by (metis option.distinct(1))
  show "\<forall>n'. heartbeat_tick e n = Some n' \<longrightarrow> current_term n \<le> current_term n'"
    using heartbeat_tick_inv [OF inv, of e] by blast
  show "\<forall>n'. raft_step n n' \<and> settled n \<and> (cluster_size n' = cluster_size n \<or> state n \<noteq> XDEVICE_NODE_LEADER) \<longrightarrow>
      settled n'"
    using raft_step_inv [OF _ inv] by blast
qed

theorem raft_threads_safe_witness:
  "(\<exists>n'. election_tick calm_raft_env old_node = Some n' \<and> current_term old_node \<le> current_term n') \<and>
   (\<exists>n'. heartbeat_tick calm_raft_env old_node = Some n' \<and> current_term old_node \<le> current_term n')"
proof -
  have "settled old_node" "current_term old_node \<noteq> 0xFFFFFFFFFFFFFFFF"
    by (simp_all add: settled_def old_node_def election_tick_def calm_raft_env_def)
  then show ?thesis using raft_threads_safe [OF old_node_facts(1), of calm_raft_env] by blast
qed

text \<open>Property C35.  Appending a non-empty entry: a node that does not lead refuses and is unchanged; a
  leader adds exactly one entry, with its term, the next index and a copy of the data, or reports that
  memory ran out and keeps its log.\<close>

theorem raft_append_refines:
  assumes "node_wf n" and "d \<noteq> []" and "length d < 2 ^ 64"
  shows "\<exists>ret n'. xdevice_raft_append_log e (Some n) (Some d) (of_nat (length d)) = Some (ret, Some n') \<and>
    node_wf n' \<and>
    (if state n \<noteq> XDEVICE_NODE_LEADER then ret = XDEVICE_ERROR_PERMISSION \<and> n' = n
     else ret = XDEVICE_OK \<and> raft_log n' = raft_log n @ [new_entry n d] \<or>
          ret = XDEVICE_ERROR_OUT_OF_MEMORY \<and> raft_log n' = raft_log n)"
proof -
  have shape: "\<exists>n'. xdevice_raft_append_log e (Some n) (Some d) (of_nat (length d)) = Some (ret, Some n') \<and> n' = v"
    if "raft_app n (e, d) = Some (ret, v)" for ret v
    using that by (auto simp: raft_app_def bind_eq_Some_conv)
  show ?thesis
    by (cases rule: raft_append_cases [OF assms(1,3), of e])
       (use assms in \<open>auto dest!: shape\<close>)
qed

theorem raft_append_refines_witness:
  "\<exists>ret n'. xdevice_raft_append_log calm_raft_env (Some (trio_node\<lparr>state := XDEVICE_NODE_LEADER\<rparr>)) (Some [1, 2])
      (of_nat (length [1, 2 :: byte])) = Some (ret, Some n') \<and>
    node_wf n' \<and>
    (if state (trio_node\<lparr>state := XDEVICE_NODE_LEADER\<rparr>) \<noteq> XDEVICE_NODE_LEADER
     then ret = XDEVICE_ERROR_PERMISSION \<and> n' = trio_node\<lparr>state := XDEVICE_NODE_LEADER\<rparr>
     else ret = XDEVICE_OK \<and> raft_log n' = raft_log (trio_node\<lparr>state := XDEVICE_NODE_LEADER\<rparr>) @
            [new_entry (trio_node\<lparr>state := XDEVICE_NODE_LEADER\<rparr>) [1, 2]] \<or>
          ret = XDEVICE_ERROR_OUT_OF_MEMORY \<and> raft_log n' = raft_log (trio_node\<lparr>state := XDEVICE_NODE_LEADER\<rparr>))"
  by (rule raft_append_refines)
     (use trio_wf in \<open>simp_all add: node_wf_def arrays_wf_def log_wf_def raft_log_def\<close>)

text \<open>What the member with index \<open>i\<close> answers to the request to append; none of the members answers
  with a term above that of \<open>n\<close>.\<close>

definition append_answer ::
  "'n raft_env \<Rightarrow> 'n raft_node \<Rightarrow> nat \<Rightarrow> raft_append_request \<Rightarrow> (xdevice_error \<times> raft_append_response) option" where
  "append_answer e n i req = do {
     peer \<leftarrow> at (cluster_nodes n) i;
     f \<leftarrow> send_append_entries_fn (callbacks n);
     Some (f (net e i) (ni_node_id peer) req (junk_append e i)) }"

definition no_newer_term :: "'n raft_env \<Rightarrow> 'n raft_node \<Rightarrow> nat \<Rightarrow> bool" where
  "no_newer_term e n c \<longleftrightarrow> (\<forall>i < c. \<forall>req resp.
     append_answer e n i req = Some (XDEVICE_OK, resp) \<longrightarrow> ar_term resp \<le> current_term n)"

lemma append_request_wraps:
  assumes "arrays_wf n" and "log_wf n" and "c < XDEVICE_MAX_NODES" and "next_index n ! c = 0"
  shows "append_request n c = None"
proof -
  have len: "length (log_entries n) < 2 ^ 58" "c < length (next_index n)"
    using assms by (simp_all add: log_wf_def arrays_wf_def)
  have "unat (- 1 - 1 :: u64) = unat (- 1 :: u64) - 1" by (rule unat_minus_one) simp
  then have "unat (- 2 :: u64) = 18446744073709551614" by (simp add: unsigned_minus_1_eq_mask mask_eq_exp_minus_1)
  then have "entry_term n (unat (- 2 :: u64)) = None" using len(1) by (simp add: entry_term_def at_def)
  then show ?thesis using len(2) assms(4) by (simp add: append_request_def at_def Let_def word_gt_0)
qed

lemma heartbeat_loop_wraps:
  assumes c: "c < XDEVICE_MAX_NODES"
  shows "set is \<subseteq> {..<c} \<Longrightarrow> arrays_wf n \<Longrightarrow> log_wf n \<Longrightarrow> next_index n ! c = 0 \<Longrightarrow>
    ni_node_id (cluster_nodes n ! c) \<noteq> node_id n \<Longrightarrow> no_newer_term e n c \<Longrightarrow> heartbeat_loop e (is @ [c]) n = None"
proof (induction "is" arbitrary: n)
  case Nil
  then show ?case using append_request_wraps [OF Nil.prems(2,3) c] c by (simp add: at_def)
next
  case (Cons i "is")
  have i: "i < c" using Cons.prems(1) by simp
  then have peer: "at (cluster_nodes n) i = Some (cluster_nodes n ! i)"
    using Cons.prems(2) c by (simp add: arrays_wf_def)
  have self: "heartbeat_loop e (is @ [c]) n = None" using Cons.IH [of n] Cons.prems by simp
  show ?case
  proof (cases "ni_node_id (cluster_nodes n ! i) = node_id n \<or> append_request n i = None \<or>
      send_append_entries_fn (callbacks n) = None")
    case True
    with peer self show ?thesis by (auto simp: bind_eq_None_conv split: option.splits)
  next
    case False
    then obtain req f where req: "append_request n i = Some req" and f: "send_append_entries_fn (callbacks n) = Some f"
        and other: "ni_node_id (cluster_nodes n ! i) \<noteq> node_id n"
      by auto
    obtain ret resp where r: "f (net e i) (ni_node_id (cluster_nodes n ! i)) req (junk_append e i) = (ret, resp)"
      by fastforce
    have "append_answer e n i req = Some (ret, resp)" using peer f r by (simp add: append_answer_def)
    then have low: "ret = XDEVICE_OK \<Longrightarrow> \<not> current_term n < ar_term resp"
      using Cons.prems(6) i by (auto simp: no_newer_term_def not_less)
    have rest: "heartbeat_loop e (is @ [c]) m = None" if m: "handle_append_response i req resp n = Some m" for m
    proof -
      obtain mi y where eq: "m = n\<lparr>match_index := mi, next_index := (next_index n)[i := y]\<rparr>"
          "length mi = length (match_index n)" "y \<le> next_index n ! i" "y = 0 \<longleftrightarrow> next_index n ! i = 0"
        by (rule handle_append_response_effect [OF req m])
      have "no_newer_term e m c"
        using Cons.prems(6) by (simp add: eq(1) no_newer_term_def append_answer_def)
      moreover have "arrays_wf m" "next_index m ! c = 0" using Cons.prems i eq(2) by (simp_all add: eq(1) arrays_wf_def)
      moreover have "log_wf m" by (rule log_wf_term [OF Cons.prems(3)]) (simp_all add: eq(1))
      ultimately show ?thesis using Cons.IH [of m] Cons.prems by (simp add: eq(1))
    qed
    show ?thesis
      using peer self req f other r low rest
      by (cases "handle_append_response i req resp n") (auto simp: bind_eq_None_conv)
  qed
qed

text \<open>Property C40.  A member that joins while a node leads makes the next heartbeat undefined, in every
  reachable leader with room for it: the entry of \<open>next_index\<close> for the new member is still zero, so
  that the previous index wraps around and the lookup of its term leaves the array.  Only an answer
  with a newer term, which ends the round before the new member is served, avoids it.\<close>

theorem heartbeat_after_join_undefined:
  assumes "raft_reachable n" and "state n = XDEVICE_NODE_LEADER" and "unat (cluster_size n) < XDEVICE_MAX_NODES"
    and "ni_node_id v \<noteq> node_id n" and "no_newer_term e n (unat (cluster_size n))"
    and "RAFT_HEARTBEAT_INTERVAL_MS \<le> get_current_time_ms (clock e 0) - last_heartbeat n"
  shows "\<exists>n'. xdevice_raft_add_node_to_cluster (Some n) (Some v) = Some (XDEVICE_OK, Some n') \<and>
    heartbeat_tick e n' = None"
proof -
  let ?c = "unat (cluster_size n)"
  let ?n = "n\<lparr>cluster_nodes := (cluster_nodes n)[?c := v], cluster_size := cluster_size n + 1\<rparr>"
  have inv: "raft_inv n" by (rule raft_reachable_inv [OF assms(1)])
  then have arr: "length (cluster_nodes n) = XDEVICE_MAX_NODES" by (simp add: raft_inv_def node_wf_def arrays_wf_def)
  then have join: "xdevice_raft_add_node_to_cluster (Some n) (Some v) = Some (XDEVICE_OK, Some ?n)"
    using assms(3) by (simp add: xdevice_raft_add_node_to_cluster_def add_node_check_def add_node_locked_def)
  have inv': "log_wf ?n" "arrays_wf ?n" using join_inv [OF inv join] by (simp_all add: raft_inv_def node_wf_def)
  have c: "unat (cluster_size n + 1) = Suc ?c"
    by (rule unat_Suc_no_wrap) (use assms(3) in \<open>simp add: XDEVICE_MAX_NODES_def\<close>)
  have "next_index ?n ! ?c = 0" using inv assms(3) by (simp add: raft_inv_def index_ok_def)
  moreover have "ni_node_id (cluster_nodes ?n ! ?c) \<noteq> node_id ?n" using assms(3,4) arr by simp
  moreover have "no_newer_term e ?n ?c"
    using assms(5) by (auto simp: no_newer_term_def append_answer_def at_def split: if_splits)
  ultimately have "heartbeat_loop e ([0..<?c] @ [?c]) ?n = None"
    using inv' assms(3) by (intro heartbeat_loop_wraps) auto
  then have "heartbeat_tick e ?n = None" using assms(2,6) c by (simp add: heartbeat_tick_def)
  with join show ?thesis by blast
qed

theorem heartbeat_after_join_undefined_witness:
  "\<exists>n'. xdevice_raft_add_node_to_cluster (Some pair_leader) (Some (peer_info ''n3'')) =
      Some (XDEVICE_OK, Some n') \<and> heartbeat_tick calm_raft_env n' = None"
  by (rule heartbeat_after_join_undefined)
     (simp_all add: pair_leader_facts peer_info_def RAFT_HEARTBEAT_INTERVAL_MS_def get_current_time_ms_def
       no_newer_term_def append_answer_def send_append_entries_def XDEVICE_MAX_NODES_def bind_eq_Some_conv
       node_main_callbacks_def calm_raft_env_def)

text \<open>Fact.  The capacity test of a membership change is made before the lock is taken: with one
  place left, two callers can both pass it, and the second one then writes behind the array.\<close>

theorem add_node_race:
  assumes "node_wf n" and "unat (cluster_size n) = XDEVICE_MAX_NODES - 1"
  shows "add_node_check n \<and> (\<exists>n'. add_node_locked v n = Some n' \<and> add_node_locked w n' = None)"
proof -
  have "length (cluster_nodes n) = 64" "unat (cluster_size n) = 63"
    using assms by (simp_all add: node_wf_def arrays_wf_def XDEVICE_MAX_NODES_def)
  moreover from this have "unat (cluster_size n + 1) = 64" by (subst unat_Suc_no_wrap) simp_all
  ultimately show ?thesis by (simp add: add_node_check_def add_node_locked_def put_at_def XDEVICE_MAX_NODES_def)
qed

theorem add_node_race_witness:
  "add_node_check (fresh_node\<lparr>cluster_size := 63\<rparr>) \<and>
   (\<exists>n'. add_node_locked (peer_info ''a'') (fresh_node\<lparr>cluster_size := 63\<rparr>) = Some n' \<and>
      add_node_locked (peer_info ''b'') n' = None)"
  by (rule add_node_race) (simp_all add: fresh_node_wf XDEVICE_MAX_NODES_def)

text \<open>Fact.  With the callbacks the node program installs, the outcome of an election is decided by
  indeterminate memory: the stub reports success without writing the answer, and the vote of a peer
  counts exactly when the bytes on the stack happen to say so.\<close>

theorem stub_votes_are_junk:
  assumes "node_wf n" and "callbacks n = node_main_callbacks" and "i < unat (cluster_size n)"
    and "members n ! i \<noteq> node_id n"
  shows "granted e (start_election e n) i \<longleftrightarrow> vr_granted (junk_vote e i)"
proof -
  let ?n = "start_election e n"
  have len: "i < length (cluster_nodes n)" using assms(1,3) by (simp add: node_wf_def arrays_wf_def)
  obtain req where "vote_request ?n = Some req"
    using assms(1) vote_request_start [of n e] by (auto simp: node_wf_def)
  moreover have "ni_node_id (cluster_nodes n ! i) \<noteq> node_id n" using assms(3,4) len by (simp add: members_def)
  ultimately show ?thesis
    using len assms(2) by (simp add: granted_def at_def node_main_callbacks_def send_vote_request_def)
qed

theorem stub_votes_are_junk_witness:
  "granted calm_raft_env (start_election calm_raft_env trio_node) 1 \<longleftrightarrow> vr_granted (junk_vote calm_raft_env 1)"
  by (rule stub_votes_are_junk [OF trio_wf]) (simp_all add: trio_members, simp_all add: trio_node_def)

end
