(* ===== verification/XD_RaftRun.thy ===== *)
theory XD_RaftRun
  imports XD_Raft
begin

text \<open>
  Runs of the two threads of a Raft node: a schedule says whose pass is next, and every pass has its own
  environment (clock, random numbers, answers of the peers).  The theory shows that elections make
  progress: once the peers answer, an expired timer is enough for the node to become leader.
\<close>

section \<open>Runs\<close>

text \<open>The loops of \<open>election_thread_func\<close> and \<open>heartbeat_thread_func\<close> of one node, as they take the lock in
  turn: \<open>turn k\<close> holds when the \<open>k\<close>-th pass is one of the election thread.\<close>

fun raft_run :: "(nat \<Rightarrow> 'n raft_env) \<Rightarrow> (nat \<Rightarrow> bool) \<Rightarrow> nat \<Rightarrow> 'n raft_node \<Rightarrow> 'n raft_node option" where
  "raft_run es turn 0 n = Some n"
| "raft_run es turn (Suc k) n = do {
     m \<leftarrow> raft_run es turn k n;
     (if turn k then election_tick (es k) m else heartbeat_tick (es k) m) }"

text \<open>What the peer with index \<open>i\<close> answers to a request for its vote.\<close>

definition peer_answer ::
  "'n raft_env \<Rightarrow> 'n raft_node \<Rightarrow> nat \<Rightarrow> raft_vote_request \<Rightarrow> (xdevice_error \<times> raft_vote_response) option" where
  "peer_answer e n i req = do {
     peer \<leftarrow> at (cluster_nodes n) i;
     f \<leftarrow> send_vote_request_fn (callbacks n);
     Some (f (net e i) (ni_node_id peer) req (junk_vote e i)) }"

definition supports :: "'n raft_env \<Rightarrow> 'n raft_node \<Rightarrow> nat \<Rightarrow> bool" where
  "supports e n i \<longleftrightarrow> ni_node_id (cluster_nodes n ! i) \<noteq> node_id n \<and>
     (\<forall>req. \<exists>resp. peer_answer e n i req = Some (XDEVICE_OK, resp) \<and> vr_granted resp)"

definition not_ahead :: "'n raft_env \<Rightarrow> 'n raft_node \<Rightarrow> nat \<Rightarrow> bool" where
  "not_ahead e n i \<longleftrightarrow>
     (\<forall>req resp. peer_answer e n i req = Some (XDEVICE_OK, resp) \<longrightarrow> vr_term resp \<le> vq_term req)"

text \<open>The peers let the node win: with its own vote those that grant theirs are a majority, and none
  reports a term above the one it is asked for.\<close>

definition peers_support :: "'n raft_env \<Rightarrow> 'n raft_node \<Rightarrow> bool" where
  "peers_support e n \<longleftrightarrow>
     unat (cluster_size n) < 2 * Suc (length (filter (supports e n) [0..<unat (cluster_size n)])) \<and>
     (\<forall>i < unat (cluster_size n). not_ahead e n i)"

text \<open>What neither thread changes.\<close>

definition same_peers :: "'n raft_node \<Rightarrow> 'n raft_node \<Rightarrow> bool" where
  "same_peers n m \<longleftrightarrow> cluster_nodes m = cluster_nodes n \<and> cluster_size m = cluster_size n \<and>
     callbacks m = callbacks n \<and> node_id m = node_id n"

lemma peers_support_cong:
  assumes "same_peers n m"
  shows "peers_support e m = peers_support e n"
proof -
  have "peer_answer e m = peer_answer e n" using assms by (simp add: fun_eq_iff peer_answer_def same_peers_def)
  then have "supports e m = supports e n" "not_ahead e m = not_ahead e n"
    using assms by (simp_all add: fun_eq_iff supports_def not_ahead_def same_peers_def)
  with assms show ?thesis by (simp add: peers_support_def same_peers_def)
qed

lemma same_peers_trans: "same_peers a b \<Longrightarrow> same_peers b c \<Longrightarrow> same_peers a c"
  by (simp add: same_peers_def)

lemma step_down_callbacks [simp]: "callbacks (step_down e k t n) = callbacks n"
  by (simp add: step_down_def reset_election_timer_def)

section \<open>One election with supporting peers\<close>

lemma vote_loop_stays:
  "vote_loop e is v n = Some (v', n') \<Longrightarrow> \<forall>i \<in> set is. not_ahead e n i \<Longrightarrow> n' = n"
proof (induction "is" arbitrary: v)
  case Nil
  then show ?case by simp
next
  case (Cons i "is")
  have IH: "vote_loop e is w n = Some (v', n') \<Longrightarrow> n' = n" for w using Cons.IH Cons.prems(2) by simp
  obtain peer where peer: "at (cluster_nodes n) i = Some peer"
    using Cons.prems(1) by (auto simp: bind_eq_Some_conv simp del: at_Some_iff)
  show ?case
  proof (cases "ni_node_id peer = node_id n \<or> send_vote_request_fn (callbacks n) = None")
    case True
    with Cons.prems(1) peer IH show ?thesis
      by (auto simp: bind_eq_Some_conv simp del: at_Some_iff split: if_splits)
  next
    case False
    then obtain f where f: "send_vote_request_fn (callbacks n) = Some f" and other: "ni_node_id peer \<noteq> node_id n"
      by auto
    obtain req where req: "vote_request n = Some req"
      using Cons.prems(1) peer other by (auto simp: bind_eq_Some_conv simp del: at_Some_iff)
    then have t: "vq_term req = current_term n" by (auto simp: vote_request_def bind_eq_Some_conv)
    obtain ret resp where ans: "f (net e i) (ni_node_id peer) req (junk_vote e i) = (ret, resp)" by fastforce
    have "peer_answer e n i req = Some (ret, resp)" using peer f ans by (simp add: peer_answer_def del: at_Some_iff)
    then have "ret = XDEVICE_OK \<Longrightarrow> vr_term resp \<le> current_term n"
      using Cons.prems(2) t unfolding not_ahead_def by (metis list.set_intros(1))
    then have "\<not> (ret = XDEVICE_OK \<and> vr_term resp > current_term n)" by auto
    with Cons.prems(1) peer other f req ans IH show ?thesis
      by (auto simp: Let_def simp del: at_Some_iff split: if_splits)
  qed
qed

lemma supports_granted:
  assumes "log_wf n" and "supports e n i"
  shows "granted e (start_election e n) i"
proof -
  obtain req where req: "vote_request (start_election e n) = Some req" using vote_request_start [OF assms(1)] by blast
  obtain resp where "peer_answer e n i req = Some (XDEVICE_OK, resp)" "vr_granted resp"
    using assms(2) by (auto simp: supports_def)
  with req assms(2) show ?thesis by (auto simp: granted_def supports_def peer_answer_def bind_eq_Some_conv)
qed

lemma length_filter_mono:
  assumes "\<And>x. P x \<Longrightarrow> Q x"
  shows "length (filter P xs) \<le> length (filter Q xs)"
  by (induction xs) (auto simp: assms le_SucI)

lemma supported_election:
  assumes wf: "node_wf n" and due: "state n \<noteq> XDEVICE_NODE_LEADER"
      "election_timeout n \<le> get_current_time_ms (clock e 0)" and sup: "peers_support e n"
  shows "\<exists>n'. election_tick e n = Some n' \<and> state n' = XDEVICE_NODE_LEADER"
proof (cases rule: election_tick_cases [OF wf due], goal_cases won lost outdated)
  case (won ni mi)
  then show ?case by simp
next
  case lost
  have "length (filter (supports e n) [0..<unat (cluster_size n)])
      \<le> length (filter (granted e (start_election e n)) [0..<unat (cluster_size n)])"
    by (intro length_filter_mono supports_granted) (use wf in \<open>simp_all add: node_wf_def\<close>)
  then have "unat (cluster_size n) < 2 * vote_count e n"
    using sup by (simp add: peers_support_def vote_count_def)
  with lost show ?case by simp
next
  case (outdated t i)
  let ?is = "[0..<unat (cluster_size n)]"
  define m where "m = step_down e 2 t (start_election e n)"
  have m: "election_tick e n = Some m" "state m = XDEVICE_NODE_FOLLOWER" using outdated(1) by (simp_all add: m_def)
  obtain v' n' where run: "vote_loop e ?is 1 (start_election e n) = Some (v', n')"
    using m(1) due by (auto simp: election_tick_def bind_eq_Some_conv)
  have "\<forall>i \<in> set ?is. not_ahead e (start_election e n) i"
    using sup by (simp add: peers_support_def not_ahead_def peer_answer_def)
  from vote_loop_stays [OF run this] have n': "n' = start_election e n" .
  obtain ni mi where "init_leader_loop ?is ((start_election e n)\<lparr>state := XDEVICE_NODE_LEADER\<rparr>) =
      Some ((start_election e n)\<lparr>state := XDEVICE_NODE_LEADER, next_index := ni, match_index := mi\<rparr>)"
    using init_leader_loop_eq [of ?is "(start_election e n)\<lparr>state := XDEVICE_NODE_LEADER\<rparr>"] wf
    by (auto simp: node_wf_def arrays_wf_def atLeast_upt)
  with run n' m(1) due have "state m \<noteq> XDEVICE_NODE_FOLLOWER"
    by (auto simp: election_tick_def split: if_splits)
  with m(2) show ?case by simp
qed

section \<open>Waiting for the timer\<close>

definition clocks_below :: "'n raft_env \<Rightarrow> u64 \<Rightarrow> bool" where
  "clocks_below e t \<longleftrightarrow> (\<forall>i. get_current_time_ms (clock e i) \<le> t)"

text \<open>A node that does not lead and whose timer was set before the time \<open>t\<close>.\<close>

definition waiting :: "'n raft_node \<Rightarrow> u64 \<Rightarrow> 'n raft_node \<Rightarrow> bool" where
  "waiting n t m \<longleftrightarrow> raft_ok m \<and> same_peers n m \<and> state m \<noteq> XDEVICE_NODE_LEADER \<and>
     election_timeout m \<le> t + of_nat RAFT_ELECTION_TIMEOUT_MAX_MS"

lemma election_timeout_bounds:
  "RAFT_ELECTION_TIMEOUT_MIN_MS \<le> unat (generate_election_timeout r)"
  "unat (generate_election_timeout r) < RAFT_ELECTION_TIMEOUT_MAX_MS"
proof -
  have "r mod 150 < 150" by simp
  then have "(150 + r mod 150) mod 2 ^ 64 = 150 + r mod 150" by (intro mod_less) simp
  then have "unat (generate_election_timeout r) = 150 + r mod 150"
    by (simp add: generate_election_timeout_def RAFT_ELECTION_TIMEOUT_MIN_MS_def RAFT_ELECTION_TIMEOUT_MAX_MS_def
        unat_of_nat del: of_nat_add)
  with \<open>r mod 150 < 150\<close> show "RAFT_ELECTION_TIMEOUT_MIN_MS \<le> unat (generate_election_timeout r)"
      "unat (generate_election_timeout r) < RAFT_ELECTION_TIMEOUT_MAX_MS"
    by (simp_all add: RAFT_ELECTION_TIMEOUT_MIN_MS_def RAFT_ELECTION_TIMEOUT_MAX_MS_def)
qed

lemma reset_timer_below:
  assumes "get_current_time_ms tv \<le> t" and "unat t + RAFT_ELECTION_TIMEOUT_MAX_MS < 2 ^ 64"
  shows "get_current_time_ms tv + generate_election_timeout r \<le> t + of_nat RAFT_ELECTION_TIMEOUT_MAX_MS"
proof -
  have "unat (get_current_time_ms tv) \<le> unat t" using assms(1) by (simp add: word_le_nat_alt)
  then show ?thesis
    using assms(2) election_timeout_bounds(2) [of r]
    by (simp add: word_le_nat_alt unat_word_ariths RAFT_ELECTION_TIMEOUT_MAX_MS_def)
qed

lemma waiting_step:
  assumes w: "waiting n t m" and t: "unat t + RAFT_ELECTION_TIMEOUT_MAX_MS < 2 ^ 64"
    and max: "current_term m \<noteq> 0xFFFFFFFFFFFFFFFF"
    and e: "clocks_below e t \<or> peers_support e n"
  shows "\<exists>m'. (if b then election_tick e m else heartbeat_tick e m) = Some m' \<and>
    (state m' = XDEVICE_NODE_LEADER \<or> waiting n t m')"
proof (cases "b \<and> election_timeout m \<le> get_current_time_ms (clock e 0)")
  case False
  then have "(if b then election_tick e m else heartbeat_tick e m) = Some m"
    using w by (auto simp: election_tick_def heartbeat_tick_def waiting_def)
  with w show ?thesis by simp
next
  case due: True
  have wf: "node_wf m" and st: "state m \<noteq> XDEVICE_NODE_LEADER" and same: "same_peers n m"
    using w by (simp_all add: waiting_def raft_ok_def)
  obtain m' where m': "election_tick e m = Some m'" and ok: "raft_ok m'"
    using election_tick_ok [of m e] w max by (auto simp: waiting_def)
  have "state m' = XDEVICE_NODE_LEADER \<or> waiting n t m'"
  proof (cases "peers_support e n")
    case True
    with supported_election [OF wf st, of e] due m' same show ?thesis by (simp add: peers_support_cong)
  next
    case False
    then have "clocks_below e t" using e by simp
    then have timer: "election_timeout (start_election e m) \<le> t + of_nat RAFT_ELECTION_TIMEOUT_MAX_MS"
        "election_timeout (step_down e 2 u (start_election e m)) \<le> t + of_nat RAFT_ELECTION_TIMEOUT_MAX_MS" for u
      using t by (simp_all add: start_election_def step_down_def reset_election_timer_def clocks_below_def
          reset_timer_below)
    show ?thesis
      by (cases rule: election_tick_cases [OF wf st due [THEN conjunct2]])
         (use m' ok timer same in \<open>auto simp: waiting_def same_peers_def\<close>)
  qed
  with m' due show ?thesis by auto
qed

lemma waiting_run:
  assumes start: "waiting n t n" and t: "unat t + RAFT_ELECTION_TIMEOUT_MAX_MS < 2 ^ 64"
    and envs: "\<And>j. j < k \<Longrightarrow> clocks_below (es j) t \<or> peers_support (es j) n"
    and terms: "\<And>j m. j < k \<Longrightarrow> raft_run es turn j n = Some m \<Longrightarrow> current_term m \<noteq> 0xFFFFFFFFFFFFFFFF"
  shows "(\<exists>j \<le> k. \<exists>m. raft_run es turn j n = Some m \<and> state m = XDEVICE_NODE_LEADER) \<or>
    (\<exists>m. raft_run es turn k n = Some m \<and> waiting n t m)"
  using envs terms
proof (induction k)
  case 0
  with start show ?case by simp
next
  case (Suc k)
  then consider j m where "j \<le> k" "raft_run es turn j n = Some m" "state m = XDEVICE_NODE_LEADER"
    | m where "raft_run es turn k n = Some m" "waiting n t m"
    by (metis less_SucI)
  then show ?case
  proof cases
    case 1
    then show ?thesis by (meson le_SucI)
  next
    case (2 m)
    then have "current_term m \<noteq> 0xFFFFFFFFFFFFFFFF" using Suc.prems(2) by blast
    from waiting_step [OF 2(2) t this, of "es k" "turn k"] Suc.prems(1) [of k]
    obtain m' where "(if turn k then election_tick (es k) m else heartbeat_tick (es k) m) = Some m'"
        "state m' = XDEVICE_NODE_LEADER \<or> waiting n t m'"
      by auto
    with 2(1) have "raft_run es turn (Suc k) n = Some m'" "state m' = XDEVICE_NODE_LEADER \<or> waiting n t m'" by simp_all
    then show ?thesis by blast
  qed
qed

section \<open>Progress\<close>

text \<open>Property C13.  Elections make progress: if from pass \<open>h\<close> on a majority of the peers grants its vote and
  none is ahead, then the first pass of the election thread whose clock is 300 milliseconds past
  everything the clocks showed before pass \<open>h\<close> finds a leader, whatever the peers answered until then
  and however the heartbeat thread interleaves, as long as the terms do not run out.\<close>

theorem raft_election_progress:
  assumes node: "raft_ok n" "state n \<noteq> XDEVICE_NODE_LEADER"
      "election_timeout n \<le> t + of_nat RAFT_ELECTION_TIMEOUT_MAX_MS"
    and t: "unat t + RAFT_ELECTION_TIMEOUT_MAX_MS < 2 ^ 64"
    and before: "\<And>j. j < h \<Longrightarrow> clocks_below (es j) t"
    and healed: "\<And>j. h \<le> j \<Longrightarrow> peers_support (es j) n"
    and later: "h \<le> k" "turn k" "t + of_nat RAFT_ELECTION_TIMEOUT_MAX_MS \<le> get_current_time_ms (clock (es k) 0)"
    and terms: "\<And>j m. j \<le> k \<Longrightarrow> raft_run es turn j n = Some m \<Longrightarrow> current_term m \<noteq> 0xFFFFFFFFFFFFFFFF"
  shows "\<exists>j m. j \<le> Suc k \<and> raft_run es turn j n = Some m \<and> state m = XDEVICE_NODE_LEADER"
proof -
  have "waiting n t n" using node by (simp add: waiting_def same_peers_def)
  moreover have "clocks_below (es j) t \<or> peers_support (es j) n" for j
    using before [of j] healed [of j] by (cases "j < h") simp_all
  moreover have "current_term m \<noteq> 0xFFFFFFFFFFFFFFFF" if "j < k" "raft_run es turn j n = Some m" for j m
    using terms [of j m] that by simp
  ultimately consider j m where "j \<le> k" "raft_run es turn j n = Some m" "state m = XDEVICE_NODE_LEADER"
    | m where "raft_run es turn k n = Some m" "waiting n t m"
    using waiting_run [OF _ t, where n = n and k = k and es = es and turn = turn] by blast
  then show ?thesis
  proof cases
    case 1
    then show ?thesis by (meson le_SucI)
  next
    case (2 m)
    then have "node_wf m" "state m \<noteq> XDEVICE_NODE_LEADER" "peers_support (es k) m"
        "election_timeout m \<le> get_current_time_ms (clock (es k) 0)"
      using healed [OF later(1)] later(3) by (auto simp: waiting_def raft_ok_def peers_support_cong)
    then obtain m' where "election_tick (es k) m = Some m'" "state m' = XDEVICE_NODE_LEADER"
      using supported_election by blast
    with 2(1) later(2) have "raft_run es turn (Suc k) n = Some m'" "state m' = XDEVICE_NODE_LEADER" by simp_all
    then show ?thesis by blast
  qed
qed

lemma trio_supported: "peers_support calm_raft_env trio_node"
proof -
  have r: "[0..<3] = [0, Suc 0, 2]" by (simp add: upt_rec)
  have c: "cluster_size trio_node = 3" "node_id trio_node = ''n1''" by (simp_all add: trio_node_def)
  have a: "peer_answer calm_raft_env trio_node i req = Some (XDEVICE_OK, \<lparr>vr_term = 0, vr_granted = True\<rparr>)"
    if "i < 64" for i req
    using that by (simp add: peer_answer_def trio_node_def at_def node_main_callbacks_def send_vote_request_def
        calm_raft_env_def)
  have "supports calm_raft_env trio_node (Suc 0)" "supports calm_raft_env trio_node 2"
    using a by (simp_all add: supports_def trio_node_def peer_info_def)
  then have "2 \<le> length (filter (supports calm_raft_env trio_node) [0..<3])" by (simp add: r)
  with c a show ?thesis by (auto simp: peers_support_def not_ahead_def)
qed

text \<open>Peers that refuse at first; the first pass is one of the heartbeat thread.\<close>

definition healing :: "nat \<Rightarrow> unit raft_env" where
  "healing j = (if j = 0 then calm_raft_env\<lparr>clock := \<lambda>_. \<lparr>tv_s = 0, tv_us = 0\<rparr>,
     junk_vote := \<lambda>_. \<lparr>vr_term = 7, vr_granted = False\<rparr>\<rparr> else calm_raft_env)"

theorem raft_election_progress_witness:
  "\<exists>j m. j \<le> Suc 1 \<and> raft_run healing (\<lambda>k. k \<noteq> 0) j trio_node = Some m \<and> state m = XDEVICE_NODE_LEADER"
proof (rule raft_election_progress [where t = 0 and h = 1])
  show "raft_ok trio_node" "state trio_node \<noteq> XDEVICE_NODE_LEADER"
    using trio_wf trio_due by (simp_all add: raft_ok_def leader_ok_def)
  show "election_timeout trio_node \<le> 0 + of_nat RAFT_ELECTION_TIMEOUT_MAX_MS" by (simp add: trio_node_def)
  show "peers_support (healing j) trio_node" if "1 \<le> j" for j using that trio_supported by (simp add: healing_def)
  show "0 + of_nat RAFT_ELECTION_TIMEOUT_MAX_MS \<le> get_current_time_ms (clock (healing 1) 0)"
    by (simp add: healing_def calm_raft_env_def get_current_time_ms_def RAFT_ELECTION_TIMEOUT_MAX_MS_def)
  show "current_term m \<noteq> 0xFFFFFFFFFFFFFFFF"
    if "j \<le> 1" "raft_run healing (\<lambda>k. k \<noteq> 0) j trio_node = Some m" for j m
    using that by (cases j) (auto simp: trio_node_def heartbeat_tick_def)
qed (simp_all add: healing_def clocks_below_def get_current_time_ms_def RAFT_ELECTION_TIMEOUT_MAX_MS_def)

section \<open>The log over time\<close>

lemma raft_log_same: "log_entries n' = log_entries n \<Longrightarrow> log_size n' = log_size n \<Longrightarrow> raft_log n' = raft_log n"
  by (simp add: raft_log_def)

lemma election_tick_log:
  assumes "node_wf n" and "election_tick e n = Some n'"
  shows "raft_log n' = raft_log n"
proof (cases "state n \<noteq> XDEVICE_NODE_LEADER \<and> election_timeout n \<le> get_current_time_ms (clock e 0)")
  case True
  then have due: "state n \<noteq> XDEVICE_NODE_LEADER" "election_timeout n \<le> get_current_time_ms (clock e 0)" by simp_all
  show ?thesis
    by (cases rule: election_tick_cases [OF assms(1) due]) (use assms(2) in \<open>auto intro!: raft_log_same\<close>)
next
  case False
  with assms(2) show ?thesis by (auto simp: election_tick_def)
qed

text \<open>One step adds at most entries of the current term, at the end.\<close>

lemma raft_step_adds:
  assumes step: "raft_step n n'" and inv: "raft_inv n"
  shows "\<exists>added. raft_log n' = raft_log n @ added \<and> list_all (\<lambda>en. e_term en = current_term n) added"
  using step
proof cases
  case (elect e)
  have "raft_log n' = raft_log n" by (rule election_tick_log [OF _ elect(2)]) (use inv in \<open>simp add: raft_inv_def\<close>)
  then show ?thesis by simp
next
  case (beat e)
  with heartbeat_tick_inv [OF inv] have "same_log n n'" by blast
  then have "raft_log n' = raft_log n" by (intro raft_log_same) (simp_all add: same_log_def)
  then show ?thesis by simp
next
  case (append d e ret)
  have app: "raft_app n (e, d) = Some (ret, n')" using append(2) by (simp add: raft_app_def)
  have wf: "node_wf n" using inv by (simp add: raft_inv_def)
  show ?thesis
    by (cases rule: raft_append_cases [OF wf append(1), of e]) (use app in \<open>auto simp: new_entry_def\<close>)
next
  case (join v ret)
  with join_inv [OF inv] show ?thesis by simp
next
  case (start e c ret)
  from start_effect [OF start] show ?thesis by (auto simp: raft_log_def)
qed

text \<open>Property C10.  The replicated log is append-only and the term never falls: however a reachable node
  runs on, with elections, heartbeats, appends, joins (of a leader, too) and restarts of its threads in
  any order, short of undefined behaviour and of the last of the \<open>2 ^ 64\<close> terms, its log
  keeps every entry it ever had in its place, and what is added behind carries no older term.\<close>

theorem raft_log_append_only:
  assumes "raft_reachable n" and "raft_step\<^sup>*\<^sup>* n n'"
  shows "\<exists>added. raft_log n' = raft_log n @ added \<and> list_all (\<lambda>en. current_term n \<le> e_term en) added \<and>
    current_term n \<le> current_term n'"
proof -
  have "raft_inv n' \<and> (\<exists>added. raft_log n' = raft_log n @ added \<and>
      list_all (\<lambda>en. current_term n \<le> e_term en) added \<and> current_term n \<le> current_term n')"
    using assms(2)
  proof (induction rule: rtranclp_induct)
    case base
    then show ?case using raft_reachable_inv [OF assms(1)] by simp
  next
    case (step m m')
    then obtain added where ok: "raft_inv m" and a: "raft_log m = raft_log n @ added"
        "list_all (\<lambda>en. current_term n \<le> e_term en) added" "current_term n \<le> current_term m" by blast
    obtain new where new: "raft_log m' = raft_log m @ new" "list_all (\<lambda>en. e_term en = current_term m) new"
      using raft_step_adds [OF step.hyps(2) ok] by blast
    have "raft_inv m'" "current_term n \<le> current_term m'"
      using raft_step_inv [OF step.hyps(2) ok] a(3) by auto
    moreover have "list_all (\<lambda>en. current_term n \<le> e_term en) (added @ new)"
      using a(2,3) new(2) by (auto simp: list_all_iff)
    ultimately show ?case using a(1) new(1) by auto
  qed
  then show ?thesis by blast
qed

theorem raft_log_append_only_witness:
  "\<exists>n' added. xdevice_raft_append_log calm_raft_env (Some old_node) (Some [1, 2]) (of_nat (length [1, 2 :: byte])) =
      Some (XDEVICE_OK, Some n') \<and>
    raft_log n' = raft_log old_node @ added \<and> list_all (\<lambda>en. current_term old_node \<le> e_term en) added \<and>
    current_term old_node \<le> current_term n'"
proof -
  obtain n' where n': "xdevice_raft_append_log calm_raft_env (Some old_node) (Some [1, 2])
      (of_nat (length [1, 2 :: byte])) = Some (XDEVICE_OK, Some n')" "raft_step old_node n'"
    by (rule old_node_append)
  then show ?thesis using raft_log_append_only [OF old_node_facts(1), of n'] by blast
qed

end
