(* ===== verification/XD_Getopt.thy ===== *)
theory XD_Getopt
  imports XD_Types "HOL-Library.Sublist"
begin

text \<open>
  \<open>getopt_long\<close> of the C library, which both programs use to read their command lines.  The calls of the
  loop around it are collected: the events in the order in which the loop sees them, and the arguments
  that \<open>argv + optind\<close> points to when the loop is over.  Unless \<open>POSIXLY_CORRECT\<close> is set in the
  environment (flag \<open>posixly\<close>), options are recognised behind other arguments too, up to an argument
  \<open>--\<close>.
\<close>

datatype arg_kind = no_argument | required_argument

type_synonym long_option = "string \<times> arg_kind \<times> char"

text \<open>\<open>Bad\<close> is the answer \<open>'?'\<close>, after a message of the library on the error output.\<close>

datatype opt_event = Opt char "string option" | Bad

fun short_kind :: "string \<Rightarrow> char \<Rightarrow> arg_kind option" where
  "short_kind [] c = None"
| "short_kind (x # xs) c =
     (if c = CHR '':'' then None
      else if x = c then Some (case xs of y # _ \<Rightarrow> if y = CHR '':'' then required_argument else no_argument
                               | [] \<Rightarrow> no_argument)
      else short_kind xs c)"

text \<open>A long option is found by its name or by a prefix of exactly one name.\<close>

definition find_long :: "long_option list \<Rightarrow> string \<Rightarrow> (arg_kind \<times> char) option" where
  "find_long table name =
     (case List.find (\<lambda>(n, _). n = name) table of
        Some (_, k) \<Rightarrow> Some k
      | None \<Rightarrow> (case filter (\<lambda>(n, _). prefix name n) table of [(_, k)] \<Rightarrow> Some k | _ \<Rightarrow> None))"

text \<open>The letters of one argument behind its dash: the events, and the option that still wants the next
  argument.\<close>

fun short_cluster :: "string \<Rightarrow> string \<Rightarrow> opt_event list \<times> char option" where
  "short_cluster opts [] = ([], None)"
| "short_cluster opts (c # cs) =
     (case short_kind opts c of
        None \<Rightarrow> (case short_cluster opts cs of (es, p) \<Rightarrow> (Bad # es, p))
      | Some no_argument \<Rightarrow> (case short_cluster opts cs of (es, p) \<Rightarrow> (Opt c None # es, p))
      | Some required_argument \<Rightarrow> if cs = [] then ([], Some c) else ([Opt c (Some cs)], None))"

definition long_argument :: "long_option list \<Rightarrow> string \<Rightarrow> opt_event list \<times> char option" where
  "long_argument table body =
     (let name = takeWhile (\<lambda>c. c \<noteq> CHR ''='') body;
          val = (if CHR ''='' \<in> set body then Some (tl (dropWhile (\<lambda>c. c \<noteq> CHR ''='') body)) else None)
      in case find_long table name of
           None \<Rightarrow> ([Bad], None)
         | Some (no_argument, c) \<Rightarrow> if val = None then ([Opt c None], None) else ([Bad], None)
         | Some (required_argument, c) \<Rightarrow>
             (case val of Some v \<Rightarrow> ([Opt c (Some v)], None) | None \<Rightarrow> ([], Some c)))"

definition is_option :: "string \<Rightarrow> bool" where
  "is_option a \<longleftrightarrow> (\<exists>c cs. a = CHR ''-'' # c # cs)"

lemma is_option_code [code]:
  "is_option a = (case a of x # _ # _ \<Rightarrow> x = CHR ''-'' | _ \<Rightarrow> False)"
  by (auto simp: is_option_def split: list.splits)

definition argument_events :: "string \<Rightarrow> long_option list \<Rightarrow> string \<Rightarrow> opt_event list \<times> char option" where
  "argument_events opts table a =
     (if prefix ''--'' a then long_argument table (drop 2 a) else short_cluster opts (tl a))"

fun getopt_long :: "bool \<Rightarrow> string \<Rightarrow> long_option list \<Rightarrow> string list \<Rightarrow> opt_event list \<times> string list" where
  "getopt_long posixly opts table [] = ([], [])"
| "getopt_long posixly opts table (a # as) =
     (if a = ''--'' then ([], as)
      else if is_option a then
        (case argument_events opts table a of
           (es, None) \<Rightarrow> (case getopt_long posixly opts table as of (fs, rest) \<Rightarrow> (es @ fs, rest))
         | (es, Some c) \<Rightarrow>
             (case as of
                [] \<Rightarrow> (es @ [Bad], [])
              | v # as' \<Rightarrow> (case getopt_long posixly opts table as' of (fs, rest) \<Rightarrow> (es @ Opt c (Some v) # fs, rest))))
      else if posixly then ([], a # as)
      else (case getopt_long posixly opts table as of (fs, rest) \<Rightarrow> (fs, a # rest)))"

section \<open>Facts about option parsing\<close>

text \<open>Without \<open>--\<close> and with permutation none of the arguments that are left over is an option.\<close>

lemma getopt_long_rest_plain:
  "getopt_long False opts table as = (es, rest) \<Longrightarrow> ''--'' \<notin> set as \<Longrightarrow> list_all (\<lambda>a. \<not> is_option a) rest"
  by (induction "False" opts table as arbitrary: es rest rule: getopt_long.induct)
     (auto split: if_splits prod.splits option.splits list.splits)

lemma getopt_long_plain: "list_all (\<lambda>a. \<not> is_option a) as \<Longrightarrow> getopt_long posixly opts table as = ([], as)"
proof (induction as)
  case (Cons a as)
  then have "a \<noteq> ''--''" by (auto simp: is_option_def)
  with Cons show ?case by (cases posixly) auto
qed simp

lemma getopt_long_dashes [simp]: "getopt_long posixly opts table (''--'' # as) = ([], as)"
  by simp

text \<open>The library returns: there are no more events than characters of the arguments.\<close>

lemma short_cluster_events: "short_cluster opts cs = (es, p) \<Longrightarrow> length es + (if p = None then 0 else 1) \<le> length cs"
  by (induction opts cs arbitrary: es p rule: short_cluster.induct)
     (fastforce split: option.splits arg_kind.splits prod.splits if_splits)+

lemma long_argument_events: "long_argument table body = (es, p) \<Longrightarrow> length es + (if p = None then 0 else 1) = 1"
  by (auto simp: long_argument_def Let_def split: option.splits arg_kind.splits if_splits)

lemma argument_events_length:
  assumes "argument_events opts table a = (es, p)" and "is_option a"
  shows "length es + (if p = None then 0 else 1) \<le> length a"
proof (cases "prefix ''--'' a")
  case True
  then show ?thesis
    using assms long_argument_events [of table "drop 2 a" es p] by (auto simp: argument_events_def is_option_def)
next
  case False
  then show ?thesis
    using assms short_cluster_events [of opts "tl a" es p] by (auto simp: argument_events_def is_option_def split: if_splits)
qed

lemma getopt_long_events:
  "getopt_long posixly opts table as = (es, rest) \<Longrightarrow> length es \<le> sum_list (map length as)"
proof (induction posixly opts table as arbitrary: es rest rule: getopt_long.induct)
  case (2 posixly opts table a as)
  consider "a = ''--''" | "a \<noteq> ''--''" "is_option a" | "\<not> is_option a" "a \<noteq> ''--''" by blast
  then show ?case
  proof cases
    case 1
    then show ?thesis using "2.prems" by auto
  next
    case 2
    obtain xs p where ev: "argument_events opts table a = (xs, p)" by fastforce
    note len = argument_events_length [OF ev 2(2)]
    show ?thesis
    proof (cases p)
      case None
      obtain fs r where f: "getopt_long posixly opts table as = (fs, r)" by fastforce
      show ?thesis using "2.IH"(1) [OF 2 ev [symmetric] None f] "2.prems" 2 ev None f len by auto
    next
      case (Some c)
      show ?thesis
      proof (cases as)
        case Nil
        then show ?thesis using "2.prems" 2 ev Some len by auto
      next
        case (Cons v as')
        obtain fs r where f: "getopt_long posixly opts table as' = (fs, r)" by fastforce
        show ?thesis using "2.IH"(2) [OF 2 ev [symmetric] Some Cons f] "2.prems" 2 ev Some f len Cons by auto
      qed
    qed
  next
    case 3
    obtain fs r where f: "getopt_long posixly opts table as = (fs, r)" by fastforce
    show ?thesis using "2.IH"(3) [OF 3(2,1) _ f] "2.prems" 3 f by (cases posixly) auto
  qed
qed simp

end
