(* ===== verification/XD_Numbers.thy ===== *)
theory XD_Numbers
  imports XD_Types
begin

text \<open>
  The conversions between numbers and text that the two programs take from the C library: IEEE double
  precision with rounding to nearest even, \<open>strtod\<close>, \<open>atoi\<close>, \<open>strcasecmp\<close> and the \<open>%.2f\<close> conversion
  of \<open>printf\<close>, all in the \<open>C\<close> locale that the programs run in.
\<close>

section \<open>Characters\<close>

definition ascii :: "char \<Rightarrow> nat" where
  "ascii c = of_char c"

definition is_space :: "char \<Rightarrow> bool" where
  "is_space c \<longleftrightarrow> ascii c = 32 \<or> 9 \<le> ascii c \<and> ascii c \<le> 13"

definition is_digit :: "char \<Rightarrow> bool" where
  "is_digit c \<longleftrightarrow> 48 \<le> ascii c \<and> ascii c \<le> 57"

definition is_xdigit :: "char \<Rightarrow> bool" where
  "is_xdigit c \<longleftrightarrow> is_digit c \<or> 65 \<le> ascii c \<and> ascii c \<le> 70 \<or> 97 \<le> ascii c \<and> ascii c \<le> 102"

definition digit_val :: "char \<Rightarrow> nat" where
  "digit_val c = (if ascii c \<le> 57 then ascii c - 48 else if ascii c \<le> 70 then ascii c - 55 else ascii c - 87)"

definition to_lower :: "char \<Rightarrow> char" where
  "to_lower c = (if 65 \<le> ascii c \<and> ascii c \<le> 90 then char_of (ascii c + 32) else c)"

definition same_nocase :: "string \<Rightarrow> string \<Rightarrow> bool" where
  "same_nocase a b \<longleftrightarrow> map to_lower a = map to_lower b"

definition digits_val :: "int \<Rightarrow> string \<Rightarrow> int" where
  "digits_val base s = foldl (\<lambda>n c. n * base + int (digit_val c)) 0 s"

section \<open>Double precision\<close>

text \<open>\<open>Fin s m e\<close> is the number \<open>m * 2 ^ e\<close> with \<open>m\<close> not negative, negated when \<open>s\<close> holds.\<close>

datatype double = Fin bool int int | Infinite bool | NaN

function nbits :: "int \<Rightarrow> int" where
  "nbits n = (if n \<le> 0 then 0 else 1 + nbits (n div 2))"
  by auto

termination by (relation "measure nat") auto

declare nbits.simps [simp del]

text \<open>The quotient rounded to the nearest integer, ties to even, and the fraction \<open>n / d / 2 ^ e\<close>.\<close>

definition round_even :: "int \<Rightarrow> int \<Rightarrow> int" where
  "round_even n d =
     (let q = n div d; r = n mod d in if 2 * r < d \<or> 2 * r = d \<and> even q then q else q + 1)"

definition scale_frac :: "int \<Rightarrow> int \<Rightarrow> int \<Rightarrow> int \<times> int" where
  "scale_frac n d e = (if 0 \<le> e then (n, d * 2 ^ nat e) else (n * 2 ^ nat (- e), d))"

text \<open>The double nearest to \<open>n / d\<close>: 53 bits of precision, exponents from \<open>-1074\<close> to \<open>971\<close>.\<close>

definition round_double :: "bool \<Rightarrow> int \<Rightarrow> int \<Rightarrow> double" where
  "round_double s n d =
     (if n = 0 then Fin s 0 0
      else
        (let e0 = nbits n - nbits d - 53;
             e1 = (case scale_frac n d e0 of (a, b) \<Rightarrow> if 2 ^ 53 * b \<le> a then e0 + 1 else e0);
             e = max e1 (- 1074);
             m = (case scale_frac n d e of (a, b) \<Rightarrow> round_even a b)
         in if 971 < e \<or> e = 971 \<and> m = 2 ^ 53 then Infinite s else Fin s m e))"

text \<open>The product with a power of two, the comparison with zero and the conversion to \<open>uint64_t\<close>, which
  is undefined when the integral part does not fit.\<close>

fun times_pow2 :: "double \<Rightarrow> nat \<Rightarrow> double" where
  "times_pow2 (Fin s m e) k = (if 1024 < nbits m + e + int k then Infinite s else Fin s m (e + int k))"
| "times_pow2 (Infinite s) k = Infinite s"
| "times_pow2 NaN k = NaN"

fun not_positive :: "double \<Rightarrow> bool" where
  "not_positive (Fin s m e) = (s \<or> m = 0)"
| "not_positive (Infinite s) = s"
| "not_positive NaN = False"

definition int_part :: "int \<Rightarrow> int \<Rightarrow> int" where
  "int_part m e = (if 0 \<le> e then m * 2 ^ nat e else m div 2 ^ nat (- e))"

fun to_u64 :: "double \<Rightarrow> u64 option" where
  "to_u64 (Fin s m e) =
     (let n = int_part m e
      in if s \<and> n \<noteq> 0 \<or> 2 ^ 64 \<le> n then None else Some (of_int n))"
| "to_u64 _ = None"

section \<open>\<open>strtod\<close>\<close>

text \<open>An exponent part; it is not consumed when no digit follows.\<close>

definition scan_exponent :: "string \<Rightarrow> string \<Rightarrow> int \<times> string" where
  "scan_exponent marks s =
     (case s of
        [] \<Rightarrow> (0, s)
      | c # r \<Rightarrow>
          if c \<in> set marks then
            (let (neg, r1) = (case r of x # y \<Rightarrow> if x = CHR ''-'' then (True, y) else if x = CHR ''+'' then (False, y) else (False, r)
                              | [] \<Rightarrow> (False, r));
                 ds = takeWhile is_digit r1
             in if ds = [] then (0, s)
                else ((if neg then - 1 else 1) * digits_val 10 ds, dropWhile is_digit r1))
          else (0, s))"

text \<open>Digits with an optional point, at least one of them, and an exponent: the digits as a number, how
  many are behind the point, the exponent and the rest of the text.\<close>

definition scan_number :: "(char \<Rightarrow> bool) \<Rightarrow> int \<Rightarrow> string \<Rightarrow> string \<Rightarrow> (int \<times> nat \<times> int \<times> string) option" where
  "scan_number isd base marks s =
     (let ip = takeWhile isd s; r = dropWhile isd s;
          (fp, r1) = (case r of c # x \<Rightarrow> if c = CHR ''.'' then (takeWhile isd x, dropWhile isd x) else ([], r)
                      | [] \<Rightarrow> ([], r))
      in if ip = [] \<and> fp = [] then None
         else (case scan_exponent marks r1 of
                 (ex, rest) \<Rightarrow> Some (digits_val base (ip @ fp), length fp, ex, rest)))"

definition scaled :: "bool \<Rightarrow> int \<Rightarrow> int \<Rightarrow> int \<Rightarrow> double" where
  "scaled s base n k = round_double s (n * base ^ nat k) (base ^ nat (- k))"

definition nan_payload :: "string \<Rightarrow> string" where
  "nan_payload s =
     (case s of
        c # r \<Rightarrow>
          if c = CHR ''('' then
            (let body = takeWhile (\<lambda>x. is_digit x \<or> 97 \<le> ascii (to_lower x) \<and> ascii (to_lower x) \<le> 122 \<or> x = CHR ''_'') r
             in case drop (length body) r of d # r' \<Rightarrow> if d = CHR '')'' then r' else s | [] \<Rightarrow> s)
          else s
      | [] \<Rightarrow> s)"

definition strtod_unsigned :: "bool \<Rightarrow> string \<Rightarrow> (double \<times> string) option" where
  "strtod_unsigned neg s =
     (if same_nocase (take 8 s) ''infinity'' then Some (Infinite neg, drop 8 s)
      else if same_nocase (take 3 s) ''inf'' then Some (Infinite neg, drop 3 s)
      else if same_nocase (take 3 s) ''nan'' then Some (NaN, nan_payload (drop 3 s))
      else
        (case (if same_nocase (take 2 s) ''0x'' then scan_number is_xdigit 16 ''pP'' (drop 2 s) else None) of
           Some (n, f, ex, rest) \<Rightarrow> Some (scaled neg 2 n (ex - 4 * int f), rest)
         | None \<Rightarrow>
             (case scan_number is_digit 10 ''eE'' s of
                Some (n, f, ex, rest) \<Rightarrow> Some (scaled neg 10 n (ex - int f), rest)
              | None \<Rightarrow> None)))"

text \<open>The value and the text behind the number (\<open>endptr\<close>); without a number, zero and the whole text.\<close>

definition strtod :: "string \<Rightarrow> double \<times> string" where
  "strtod s =
     (let t = dropWhile is_space s;
          (neg, u) = (case t of c # r \<Rightarrow> if c = CHR ''-'' then (True, r) else if c = CHR ''+'' then (False, r) else (False, t)
                      | [] \<Rightarrow> (False, t))
      in case strtod_unsigned neg u of Some r \<Rightarrow> r | None \<Rightarrow> (Fin False 0 0, s))"

section \<open>\<open>atoi\<close> and \<open>printf\<close>\<close>

text \<open>The value of \<open>atoi\<close>; undefined when it is not an \<open>int\<close>.\<close>

definition atoi :: "string \<Rightarrow> int option" where
  "atoi s =
     (let t = dropWhile is_space s;
          (neg, u) = (case t of c # r \<Rightarrow> if c = CHR ''-'' then (True, r) else if c = CHR ''+'' then (False, r) else (False, t)
                      | [] \<Rightarrow> (False, t));
          n = digits_val 10 (takeWhile is_digit u); v = (if neg then - n else n)
      in if - (2 ^ 31) \<le> v \<and> v < 2 ^ 31 then Some v else None)"

text \<open>\<open>%.2f\<close> of \<open>m * 2 ^ e / 2 ^ k\<close>, a number that is not negative.\<close>

definition hundredths :: "int \<Rightarrow> int \<Rightarrow> nat \<Rightarrow> int" where
  "hundredths m e k = (case scale_frac (100 * m) 1 (int k - e) of (a, b) \<Rightarrow> round_even a b)"

definition two_places :: "nat \<Rightarrow> string" where
  "two_places h = dec_string (h div 100) @ ''.'' @ [dec_digit (h div 10 mod 10), dec_digit (h mod 10)]"

definition pad_right :: "nat \<Rightarrow> string \<Rightarrow> string" where
  "pad_right n s = s @ replicate (n - length s) CHR '' ''"

section \<open>Reading back decimal numbers\<close>

lemma ascii_char_of: "ascii (char_of n) = n mod 256"
  by (simp add: ascii_def)

lemma dec_digit_facts:
  assumes "d < 10"
  shows "is_digit (dec_digit d)" and "digit_val (dec_digit d) = d"
  using assms by (simp_all add: is_digit_def digit_val_def dec_digit_def ascii_char_of)

lemma dec_string_digits: "list_all is_digit (dec_string n)"
proof (induction n rule: less_induct)
  case (less n)
  then show ?case
    by (subst dec_string_snoc) (simp add: dec_digit_facts)
qed

lemma digits_val_snoc: "digits_val b (xs @ [c]) = digits_val b xs * b + int (digit_val c)"
  by (simp add: digits_val_def)

lemma digits_val_dec_string: "digits_val 10 (dec_string n) = int n"
proof (induction n rule: less_induct)
  case (less n)
  have eq: "digits_val 10 (dec_string n) = (if n < 10 then 0 else digits_val 10 (dec_string (n div 10))) * 10 + int (n mod 10)"
    by (subst dec_string_snoc) (simp add: digits_val_snoc dec_digit_facts, simp add: digits_val_def)
  have n: "int n = int (n div 10) * 10 + int (n mod 10)"
    by (metis div_mult_mod_eq of_nat_add of_nat_mult of_nat_numeral)
  show ?case
  proof (cases "n < 10")
    case False
    then have "digits_val 10 (dec_string (n div 10)) = int (n div 10)" by (intro less) simp
    with False show ?thesis by (subst n) (simp only: eq if_False)
  qed (simp add: eq)
qed

lemma digit_plain:
  assumes "is_digit c"
  shows "\<not> is_space c" and "to_lower c = c" and "c \<noteq> CHR ''-''" and "c \<noteq> CHR ''+''"
proof -
  show "\<not> is_space c" "to_lower c = c" using assms by (auto simp: is_digit_def is_space_def to_lower_def)
  have "ascii CHR ''-'' = 45" "ascii CHR ''+'' = 43" by (simp_all add: ascii_def)
  then show "c \<noteq> CHR ''-''" "c \<noteq> CHR ''+''" using assms by (auto simp: is_digit_def)
qed

lemma same_nocase_Cons: "same_nocase (a # as) (b # bs) \<longleftrightarrow> to_lower a = to_lower b \<and> same_nocase as bs"
  by (simp add: same_nocase_def)

lemma same_nocase_Nil [simp]: "same_nocase [] (b # bs) = False" "same_nocase (b # bs) [] = False" "same_nocase [] []"
  by (simp_all add: same_nocase_def)

text \<open>A text that starts with digits is read as a decimal number, unless the digits are the \<open>0\<close> of
  \<open>0x\<close>.\<close>

lemma strtod_digits:
  assumes ds: "list_all is_digit ds" "ds \<noteq> []" and u: "u = [] \<or> to_lower (hd u) \<noteq> CHR ''x''"
    and scan: "scan_number is_digit 10 ''eE'' (ds @ u) = Some (n, f, ex, rest)"
  shows "strtod (ds @ u) = (scaled False 10 n (ex - int f), rest)"
proof -
  obtain c cs where c: "ds = c # cs" "is_digit c" using ds by (cases ds) auto
  note plain = digit_plain [OF c(2)]
  have il: "to_lower CHR ''i'' = CHR ''i''" "to_lower CHR ''n'' = CHR ''n''" "to_lower CHR ''x'' = CHR ''x''"
    "\<not> is_digit CHR ''i''" "\<not> is_digit CHR ''n''" "\<not> is_digit CHR ''x''"
    by (simp_all add: to_lower_def ascii_def is_digit_def)
  then have "c \<noteq> CHR ''i''" "c \<noteq> CHR ''n''" using c(2) by metis+
  then have words: "\<not> same_nocase (take 8 (ds @ u)) ''infinity''" "\<not> same_nocase (take 3 (ds @ u)) ''inf''"
      "\<not> same_nocase (take 3 (ds @ u)) ''nan''"
    using plain(2) il by (simp_all add: c(1) same_nocase_Cons)
  have "\<not> same_nocase (take 2 (ds @ u)) ''0x''"
  proof (cases cs)
    case Nil
    then show ?thesis using u il by (cases u) (auto simp: c(1) same_nocase_Cons)
  next
    case (Cons b bs)
    then have "is_digit b" using ds(1) c(1) by simp
    then show ?thesis using il digit_plain(2) [of b] by (auto simp: c(1) Cons same_nocase_Cons)
  qed
  then have "strtod_unsigned False (ds @ u) = Some (scaled False 10 n (ex - int f), rest)"
    using words scan by (simp add: strtod_unsigned_def)
  moreover have "dropWhile is_space (ds @ u) = ds @ u" using plain(1) by (simp add: c(1))
  ultimately show ?thesis using plain(3,4) by (simp add: strtod_def c(1))
qed

lemma span_digits:
  assumes "list_all is_digit ds" and "u = [] \<or> \<not> is_digit (hd u)"
  shows "takeWhile is_digit (ds @ u) = ds" and "dropWhile is_digit (ds @ u) = u"
proof -
  have u: "takeWhile is_digit u = []" "dropWhile is_digit u = u" using assms(2) by (cases u; simp)+
  have "\<And>x. x \<in> set ds \<Longrightarrow> is_digit x" using assms(1) by (simp add: list_all_iff)
  then show "takeWhile is_digit (ds @ u) = ds" "dropWhile is_digit (ds @ u) = u"
    by (simp_all add: takeWhile_append2 dropWhile_append2 u)
qed

lemma scan_exponent_none: "u = [] \<or> hd u \<notin> set marks \<Longrightarrow> scan_exponent marks u = (0, u)"
  by (cases u) (auto simp: scan_exponent_def)

text \<open>What may follow a number without becoming part of it.\<close>

definition ends_number :: "string \<Rightarrow> bool" where
  "ends_number u \<longleftrightarrow> u = [] \<or> \<not> is_digit (hd u) \<and> hd u \<notin> set ''.eE'' \<and> to_lower (hd u) \<noteq> CHR ''x''"

lemma strtod_dec_string:
  assumes "ends_number u"
  shows "strtod (dec_string n @ u) = (round_double False (int n) 1, u)"
proof -
  have "u = [] \<or> \<not> is_digit (hd u)" using assms by (auto simp: ends_number_def)
  note sp = span_digits [OF dec_string_digits this, of n]
  have dot: "(case u of c # x \<Rightarrow> if c = CHR ''.'' then (takeWhile is_digit x, dropWhile is_digit x) else ([], u)
      | [] \<Rightarrow> ([], u)) = ([], u)"
    using assms by (cases u) (auto simp: ends_number_def)
  have "scan_exponent ''eE'' u = (0, u)" using assms by (intro scan_exponent_none) (auto simp: ends_number_def)
  then have "scan_number is_digit 10 ''eE'' (dec_string n @ u) = Some (int n, 0, 0, u)"
    unfolding scan_number_def sp Let_def dot by (simp add: digits_val_dec_string)
  then show ?thesis
    using strtod_digits [OF dec_string_digits, of n u] assms by (auto simp: ends_number_def scaled_def)
qed

section \<open>Doubles that are exact\<close>

lemma nbits_bounds: "0 < n \<Longrightarrow> 0 < nbits n \<and> 2 ^ nat (nbits n - 1) \<le> n \<and> n < 2 ^ nat (nbits n)"
proof (induction n rule: nbits.induct)
  case (1 n)
  show ?case
  proof (cases "n = 1")
    case True
    then show ?thesis by (simp add: nbits.simps)
  next
    case False
    then have d: "0 < n div 2" using 1(2) by auto
    then have IH: "0 < nbits (n div 2)" "2 ^ nat (nbits (n div 2) - 1) \<le> n div 2" "n div 2 < 2 ^ nat (nbits (n div 2))"
      using 1 by auto
    have nb: "nbits n = 1 + nbits (n div 2)" using 1(2) by (simp add: nbits.simps [of n])
    have "nat (nbits n) = Suc (nat (nbits (n div 2)))" and "nat (nbits n - 1) = Suc (nat (nbits (n div 2) - 1))"
      using IH(1) by (simp_all add: nb)
    then show ?thesis using IH by (simp add: nb del: nat_diff_distrib) linarith
  qed
qed

lemma nbits_le: "0 \<le> n \<Longrightarrow> n < 2 ^ k \<Longrightarrow> nbits n \<le> int k"
proof (cases "n = 0")
  case False
  assume "0 \<le> n" "n < 2 ^ k"
  then have b: "0 < nbits n" "2 ^ nat (nbits n - 1) \<le> n" using nbits_bounds [of n] False by auto
  then have "(2 :: int) ^ nat (nbits n - 1) < 2 ^ k" using \<open>n < 2 ^ k\<close> by linarith
  then have "nat (nbits n - 1) < k" by (simp only: power_strict_increasing_iff one_less_numeral_iff semiring_norm)
  then show ?thesis using b(1) by linarith
qed (simp add: nbits.simps)

lemma round_even_one [simp]: "round_even n 1 = n"
  by (simp add: round_even_def)

text \<open>Integers below \<open>2 ^ 53\<close> are exact.\<close>

lemma round_double_exact:
  assumes "0 < n" and "n < 2 ^ 53"
  obtains m e where "round_double s n 1 = Fin s m e" and "e \<le> 0" and "m = n * 2 ^ nat (- e)"
    and "2 ^ 52 \<le> m" and "m < 2 ^ 53"
proof -
  let ?b = "nbits n"
  have b: "0 < ?b" "2 ^ nat (?b - 1) \<le> n" "n < 2 ^ nat ?b" using nbits_bounds [OF assms(1)] by auto
  have b53: "?b \<le> 53" using nbits_le [of n 53] assms by simp
  have one: "nbits 1 = 1" by (simp add: nbits.simps)
  have pw: "(2 :: int) ^ nat (?b - 1) * 2 ^ nat (53 - ?b) = 2 ^ 52" "(2 :: int) ^ nat ?b * 2 ^ nat (53 - ?b) = 2 ^ 53"
    using b(1) b53 by (simp_all flip: power_add add: nat_add_distrib [symmetric])
  let ?m = "n * 2 ^ nat (53 - ?b)"
  have m: "2 ^ 52 \<le> ?m" "?m < 2 ^ 53"
    using mult_right_mono [OF b(2), of "2 ^ nat (53 - ?b)"] mult_strict_right_mono [OF b(3), of "2 ^ nat (53 - ?b)"]
    unfolding pw by simp_all
  have e0: "nat (54 - ?b) = Suc (nat (53 - ?b))" using b53 by linarith
  have s0: "scale_frac n 1 (?b - 1 - 53) = (2 * ?m, 1)" using b53 e0 by (simp add: scale_frac_def)
  have s1: "scale_frac n 1 (?b - 53) = (?m, 1)" using b53 by (auto simp: scale_frac_def)
  have "2 ^ 53 \<le> 2 * ?m" using m(1) by simp
  then have "round_double s n 1 = Fin s ?m (?b - 53)"
    using assms(1) b53 b(1) s0 s1 one by (simp add: round_double_def Let_def max_def)
  then show thesis using m b53 by (intro that [of ?m "?b - 53"]) auto
qed

lemma int_part_shift:
  assumes "m = n * 2 ^ nat (- e)" and "e \<le> 0" and "0 \<le> n"
  shows "int_part m (e + int k) = n * 2 ^ k"
proof (cases "0 \<le> e + int k")
  case True
  then have "nat (- e) + nat (e + int k) = k" using assms(2) by linarith
  then have "(2 :: int) ^ nat (- e) * 2 ^ nat (e + int k) = 2 ^ k" by (metis power_add)
  then show ?thesis using True assms(1) by (simp add: int_part_def)
next
  case False
  then have "nat (- e) = k + nat (- (e + int k))" using assms(2) by linarith
  then have "m = n * 2 ^ k * 2 ^ nat (- (e + int k))" using assms(1) by (simp add: power_add)
  then show ?thesis using False by (simp add: int_part_def)
qed

end
