(* ===== verification/XD_Cli.thy ===== *)
theory XD_Cli
  imports XD_Getopt XD_Numbers XD_Raft
begin

text \<open>
  The command line client \<open>src/main/cli_main.c\<close>: sizes and their display, the commands, and the main
  program.  The functions of \<open>include/xdevice.h\<close> that it calls have no implementation in the repository;
  they are the record \<open>cli_api\<close>, over a state \<open>'w\<close> of their own.  A result is the exit code, the lines
  printed on the standard output and the error output, and the state; \<open>None\<close> is undefined behaviour.
\<close>

datatype console = Out string | Err string

text \<open>The functions return the value of an \<open>xdevice_error_t\<close>; \<open>xdevice_get_nodes\<close> also leaves the array of
  nodes (\<open>None\<close> where it is indeterminate) and their number.\<close>

record 'w cli_api =
  api_version :: string
  api_init :: "'w \<Rightarrow> bool \<times> 'w"
  api_create_device :: "'w \<Rightarrow> string \<Rightarrow> u64 \<Rightarrow> int \<times> 'w"
  api_delete_device :: "'w \<Rightarrow> string \<Rightarrow> int \<times> 'w"
  api_get_nodes :: "'w \<Rightarrow> u32 \<Rightarrow> int \<times> node_info option list \<times> u32 \<times> 'w"
  api_add_node :: "'w \<Rightarrow> string \<Rightarrow> string \<Rightarrow> u16 \<Rightarrow> int \<times> 'w"
  api_cleanup :: "'w \<Rightarrow> 'w"

definition dec_int :: "int \<Rightarrow> string" where
  "dec_int n = (if n < 0 then ''-'' @ dec_string (nat (- n)) else dec_string (nat n))"

definition quoted :: "string \<Rightarrow> string" where
  "quoted s = [CHR 0x27] @ s @ [CHR 0x27]"

definition show_help :: "string \<Rightarrow> console list" where
  "show_help program_name =
    [Out (''Usage: '' @ program_name @ '' [COMMAND] [OPTIONS]''),
     Out [],
     Out ''Commands:'',
     Out ''  create-device      Create a new block device'',
     Out ''  delete-device      Delete a block device'',
     Out ''  list-devices       List all devices'',
     Out ''  device-info        Show device information'',
     Out ''  list-nodes         List all cluster nodes'',
     Out ''  add-node           Add a node to cluster'',
     Out ''  remove-node        Remove a node from cluster'',
     Out ''  status             Show cluster status'',
     Out ''  mount              Mount a device'',
     Out ''  unmount            Unmount a device'',
     Out [],
     Out ''Global Options:'',
     Out ''  -s, --server HOST  Server address (default: localhost:8080)'',
     Out ''  -h, --help         Show this help message'',
     Out ''  -v, --version      Show version information'',
     Out [],
     Out ''Examples:'',
     Out (''  '' @ program_name @ '' create-device --name=wal-device --size=1GB''),
     Out (''  '' @ program_name @ '' list-devices''),
     Out (''  '' @ program_name @ '' add-node --id=node2 --address=192.168.1.2:8080'')]"

text \<open>\<open>build\<close> is the date and time of the compilation.\<close>

definition show_version :: "string \<Rightarrow> string \<Rightarrow> console list" where
  "show_version version build = [Out (''XDevice CLI '' @ version), Out (''Built on '' @ build)]"

section \<open>Sizes\<close>

text \<open>The binary logarithm of the multiplier of a unit.\<close>

definition unit_exponent :: "string \<Rightarrow> nat option" where
  "unit_exponent u =
     (if u = [] then Some 0
      else if same_nocase u ''KB'' \<or> same_nocase u ''K'' then Some 10
      else if same_nocase u ''MB'' \<or> same_nocase u ''M'' then Some 20
      else if same_nocase u ''GB'' \<or> same_nocase u ''G'' then Some 30
      else if same_nocase u ''TB'' \<or> same_nocase u ''T'' then Some 40
      else None)"

definition parse_size_string :: "string option \<Rightarrow> u64 option" where
  "parse_size_string size_str =
     (case size_str of
        None \<Rightarrow> Some 0
      | Some s \<Rightarrow>
          (case strtod s of
             (sz, endptr) \<Rightarrow>
               if not_positive sz then Some 0
               else (case unit_exponent endptr of
                       None \<Rightarrow> Some 0
                     | Some k \<Rightarrow> to_u64 (times_pow2 sz k))))"

text \<open>The display of a size; \<open>show_unit\<close> prints it in units of \<open>2 ^ k\<close> bytes.\<close>

definition show_unit :: "u64 \<Rightarrow> nat \<Rightarrow> string \<Rightarrow> string" where
  "show_unit bytes k u =
     (case round_double False (uint bytes) 1 of
        Fin s m e \<Rightarrow> two_places (nat (hundredths m e k)) @ u
      | _ \<Rightarrow> ''inf'' @ u)"

definition format_size :: "u64 \<Rightarrow> nat \<Rightarrow> string" where
  "format_size bytes buffer_size =
     c_snprintf buffer_size
       (if bytes \<ge> 2 ^ 40 then show_unit bytes 40 '' TB''
        else if bytes \<ge> 2 ^ 30 then show_unit bytes 30 '' GB''
        else if bytes \<ge> 2 ^ 20 then show_unit bytes 20 '' MB''
        else if bytes \<ge> 2 ^ 10 then show_unit bytes 10 '' KB''
        else dec_string (unat bytes) @ '' bytes'')"

section \<open>The commands\<close>

text \<open>A loop over the options ends the command with an exit code, or leaves the values of its variables.\<close>

fun create_options ::
  "opt_event list \<Rightarrow> string option \<times> string option \<Rightarrow> (int \<times> console list) + (string option \<times> string option)" where
  "create_options [] v = Inr v"
| "create_options (Bad # es) v = Inl (1, [])"
| "create_options (Opt c arg # es) (name, size_str) =
     (if c = CHR ''n'' then create_options es (arg, size_str)
      else if c = CHR ''s'' then create_options es (name, arg)
      else if c = CHR ''h'' then
        Inl (0, [Out ''Usage: create-device --name=NAME --size=SIZE'', Out ''  --name NAME    Device name'',
                 Out ''  --size SIZE    Device size (e.g., 1GB, 512MB)''])
      else Inl (1, []))"

definition cmd_create_device ::
  "'w cli_api \<Rightarrow> bool \<Rightarrow> string list \<Rightarrow> 'w \<Rightarrow> (int \<times> console list \<times> 'w) option" where
  "cmd_create_device api posixly argv w =
     (case create_options (fst (getopt_long posixly ''n:s:h''
             [(''name'', required_argument, CHR ''n''), (''size'', required_argument, CHR ''s''),
              (''help'', no_argument, CHR ''h'')] (tl argv))) (None, None) of
        Inl (code, out) \<Rightarrow> Some (code, out, w)
      | Inr (Some name, Some size_str) \<Rightarrow> do {
          size \<leftarrow> parse_size_string (Some size_str);
          if size = 0 then Some (1, [Err (''Error: Invalid size format '' @ quoted size_str)], w)
          else
            (let start = Out (''Creating device '' @ quoted name @ '' with size '' @ size_str @ ''...'')
             in case api_create_device api w name size of
                  (err, w1) \<Rightarrow>
                    if err \<noteq> 0 then Some (1, [start, Err (''Error: Failed to create device: '' @ dec_int err)], w1)
                    else Some (0, [start, Out (''Device '' @ quoted name @ '' created successfully'')], w1)) }
      | Inr _ \<Rightarrow> Some (1, [Err ''Error: Both --name and --size are required''], w))"

fun delete_options :: "opt_event list \<Rightarrow> string option \<Rightarrow> (int \<times> console list) + string option" where
  "delete_options [] name = Inr name"
| "delete_options (Bad # es) name = Inl (1, [])"
| "delete_options (Opt c arg # es) name =
     (if c = CHR ''n'' then delete_options es arg
      else if c = CHR ''h'' then
        Inl (0, [Out ''Usage: delete-device --name=NAME'', Out ''  --name NAME    Device name to delete''])
      else Inl (1, []))"

definition cmd_delete_device ::
  "'w cli_api \<Rightarrow> bool \<Rightarrow> string list \<Rightarrow> 'w \<Rightarrow> int \<times> console list \<times> 'w" where
  "cmd_delete_device api posixly argv w =
     (case delete_options (fst (getopt_long posixly ''n:h''
             [(''name'', required_argument, CHR ''n''), (''help'', no_argument, CHR ''h'')] (tl argv))) None of
        Inl (code, out) \<Rightarrow> (code, out, w)
      | Inr None \<Rightarrow> (1, [Err ''Error: --name is required''], w)
      | Inr (Some name) \<Rightarrow>
          (let start = Out (''Deleting device '' @ quoted name @ ''...'')
           in case api_delete_device api w name of
                (err, w1) \<Rightarrow>
                  if err \<noteq> 0 then (1, [start, Err (''Error: Failed to delete device: '' @ dec_int err)], w1)
                  else (0, [start, Out (''Device '' @ quoted name @ '' deleted successfully'')], w1)))"

text \<open>The columns of a table, each padded to its width and a space between them.\<close>

definition row :: "(nat \<times> string) list \<Rightarrow> console" where
  "row cols = Out (case map (\<lambda>(n, s). pad_right n s) cols of [] \<Rightarrow> [] | x # xs \<Rightarrow> x @ concat (map (\<lambda>y. '' '' @ y) xs))"

definition device_row :: "string \<Rightarrow> string \<Rightarrow> string \<Rightarrow> string \<Rightarrow> console" where
  "device_row a b c d = row [(20, a), (10, b), (10, c), (15, d)]"

definition cmd_list_devices :: "console list" where
  "cmd_list_devices =
    [Out ''Listing devices...'',
     device_row ''NAME'' ''SIZE'' ''STATE'' ''PRIMARY NODE'',
     device_row ''----'' ''----'' ''-----'' ''------------'',
     device_row ''wal-device'' ''1.0 GB'' ''ACTIVE'' ''node1'',
     device_row ''log-device'' ''512 MB'' ''ACTIVE'' ''node2'']"

fun state_name :: "xdevice_node_state \<Rightarrow> string" where
  "state_name XDEVICE_NODE_UNKNOWN = ''UNKNOWN''"
| "state_name XDEVICE_NODE_LEADER = ''LEADER''"
| "state_name XDEVICE_NODE_FOLLOWER = ''FOLLOWER''"
| "state_name XDEVICE_NODE_CANDIDATE = ''CANDIDATE''"
| "state_name XDEVICE_NODE_DOWN = ''DOWN''"

definition node_row :: "string \<Rightarrow> string \<Rightarrow> string \<Rightarrow> string \<Rightarrow> console" where
  "node_row a b c d = row [(15, a), (20, b), (10, c), (15, d)]"

fun node_rows :: "node_info option list \<Rightarrow> nat list \<Rightarrow> console list option" where
  "node_rows nodes [] = Some []"
| "node_rows nodes (i # is) = do {
     slot \<leftarrow> at nodes i;
     nd \<leftarrow> slot;
     more \<leftarrow> node_rows nodes is;
     Some (node_row (ni_node_id nd) (c_snprintf 256 (ni_address nd @ '':'' @ dec_string (unat (ni_port nd))))
             (state_name (ni_state nd)) (dec_string (unat (ni_last_heartbeat nd))) # more) }"

definition cmd_list_nodes :: "'w cli_api \<Rightarrow> 'w \<Rightarrow> (int \<times> console list \<times> 'w) option" where
  "cmd_list_nodes api w =
     (case api_get_nodes api w (of_nat XDEVICE_MAX_NODES) of
        (err, nodes, count, w1) \<Rightarrow>
          if err \<noteq> 0 then Some (1, [Err (''Error: Failed to get node list: '' @ dec_int err)], w1)
          else do {
            rows \<leftarrow> node_rows nodes [0..<unat count];
            Some (0, [Out (''Cluster nodes ('' @ dec_int (sint count) @ '' total):''),
                      node_row ''NODE ID'' ''ADDRESS'' ''STATE'' ''LAST HEARTBEAT'',
                      node_row ''-------'' ''-------'' ''-----'' ''--------------''] @ rows, w1) })"

fun add_options ::
  "opt_event list \<Rightarrow> string option \<times> string option \<times> u16 \<Rightarrow>
     ((int \<times> console list) + (string option \<times> string option \<times> u16)) option" where
  "add_options [] v = Some (Inr v)"
| "add_options (Bad # es) v = Some (Inl (1, []))"
| "add_options (Opt c arg # es) (nid, address, port) =
     (if c = CHR ''i'' then add_options es (arg, address, port)
      else if c = CHR ''a'' then add_options es (nid, arg, port)
      else if c = CHR ''p'' then do {
        s \<leftarrow> arg;
        n \<leftarrow> atoi s;
        add_options es (nid, address, of_int n) }
      else if c = CHR ''h'' then
        Some (Inl (0, [Out ''Usage: add-node --id=ID --address=ADDRESS [--port=PORT]'', Out ''  --id ID           Node ID'',
                 Out ''  --address ADDRESS Node IP address'', Out ''  --port PORT       Node port (default: 8080)'']))
      else Some (Inl (1, [])))"

definition cmd_add_node ::
  "'w cli_api \<Rightarrow> bool \<Rightarrow> string list \<Rightarrow> 'w \<Rightarrow> (int \<times> console list \<times> 'w) option" where
  "cmd_add_node api posixly argv w = do {
     opts \<leftarrow> add_options (fst (getopt_long posixly ''i:a:p:h''
             [(''id'', required_argument, CHR ''i''), (''address'', required_argument, CHR ''a''),
              (''port'', required_argument, CHR ''p''), (''help'', no_argument, CHR ''h'')] (tl argv))) (None, None, 8080);
     Some (case opts of
        Inl (code, out) \<Rightarrow> (code, out, w)
      | Inr (Some nid, Some address, port) \<Rightarrow>
          (let start = Out (''Adding node '' @ quoted nid @ '' at '' @ address @ '':'' @ dec_string (unat port) @ '' to cluster...'')
           in case api_add_node api w nid address port of
                (err, w1) \<Rightarrow>
                  if err \<noteq> 0 then (1, [start, Err (''Error: Failed to add node: '' @ dec_int err)], w1)
                  else (0, [start, Out (''Node '' @ quoted nid @ '' added successfully'')], w1))
      | Inr _ \<Rightarrow> (1, [Err ''Error: Both --id and --address are required''], w)) }"

definition cmd_status :: "'w cli_api \<Rightarrow> 'w \<Rightarrow> (int \<times> console list \<times> 'w) option" where
  "cmd_status api w = do {
     (code, nodes, w1) \<leftarrow> cmd_list_nodes api w;
     Some (0, [Out ''XDevice Cluster Status'', Out ''======================'', Out [],
               Out (''Version: '' @ api_version api), Out [], Out ''Nodes:''] @ nodes @
              [Out [], Out ''Devices:''] @ cmd_list_devices, w1) }"

section \<open>The main program\<close>

datatype command =
    CREATE_DEVICE | DELETE_DEVICE | LIST_DEVICES | LIST_NODES | ADD_NODE | STATUS | UNKNOWN

definition command_of :: "string \<Rightarrow> command" where
  "command_of s =
     (if s = ''create-device'' then CREATE_DEVICE
      else if s = ''delete-device'' then DELETE_DEVICE
      else if s = ''list-devices'' then LIST_DEVICES
      else if s = ''list-nodes'' then LIST_NODES
      else if s = ''add-node'' then ADD_NODE
      else if s = ''status'' then STATUS
      else UNKNOWN)"

fun global_options ::
  "string \<Rightarrow> string \<Rightarrow> string \<Rightarrow> opt_event list \<Rightarrow> string \<Rightarrow> (int \<times> console list) + string" where
  "global_options prog version build [] server = Inr server"
| "global_options prog version build (Bad # es) server = Inl (1, [])"
| "global_options prog version build (Opt c arg # es) server =
     (if c = CHR ''s'' then global_options prog version build es (case arg of Some v \<Rightarrow> v | None \<Rightarrow> server)
      else if c = CHR ''h'' then Inl (0, show_help prog)
      else if c = CHR ''v'' then Inl (0, show_version version build)
      else global_options prog version build es server)"

definition run_command ::
  "'w cli_api \<Rightarrow> bool \<Rightarrow> string \<Rightarrow> string list \<Rightarrow> 'w \<Rightarrow> (int \<times> console list \<times> 'w) option" where
  "run_command api posixly prog argv w =
     (case command_of (hd argv) of
        CREATE_DEVICE \<Rightarrow> cmd_create_device api posixly argv w
      | DELETE_DEVICE \<Rightarrow> Some (cmd_delete_device api posixly argv w)
      | LIST_DEVICES \<Rightarrow> Some (0, cmd_list_devices, w)
      | LIST_NODES \<Rightarrow> cmd_list_nodes api w
      | ADD_NODE \<Rightarrow> cmd_add_node api posixly argv w
      | STATUS \<Rightarrow> cmd_status api w
      | UNKNOWN \<Rightarrow> Some (1, Err (''Error: Unknown command '' @ quoted (hd argv)) # show_help prog, w))"

definition cli_main ::
  "'w cli_api \<Rightarrow> bool \<Rightarrow> string \<Rightarrow> string list \<Rightarrow> 'w \<Rightarrow> (int \<times> console list \<times> 'w) option" where
  "cli_main api posixly build argv w =
     (case argv of
        [] \<Rightarrow> None
      | prog # args \<Rightarrow>
          if args = [] then Some (1, show_help prog, w)
          else
            (case getopt_long posixly ''s:hv''
                    [(''server'', required_argument, CHR ''s''), (''help'', no_argument, CHR ''h''),
                     (''version'', no_argument, CHR ''v'')] args of
               (events, rest) \<Rightarrow>
                 (case global_options prog (api_version api) build events ''localhost:8080'' of
                    Inl (code, out) \<Rightarrow> Some (code, out, w)
                  | Inr server \<Rightarrow>
                      if rest = [] then Some (1, Err ''Error: No command specified'' # show_help prog, w)
                      else
                        (case api_init api w of
                           (False, w1) \<Rightarrow> Some (1, [Err ''Error: Failed to initialize XDevice context''], w1)
                         | (True, w1) \<Rightarrow> do {
                             (result, out, w2) \<leftarrow> run_command api posixly prog rest w1;
                             Some (result, Out (''Connecting to server: '' @ server) # out, api_cleanup api w2) }))))"

section \<open>Parsing of sizes\<close>

lemma to_lower_letter:
  assumes "to_lower c \<in> {CHR ''k'', CHR ''m'', CHR ''g'', CHR ''t''}"
  shows "\<not> is_digit c \<and> c \<notin> set ''.eE'' \<and> to_lower c \<noteq> CHR ''x''"
proof -
  have "\<not> is_digit CHR ''k''" "\<not> is_digit CHR ''m''" "\<not> is_digit CHR ''g''" "\<not> is_digit CHR ''t''"
    "to_lower CHR ''.'' = CHR ''.''" "to_lower CHR ''e'' = CHR ''e''" "to_lower CHR ''E'' = CHR ''e''"
    by code_simp+
  then show ?thesis using assms digit_plain(2) [of c] by auto
qed

lemma unit_ends_number: "unit_exponent u = Some k \<Longrightarrow> ends_number u \<and> k \<le> 40"
proof (cases u)
  case (Cons c cs)
  assume "unit_exponent u = Some k"
  moreover have "to_lower CHR ''K'' = CHR ''k''" "to_lower CHR ''M'' = CHR ''m''" "to_lower CHR ''G'' = CHR ''g''"
      "to_lower CHR ''T'' = CHR ''t''"
    by code_simp+
  ultimately have "to_lower c \<in> {CHR ''k'', CHR ''m'', CHR ''g'', CHR ''t''}" and "k \<le> 40"
    by (auto simp: unit_exponent_def Cons same_nocase_Cons split: if_splits)
  then show ?thesis using to_lower_letter [of c] by (auto simp: ends_number_def Cons)
qed (simp add: unit_exponent_def ends_number_def)

lemma parse_size_value:
  assumes "n < 2 ^ 53" and k: "unit_exponent u = Some k"
  shows "parse_size_string (Some (dec_string n @ u)) =
    (if n * 2 ^ k < 2 ^ 64 then Some (of_nat (n * 2 ^ k)) else None)"
proof (cases "n = 0")
  case True
  have "strtod (dec_string n @ u) = (round_double False (int n) 1, u)"
    using unit_ends_number [OF k] by (intro strtod_dec_string) simp
  then show ?thesis using True by (simp add: parse_size_string_def round_double_def)
next
  case False
  have st: "strtod (dec_string n @ u) = (round_double False (int n) 1, u)"
    using unit_ends_number [OF k] by (intro strtod_dec_string) simp
  have "0 < int n" "int n < 2 ^ 53" using False assms(1) by simp_all
  then obtain m e where r: "round_double False (int n) 1 = Fin False m e" "e \<le> 0" "m = int n * 2 ^ nat (- e)"
      "2 ^ 52 \<le> m" "m < 2 ^ 53"
    by (rule round_double_exact)
  have "nbits m \<le> 53" using nbits_le [of m 53] r(4,5) by simp
  then have "times_pow2 (Fin False m e) k = Fin False m (e + int k)"
    using r(2) unit_ends_number [OF k] by simp
  moreover have ip: "int_part m (e + int k) = int (n * 2 ^ k)" using int_part_shift [OF r(3,2)] by simp
  moreover have "m \<noteq> 0" using r(4) by auto
  moreover have "(2 ^ 64 \<le> int (n * 2 ^ k)) = (\<not> n * 2 ^ k < 2 ^ 64)"
    by (metis not_less of_nat_le_iff of_nat_numeral of_nat_power)
  ultimately show ?thesis
    using k by (simp only: parse_size_string_def st r(1) option.case prod.case not_positive.simps to_u64.simps Let_def) simp
qed

section \<open>Display of sizes\<close>

lemma round_even_near:
  assumes "0 < d"
  shows "2 * \<bar>round_even n d * d - n\<bar> \<le> d"
proof -
  define q r where "q = n div d" and "r = n mod d"
  have n: "n = q * d + r" by (simp add: q_def r_def)
  have r: "0 \<le> r" "r < d" using assms by (simp_all add: r_def)
  have "round_even n d = q \<and> 2 * r \<le> d \<or> round_even n d = q + 1 \<and> d \<le> 2 * r"
    by (auto simp: round_even_def Let_def q_def r_def)
  moreover have "q * d - n = - r" "(q + 1) * d - n = d - r" by (simp_all add: n algebra_simps)
  ultimately show ?thesis using r by auto
qed

lemma hundredths_near:
  assumes "e \<le> 0" and "m = n * 2 ^ nat (- e)" and "0 \<le> n"
  shows "0 \<le> hundredths m e k \<and> 2 * \<bar>hundredths m e k * 2 ^ k - 100 * n\<bar> \<le> 2 ^ k"
proof -
  let ?h = "hundredths m e k" and ?p = "2 ^ nat (- e) :: int"
  have "nat (int k - e) = k + nat (- e)" using assms(1) by linarith
  then have pk: "(2 :: int) ^ nat (int k - e) = 2 ^ k * ?p" by (simp add: power_add)
  have h: "?h = round_even (100 * m) (2 ^ k * ?p)"
    using assms(1) pk by (simp add: hundredths_def scale_frac_def)
  have "2 * \<bar>?h * (2 ^ k * ?p) - 100 * m\<bar> \<le> 2 ^ k * ?p"
    unfolding h by (rule round_even_near) simp
  moreover have "?h * (2 ^ k * ?p) - 100 * m = (?h * 2 ^ k - 100 * n) * ?p"
    by (simp add: assms(2) algebra_simps)
  ultimately have "(2 * \<bar>?h * 2 ^ k - 100 * n\<bar>) * ?p \<le> 2 ^ k * ?p" by (simp add: abs_mult)
  then have near: "2 * \<bar>?h * 2 ^ k - 100 * n\<bar> \<le> 2 ^ k" by (rule mult_right_le_imp_le) simp
  have "0 \<le> (100 * m) div (2 ^ k * ?p)" using assms by (intro div_int_pos_iff [THEN iffD2]) simp
  then have "0 \<le> ?h" unfolding h by (simp add: round_even_def Let_def)
  with near show ?thesis by simp
qed

lemma length_two_places: "h < 10 ^ 15 \<Longrightarrow> length (two_places h) \<le> 16"
  using length_dec_string [of "h div 100" 12] by (simp add: two_places_def)

lemma show_unit_near:
  assumes "0 < uint bytes" and "uint bytes < 2 ^ 53" and "10 \<le> k"
  obtains h where "show_unit bytes k u = two_places h @ u" and "2 * \<bar>int h * 2 ^ k - 100 * uint bytes\<bar> \<le> 2 ^ k"
    and "h < 10 ^ 15"
proof -
  obtain m e where r: "round_double False (uint bytes) 1 = Fin False m e" "e \<le> 0"
      "m = uint bytes * 2 ^ nat (- e)"
    by (rule round_double_exact [OF assms(1,2)])
  have h: "0 \<le> hundredths m e k" "2 * \<bar>hundredths m e k * 2 ^ k - 100 * uint bytes\<bar> \<le> 2 ^ k"
    using hundredths_near [OF r(2,3)] assms(1) by auto
  have "uint bytes < 9007199254740992" using assms(2) by simp
  moreover have "x \<le> p" if "2 * \<bar>x\<bar> \<le> p" for x p :: int using that by linarith
  from this [OF h(2)] have "hundredths m e k * 2 ^ k \<le> 100 * uint bytes + 2 ^ k" by simp
  ultimately have "hundredths m e k * 2 ^ k \<le> 900719925474099200 + 2 ^ k" by linarith
  moreover have "1024 \<le> (2 :: int) ^ k" using power_increasing [OF assms(3), of "2 :: int"] by simp
  ultimately have "hundredths m e k * 2 ^ k \<le> 879609302220800 * 2 ^ k + 2 ^ k" by linarith
  then have "hundredths m e k * 2 ^ k \<le> (879609302220800 + 1) * 2 ^ k" by (simp only: distrib_right mult_1)
  then have "hundredths m e k \<le> 879609302220800 + 1" by (rule mult_right_le_imp_le) simp
  then have "nat (hundredths m e k) < 10 ^ 15" by simp
  then show thesis
    using r(1) h by (intro that [of "nat (hundredths m e k)"]) (simp_all add: show_unit_def)
qed

definition size_units :: "(nat \<times> string) list" where
  "size_units = [(40, '' TB''), (30, '' GB''), (20, '' MB''), (10, '' KB'')]"

lemma format_size_near:
  assumes "2 ^ 10 \<le> uint bytes" and "uint bytes < 2 ^ 53" and "32 \<le> buffer_size"
  obtains h k u where "(k, u) \<in> set size_units" and "2 ^ k \<le> uint bytes" and "uint bytes < 2 ^ (k + 10) \<or> k = 40"
    and "format_size bytes buffer_size = two_places h @ u"
    and "2 * \<bar>int h * 2 ^ k - 100 * uint bytes\<bar> \<le> 2 ^ k"
proof -
  have ge: "(2 ^ 40 \<le> bytes) = (2 ^ 40 \<le> uint bytes)" "(2 ^ 30 \<le> bytes) = (2 ^ 30 \<le> uint bytes)"
    "(2 ^ 20 \<le> bytes) = (2 ^ 20 \<le> uint bytes)" "(2 ^ 10 \<le> bytes) = (2 ^ 10 \<le> uint bytes)"
    by (simp_all add: word_le_def)
  obtain k u where ku: "(k, u) \<in> set size_units" "2 ^ k \<le> uint bytes" "uint bytes < 2 ^ (k + 10) \<or> k = 40" "10 \<le> k" "length u = 3"
      "format_size bytes buffer_size = c_snprintf buffer_size (show_unit bytes k u)"
  proof -
    consider "2 ^ 40 \<le> uint bytes" | "\<not> 2 ^ 40 \<le> uint bytes" "2 ^ 30 \<le> uint bytes"
      | "\<not> 2 ^ 40 \<le> uint bytes" "\<not> 2 ^ 30 \<le> uint bytes" "2 ^ 20 \<le> uint bytes"
      | "\<not> 2 ^ 40 \<le> uint bytes" "\<not> 2 ^ 30 \<le> uint bytes" "\<not> 2 ^ 20 \<le> uint bytes"
      by blast
    then show thesis
    proof cases
      case 1 show ?thesis by (rule that [of 40 "'' TB''"]) (use 1 ge in \<open>simp_all add: size_units_def format_size_def\<close>)
    next
      case 2 show ?thesis by (rule that [of 30 "'' GB''"]) (use 2 ge in \<open>simp_all add: size_units_def format_size_def\<close>)
    next
      case 3 show ?thesis by (rule that [of 20 "'' MB''"]) (use 3 ge in \<open>simp_all add: size_units_def format_size_def\<close>)
    next
      case 4 show ?thesis by (rule that [of 10 "'' KB''"]) (use 4 ge assms(1) in \<open>simp_all add: size_units_def format_size_def\<close>)
    qed
  qed
  obtain h where h: "show_unit bytes k u = two_places h @ u"
      "2 * \<bar>int h * 2 ^ k - 100 * uint bytes\<bar> \<le> 2 ^ k" "h < 10 ^ 15"
    by (rule show_unit_near [of bytes k u]) (use assms ku(4) in auto)
  have "length (two_places h @ u) < buffer_size" using length_two_places [OF h(3)] ku(5) assms(3) by simp
  then show thesis using that [OF ku(1,2,3) _ h(2)] ku(6) h(1) by simp
qed

text \<open>A displayed size, read as a number, stops before the space in front of the unit.\<close>

lemma strtod_two_places:
  assumes "u = CHR '' '' # cs"
  shows "\<exists>x. strtod (two_places h @ u) = (x, u)"
proof -
  let ?ip = "dec_string (h div 100)" and ?fp = "[dec_digit (h div 10 mod 10), dec_digit (h mod 10)]"
  have fp: "list_all is_digit ?fp" by (simp add: dec_digit_facts)
  have facts: "\<not> is_digit CHR ''.''" "\<not> is_digit CHR '' ''" "to_lower CHR ''.'' = CHR ''.''" by code_simp+
  have u: "u = [] \<or> \<not> is_digit (hd u)" using facts assms by simp
  note s1 = span_digits [OF dec_string_digits, of "CHR ''.'' # ?fp @ u" "h div 100"]
  note s2 = span_digits [OF fp u]
  have ex: "scan_exponent ''eE'' u = (0, u)" using assms by (intro scan_exponent_none) simp
  have "scan_number is_digit 10 ''eE'' (?ip @ CHR ''.'' # ?fp @ u) =
      Some (digits_val 10 (?ip @ ?fp), 2, 0, u)"
    using s1 s2 facts ex by (simp add: scan_number_def Let_def)
  then show ?thesis
    using strtod_digits [OF dec_string_digits, of "h div 100" "CHR ''.'' # ?fp @ u"] facts
    by (simp add: two_places_def)
qed

section \<open>Options behind the command\<close>

lemma cmd_without_options:
  assumes "list_all (\<lambda>a. \<not> is_option a) argv"
  shows "cmd_create_device api posixly argv w = Some (1, [Err ''Error: Both --name and --size are required''], w)"
    and "cmd_delete_device api posixly argv w = (1, [Err ''Error: --name is required''], w)"
    and "cmd_add_node api posixly argv w = Some (1, [Err ''Error: Both --id and --address are required''], w)"
proof -
  have "list_all (\<lambda>a. \<not> is_option a) (tl argv)" using assms by (cases argv) auto
  then have "getopt_long posixly opts table (tl argv) = ([], tl argv)" for opts table by (rule getopt_long_plain)
  then show "cmd_create_device api posixly argv w = Some (1, [Err ''Error: Both --name and --size are required''], w)"
    "cmd_delete_device api posixly argv w = (1, [Err ''Error: --name is required''], w)"
    "cmd_add_node api posixly argv w = Some (1, [Err ''Error: Both --id and --address are required''], w)"
    by (simp_all add: cmd_create_device_def cmd_delete_device_def cmd_add_node_def)
qed

lemma cmd_list_nodes_update [simp]:
  "cmd_list_nodes (api\<lparr>api_create_device := f, api_delete_device := g, api_add_node := h\<rparr>) w = cmd_list_nodes api w"
  "cmd_status (api\<lparr>api_create_device := f, api_delete_device := g, api_add_node := h\<rparr>) w = cmd_status api w"
  by (simp_all add: cmd_status_def cmd_list_nodes_def)

lemma run_command_plain:
  assumes "list_all (\<lambda>a. \<not> is_option a) argv"
  shows "run_command (api\<lparr>api_create_device := f, api_delete_device := g, api_add_node := h\<rparr>) posixly prog argv w =
    run_command api posixly prog argv w"
  by (cases "command_of (hd argv)") (simp_all add: run_command_def cmd_without_options [OF assms])

text \<open>An interface that counts its calls, with one node.\<close>

definition demo_api :: "nat cli_api" where
  "demo_api = \<lparr>api_version = ''1.0.0'', api_init = (\<lambda>w. (True, w + 1)),
     api_create_device = (\<lambda>w name size. (0, w + 10)), api_delete_device = (\<lambda>w name. (- 7, w + 10)),
     api_get_nodes = (\<lambda>w count. (0, [Some \<lparr>ni_node_id = ''node1'', ni_address = ''10.0.0.1'', ni_port = 8080,
        ni_state = XDEVICE_NODE_LEADER, ni_last_heartbeat = 5, ni_term = 1\<rparr>], 1, w)),
     api_add_node = (\<lambda>w nid address port. (0, w + 10)), api_cleanup = (\<lambda>w. w + 100)\<rparr>"

section \<open>Properties of the client\<close>

text \<open>What the suffixes mean, in lower case: bytes, and powers of 1024.\<close>

definition size_suffixes :: "(string \<times> nat) list" where
  "size_suffixes = [([], 1), (''k'', 1024), (''kb'', 1024), (''m'', 1048576), (''mb'', 1048576),
     (''g'', 1073741824), (''gb'', 1073741824), (''t'', 1099511627776), (''tb'', 1099511627776)]"

lemma suffix_exponent:
  assumes "(map to_lower u, f) \<in> set size_suffixes"
  obtains k where "unit_exponent u = Some k" and "f = 2 ^ k"
proof -
  have low: "map to_lower ''KB'' = ''kb''" "map to_lower ''K'' = ''k''" "map to_lower ''MB'' = ''mb''" "map to_lower ''M'' = ''m''"
    "map to_lower ''GB'' = ''gb''" "map to_lower ''G'' = ''g''" "map to_lower ''TB'' = ''tb''" "map to_lower ''T'' = ''t''"
    by code_simp+
  have "\<exists>k. unit_exponent u = Some k \<and> f = 2 ^ k"
    using assms unfolding size_suffixes_def unit_exponent_def same_nocase_def low by (auto)
  then show thesis using that by blast
qed

text \<open>Property C25.  The size parser is exact on decimal integers below \<open>2 ^ 53\<close> with each of the documented
  suffixes, in upper or lower case: it returns the number times 1, 1024, \<open>1024 ^ 2\<close>, \<open>1024 ^ 3\<close> or
  \<open>1024 ^ 4\<close>, except that the conversion is undefined when the product does not fit into 64 bits.\<close>

theorem parse_size_exact:
  assumes "n < 2 ^ 53" and "(map to_lower u, f) \<in> set size_suffixes"
  shows "parse_size_string (Some (dec_string n @ u)) = (if n * f < 2 ^ 64 then Some (of_nat (n * f)) else None)"
proof -
  obtain k where k: "unit_exponent u = Some k" "f = 2 ^ k" by (rule suffix_exponent [OF assms(2)])
  show ?thesis unfolding k(2) by (rule parse_size_value [OF assms(1) k(1)])
qed

theorem parse_size_exact_witness:
  "parse_size_string (Some (dec_string 512 @ ''mB'')) = Some 536870912 \<and>
   parse_size_string (Some (dec_string 16777216 @ ''TB'')) = None"
proof -
  have "map to_lower ''mB'' = ''mb''" "map to_lower ''TB'' = ''tb''" by code_simp+
  then have u: "(map to_lower ''mB'', 1048576) \<in> set size_suffixes" "(map to_lower ''TB'', 1099511627776) \<in> set size_suffixes"
    by (simp_all only: size_suffixes_def) simp_all
  show ?thesis using parse_size_exact [OF _ u(1), of 512] parse_size_exact [OF _ u(2), of 16777216] by simp
qed

text \<open>Property C26.  From 1024 up to \<open>2 ^ 53\<close> bytes the displayed size is in the largest unit that the size
  reaches, and it is the size rounded to two decimals of that unit: at most half a hundredth of it away from
  the exact value.\<close>

theorem format_size_accurate:
  assumes "2 ^ 10 \<le> uint bytes" and "uint bytes < 2 ^ 53" and "32 \<le> buffer_size"
  shows "\<exists>h k u. (k, u) \<in> set [(40, '' TB''), (30, '' GB''), (20, '' MB''), (10, '' KB'')] \<and>
    2 ^ k \<le> uint bytes \<and> (uint bytes < 2 ^ (k + 10) \<or> k = 40) \<and>
    format_size bytes buffer_size = two_places h @ u \<and>
    2 * \<bar>int h * 2 ^ k - 100 * uint bytes\<bar> \<le> 2 ^ k"
proof -
  obtain h k u where "(k, u) \<in> set size_units" "2 ^ k \<le> uint bytes" "uint bytes < 2 ^ (k + 10) \<or> k = 40"
      "format_size bytes buffer_size = two_places h @ u" "2 * \<bar>int h * 2 ^ k - 100 * uint bytes\<bar> \<le> 2 ^ k"
    by (rule format_size_near [OF assms])
  then show ?thesis unfolding size_units_def by blast
qed

theorem format_size_accurate_witness:
  "\<exists>h k u. (k, u) \<in> set [(40, '' TB''), (30, '' GB''), (20, '' MB''), (10, '' KB'')] \<and>
    2 ^ k \<le> (1536 :: int) \<and> ((1536 :: int) < 2 ^ (k + 10) \<or> k = 40) \<and> format_size 1536 32 = two_places h @ u \<and>
    2 * \<bar>int h * 2 ^ k - 100 * 1536\<bar> \<le> 2 ^ k"
  using format_size_accurate [of 1536 32] by (simp del: set_simps)

text \<open>Fact.  The client does not read the sizes that it displays: a displayed size, given back as
  the size of a new device, is refused (as zero), because of the space in front of its unit.\<close>

theorem format_size_not_parsed:
  assumes "2 ^ 10 \<le> uint bytes" and "uint bytes < 2 ^ 53" and "32 \<le> buffer_size"
  shows "parse_size_string (Some (format_size bytes buffer_size)) = Some 0"
proof -
  obtain h k u where f: "(k, u) \<in> set size_units" "format_size bytes buffer_size = two_places h @ u"
    by (rule format_size_near [OF assms])
  have none: "\<forall>u \<in> set (map snd size_units). unit_exponent u = None" by code_simp
  have u: "unit_exponent u = None" "\<exists>cs. u = CHR '' '' # cs"
    using f(1) none by (force simp: size_units_def)+
  then obtain x where "strtod (two_places h @ u) = (x, u)" using strtod_two_places by blast
  then show ?thesis using u(1) by (simp add: parse_size_string_def f(2))
qed

theorem format_size_not_parsed_witness: "parse_size_string (Some (format_size 1073741824 32)) = Some 0"
  using format_size_not_parsed [of 1073741824 32] by simp

text \<open>Property C23.  The options of a command are never reached: with the argument order of the C library
  the main program reads all options itself and refuses those it does not know, so that without an
  argument \<open>--\<close> no command line can create or delete a device or add a node, whatever these functions
  would do.  The documented \<open>create-device --name=wal-device --size=1GB\<close> ends with exit code 1.\<close>

theorem cli_options_never_reach:
  assumes "''--'' \<notin> set argv"
  shows "cli_main (api\<lparr>api_create_device := f, api_delete_device := g, api_add_node := h\<rparr>) False build argv w =
    cli_main api False build argv w"
proof (cases argv)
  case Nil
  then show ?thesis by (simp add: cli_main_def)
next
  case (Cons prog args)
  let ?table = "[(''server'', required_argument, CHR ''s''), (''help'', no_argument, CHR ''h''), (''version'', no_argument, CHR ''v'')]"
  obtain events rest where g: "getopt_long False ''s:hv'' ?table args = (events, rest)" by fastforce
  have "list_all (\<lambda>a. \<not> is_option a) rest"
    using getopt_long_rest_plain [OF g] assms Cons by simp
  then show ?thesis
    using g by (simp add: cli_main_def Cons run_command_plain split: sum.split prod.split bool.split)
qed

theorem cli_options_never_reach_witness:
  "cli_main (demo_api\<lparr>api_create_device := \<lambda>w name size. (0, 77), api_delete_device := \<lambda>w name. (0, 78),
      api_add_node := \<lambda>w nid address port. (0, 79)\<rparr>) False ''today''
     [''xdevice-cli'', ''create-device'', ''--name=wal-device'', ''--size=1GB''] 0 = Some (1, [], 0)"
proof -
  have "''--'' \<notin> set [''xdevice-cli'', ''create-device'', ''--name=wal-device'', ''--size=1GB'']" by simp
  moreover have "cli_main demo_api False ''today''
     [''xdevice-cli'', ''create-device'', ''--name=wal-device'', ''--size=1GB''] 0 = Some (1, [], 0)"
    by code_simp
  ultimately show ?thesis by (subst cli_options_never_reach) auto
qed

text \<open>Property C24.  Behind \<open>--\<close> the command works: \<open>create-device --name=N --size=S\<close> with a size that the
  parser accepts calls \<open>xdevice_create_device\<close> once, with the name and the number of bytes, between
  initialisation and cleanup, and its result is the exit code.\<close>

theorem cli_create_device_calls:
  assumes "parse_size_string (Some s) = Some n" and "n \<noteq> 0" and "api_init api w = (True, w1)"
    and "api_create_device api w1 name n = (err, w2)"
  shows "\<exists>out. cli_main api posixly build [prog, ''--'', ''create-device'', ''--name='' @ name, ''--size='' @ s] w =
    Some (if err = 0 then 0 else 1, out, api_cleanup api w2)"
proof -
  have opts: "getopt_long posixly ''n:s:h'' [(''name'', required_argument, CHR ''n''), (''size'', required_argument, CHR ''s''),
      (''help'', no_argument, CHR ''h'')] [''--name='' @ name, ''--size='' @ s] =
      ([Opt (CHR ''n'') (Some name), Opt (CHR ''s'') (Some s)], [])"
    by (simp add: is_option_def argument_events_def long_argument_def find_long_def)
  have cmd: "command_of ''create-device'' = CREATE_DEVICE" by (simp add: command_of_def)
  show ?thesis
    using assms opts
    by (auto simp: cli_main_def run_command_def cmd cmd_create_device_def Let_def)
qed

theorem cli_create_device_calls_witness:
  "\<exists>out. cli_main demo_api False ''today'' [''xdevice-cli'', ''--'', ''create-device'', ''--name='' @ ''wal'', ''--size='' @ ''1.5GB''] 0 =
    Some (0, out, 111)"
proof -
  have "parse_size_string (Some ''1.5GB'') = Some 1610612736" by code_simp
  then show ?thesis
    using cli_create_device_calls [of "''1.5GB''" 1610612736 demo_api 0 1 "''wal''" 0 11 False "''today''" "''xdevice-cli''"]
    by (simp add: demo_api_def)
qed

end
