(* ===== verification/XD_Node.thy ===== *)
theory XD_Node
  imports XD_Cli XD_RaftRun
begin

text \<open>
  The node program \<open>src/main/node_main.c\<close>: its options, the start of its parts and their release on every
  path, the main loop, and the callbacks it installs.  The context functions of \<open>include/xdevice.h\<close> and
  the network server have no implementation in the repository; they are the record \<open>node_api\<close>, over a
  state \<open>'w\<close>; so are the effects of the calls of the operating system that \<open>raft.c\<close> makes for the memory,
  the mutex and the threads of the Raft node.  The Raft node is the one of theory \<open>XD_Raft\<close>, its threads
  run as in \<open>XD_RaftRun\<close>.
\<close>

text \<open>What the program acquires and releases; thread 0 is the election thread, thread 1 that of the
  heartbeats.\<close>

datatype resource = Context | Server | Listening | Raft_memory | Log_memory | Raft_mutex | Raft_thread nat

record 'w node_api =
  node_version :: string
  ctx_init :: "'w \<Rightarrow> string option \<Rightarrow> bool \<times> 'w"
  ctx_cleanup :: "'w \<Rightarrow> 'w"
  server_create :: "'w \<Rightarrow> u16 \<Rightarrow> bool \<times> 'w"
  server_start :: "'w \<Rightarrow> int \<times> 'w"
  server_stop :: "'w \<Rightarrow> 'w"
  server_destroy :: "'w \<Rightarrow> 'w"
  os_acquire :: "resource \<Rightarrow> bool \<Rightarrow> 'w \<Rightarrow> 'w"
  os_release :: "resource \<Rightarrow> 'w \<Rightarrow> 'w"
  keeps_handle :: bool

section \<open>Callbacks\<close>

text \<open>The handler of \<open>SIGINT\<close> and \<open>SIGTERM\<close>; the second component is the new value of \<open>g_running\<close>.\<close>

definition signal_handler :: "int \<Rightarrow> console list \<times> bool" where
  "signal_handler sig = ([Out [], Out (''Received signal '' @ dec_int sig @ '', shutting down...'')], False)"

text \<open>\<open>info\<close> is the answer of \<open>xdevice_network_get_connection_info\<close>: code, address and port.\<close>

definition on_connection :: "int \<times> string \<times> u16 \<Rightarrow> console list" where
  "on_connection info = (case info of (err, remote_addr, remote_port) \<Rightarrow>
     if err = 0 then [Out (''New connection from '' @ remote_addr @ '':'' @ dec_string (unat remote_port))] else [])"

definition on_disconnection :: "int \<times> string \<times> u16 \<Rightarrow> console list" where
  "on_disconnection info = (case info of (err, remote_addr, remote_port) \<Rightarrow>
     if err = 0 then [Out (''Connection closed from '' @ remote_addr @ '':'' @ dec_string (unat remote_port))] else [])"

definition on_data_received :: "byte list \<Rightarrow> u64 \<Rightarrow> console list \<times> u64" where
  "on_data_received data len = ([Out (''Received '' @ dec_string (unat len) @ '' bytes of data'')], len)"

definition on_network_error :: "int \<Rightarrow> console list" where
  "on_network_error err = [Out (''Network error: '' @ dec_int err)]"

definition apply_log_entry :: "raft_log_entry \<Rightarrow> console list \<times> xdevice_error" where
  "apply_log_entry entry = ([Out (''Applying log entry '' @ dec_string (unat (e_index entry)))], XDEVICE_OK)"

definition on_leader_changed :: "string option \<Rightarrow> console list" where
  "on_leader_changed leader_id = [Out (''Leader changed to: '' @ (case leader_id of Some s \<Rightarrow> s | None \<Rightarrow> ''none''))]"

definition on_state_changed :: "xdevice_node_state \<Rightarrow> xdevice_node_state \<Rightarrow> console list" where
  "on_state_changed old_state new_state =
     [Out (''State changed from '' @ state_name old_state @ '' to '' @ state_name new_state)]"

section \<open>Options\<close>

record node_config =
  config_file :: "string option"
  port :: u16
  node_name :: string
  data_dir :: string

definition default_config :: node_config where
  "default_config = \<lparr>config_file = None, port = 8080, node_name = ''node1'', data_dir = ''./data''\<rparr>"

definition node_help :: "string \<Rightarrow> console list" where
  "node_help program_name =
    [Out (''Usage: '' @ program_name @ '' [OPTIONS]''),
     Out [],
     Out ''Options:'',
     Out ''  -c, --config FILE    Configuration file path'',
     Out ''  -p, --port PORT      Listen port (default: 8080)'',
     Out ''  -i, --id ID          Node ID (default: node1)'',
     Out ''  -d, --data-dir DIR   Data directory (default: ./data)'',
     Out ''  -h, --help           Show this help message'',
     Out ''  -v, --version        Show version information'',
     Out [],
     Out ''Examples:'',
     Out (''  '' @ program_name @ '' --config /etc/xdevice/node.conf''),
     Out (''  '' @ program_name @ '' --port 9090 --id node2 --data-dir /var/lib/xdevice'')]"

definition node_show_version :: "string \<Rightarrow> string \<Rightarrow> console list" where
  "node_show_version version build = [Out (''XDevice Node Server '' @ version), Out (''Built on '' @ build),
     Out ''Copyright (C) 2024 XDevice Project'']"

text \<open>The option loop; any other answer of \<open>getopt_long\<close> would \<open>abort\<close> (exit status 134).\<close>

fun node_options ::
  "string \<Rightarrow> string \<Rightarrow> string \<Rightarrow> opt_event list \<Rightarrow> node_config \<Rightarrow> ((int \<times> console list) + node_config) option" where
  "node_options prog version build [] cfg = Some (Inr cfg)"
| "node_options prog version build (Bad # es) cfg =
     Some (Inl (1, [Err (''Try '' @ quoted (prog @ '' --help'') @ '' for more information.'')]))"
| "node_options prog version build (Opt c arg # es) cfg =
     (if c = CHR ''c'' then node_options prog version build es (cfg\<lparr>config_file := arg\<rparr>)
      else if c = CHR ''p'' then do {
        s \<leftarrow> arg;
        n \<leftarrow> atoi s;
        node_options prog version build es (cfg\<lparr>port := of_int n\<rparr>) }
      else if c = CHR ''i'' then do { s \<leftarrow> arg; node_options prog version build es (cfg\<lparr>node_name := s\<rparr>) }
      else if c = CHR ''d'' then do { s \<leftarrow> arg; node_options prog version build es (cfg\<lparr>data_dir := s\<rparr>) }
      else if c = CHR ''h'' then Some (Inl (0, node_help prog))
      else if c = CHR ''v'' then Some (Inl (0, node_show_version version build))
      else Some (Inl (134, [])))"

definition node_option_table :: "long_option list" where
  "node_option_table =
    [(''config'', required_argument, CHR ''c''), (''port'', required_argument, CHR ''p''),
     (''id'', required_argument, CHR ''i''), (''data-dir'', required_argument, CHR ''d''),
     (''help'', no_argument, CHR ''h''), (''version'', no_argument, CHR ''v'')]"

section \<open>The threads of the Raft node\<close>

text \<open>The two thread handles of the node structure, zero as long as no thread was created.  POSIX leaves the
  handle undefined when the creation fails; \<open>keeps_handle\<close> says that the implementation leaves it
  alone.\<close>

datatype thread = No_thread | Started | Joined | Stray

text \<open>The handles after \<open>xdevice_raft_start_node\<close>, which joins the election thread itself when the second
  thread cannot be created.\<close>

definition started_threads :: "'n raft_env \<Rightarrow> bool \<Rightarrow> thread \<times> thread" where
  "started_threads e keeps =
     (let failed = (if keeps then No_thread else Stray)
      in if \<not> r_thread e 0 then (failed, No_thread)
         else if \<not> r_thread e 1 then (Joined, failed)
         else (Started, Started))"

text \<open>\<open>xdevice_raft_destroy_node\<close> joins every thread whose handle is not zero; joining a thread twice, or
  what is not a thread, is undefined.\<close>

definition join_threads :: "thread \<times> thread \<Rightarrow> unit option" where
  "join_threads ts = (if set [fst ts, snd ts] \<subseteq> {No_thread, Started} then Some () else None)"

text \<open>What the three functions of \<open>raft.c\<close> do to the rest of the process: the node structure, the array of
  entries, the mutex, the two threads.  The flag of \<open>os_acquire\<close> says whether the call succeeded.\<close>

definition create_raft :: "'n raft_env \<Rightarrow> 'w node_api \<Rightarrow> 'w \<Rightarrow> 'w" where
  "create_raft e api w =
     (let w1 = os_acquire api Raft_memory (r_alloc e 0) w
      in if \<not> r_alloc e 0 then w1
         else (let w2 = os_acquire api Log_memory (r_alloc e 1) w1
               in if \<not> r_alloc e 1 then os_release api Raft_memory w2
                  else (let w3 = os_acquire api Raft_mutex (r_mutex e) w2
                        in if \<not> r_mutex e then os_release api Raft_memory (os_release api Log_memory w3)
                           else w3)))"

definition start_raft :: "'n raft_env \<Rightarrow> 'w node_api \<Rightarrow> 'w \<Rightarrow> 'w" where
  "start_raft e api w =
     (let w1 = os_acquire api (Raft_thread 0) (r_thread e 0) w
      in if \<not> r_thread e 0 then w1
         else (let w2 = os_acquire api (Raft_thread 1) (r_thread e 1) w1
               in if \<not> r_thread e 1 then os_release api (Raft_thread 0) w2 else w2))"

definition destroy_raft :: "'w node_api \<Rightarrow> thread \<times> thread \<Rightarrow> 'w \<Rightarrow> 'w option" where
  "destroy_raft api ts w = do {
     _ \<leftarrow> join_threads ts;
     let w1 = (if fst ts = No_thread then w else os_release api (Raft_thread 0) w);
     let w2 = (if snd ts = No_thread then w1 else os_release api (Raft_thread 1) w1);
     Some (os_release api Raft_memory (os_release api Log_memory (os_release api Raft_mutex w2))) }"

section \<open>Start and stop\<close>

text \<open>The last three calls of every path on which the server was started.\<close>

definition release_server :: "'w node_api \<Rightarrow> 'w \<Rightarrow> 'w" where
  "release_server api w = ctx_cleanup api (server_destroy api (server_stop api w))"

definition node_start ::
  "'n raft_env \<Rightarrow> 'w node_api \<Rightarrow> node_config \<Rightarrow> 'w
     \<Rightarrow> ((int \<times> console list \<times> 'w) + ('n raft_node \<times> console list \<times> 'w)) option" where
  "node_start e api cfg w =
     (let hello = [Out ''Starting XDevice node server...'', Out (''Node ID: '' @ node_name cfg),
                   Out (''Port: '' @ dec_string (unat (port cfg))), Out (''Data directory: '' @ data_dir cfg)]
      in case ctx_init api w (config_file cfg) of
           (False, w1) \<Rightarrow> Some (Inl (1, hello @ [Err ''Failed to initialize XDevice context''], w1))
         | (True, w1) \<Rightarrow>
             (case server_create api w1 (port cfg) of
                (False, w2) \<Rightarrow> Some (Inl (1, hello @ [Err ''Failed to create network server''], ctx_cleanup api w2))
              | (True, w2) \<Rightarrow>
                  (case server_start api w2 of
                     (err, w3) \<Rightarrow>
                       if err \<noteq> 0 then
                         Some (Inl (1, hello @ [Err (''Failed to start network server: '' @ dec_int err)],
                           ctx_cleanup api (server_destroy api w3)))
                       else
                         (let w4 = create_raft e api w3
                          in case xdevice_raft_create_node e (Some (node_name cfg)) of
                            None \<Rightarrow> Some (Inl (1, hello @ [Err ''Failed to create Raft node''], release_server api w4))
                          | Some node \<Rightarrow>
                              (let w5 = start_raft e api w4
                               in case xdevice_raft_start_node e (Some node) (Some node_main_callbacks) of
                                 (XDEVICE_OK, Some node1) \<Rightarrow>
                                   Some (Inr (node1, hello @ [Out ''XDevice node server started successfully'',
                                     Out ''Press Ctrl+C to stop the server''], w5))
                               | (_, _) \<Rightarrow> do {
                                   w6 \<leftarrow> destroy_raft api (started_threads e (keeps_handle api)) w5;
                                   Some (Inl (1, hello @ [Err (''Failed to start Raft node: '' @ dec_int (- 1))],
                                     release_server api w6)) })))))"

text \<open>The loop tests \<open>g_running\<close> once a second; \<open>nodes t\<close> is the Raft node when it looks at its state.
  The result is the number of rounds.\<close>

partial_function (option) main_loop :: "(nat \<Rightarrow> bool) \<Rightarrow> (nat \<Rightarrow> 'n raft_node) \<Rightarrow> nat \<Rightarrow> nat option" where
  "main_loop g_running nodes t =
     (if g_running t then
        (if xdevice_raft_get_state (Some (nodes t)) = XDEVICE_NODE_LEADER then main_loop g_running nodes (t + 1)
         else main_loop g_running nodes (t + 1))
      else Some t)"

text \<open>The whole program; \<open>None\<close> is undefined behaviour or a run without end.\<close>

definition node_main ::
  "'n raft_env \<Rightarrow> 'w node_api \<Rightarrow> bool \<Rightarrow> string \<Rightarrow> string list \<Rightarrow> (nat \<Rightarrow> bool) \<Rightarrow> (nat \<Rightarrow> 'n raft_node) \<Rightarrow> 'w
     \<Rightarrow> (int \<times> console list \<times> 'w) option" where
  "node_main e api posixly build argv g_running nodes w = do {
     opts \<leftarrow> node_options (hd (argv @ [[]])) (node_version api) build
       (fst (getopt_long posixly ''c:p:i:d:hv'' node_option_table (tl argv))) default_config;
     (case opts of
        Inl (code, out) \<Rightarrow> Some (code, out, w)
      | Inr cfg \<Rightarrow> do {
          r \<leftarrow> node_start e api cfg w;
          (case r of
             Inl stop \<Rightarrow> Some stop
           | Inr (node, out, w1) \<Rightarrow> do {
               t \<leftarrow> main_loop g_running nodes 0;
               w2 \<leftarrow> destroy_raft api (started_threads e (keeps_handle api)) w1;
               Some (0, out @ [Out ''Shutting down server...'', Out ''Server stopped''], release_server api w2) }) }) }"

section \<open>The main loop\<close>

lemma main_loop_eq:
  "main_loop g_running nodes t = (if g_running t then main_loop g_running nodes (Suc t) else Some t)"
  by (subst main_loop.simps) simp

text \<open>The loop ends in the first round that finds \<open>g_running\<close> cleared.\<close>

lemma main_loop_returns:
  assumes "\<not> g_running (t + k)"
  shows "\<exists>r. main_loop g_running nodes t = Some r \<and> t \<le> r \<and> r \<le> t + k \<and> \<not> g_running r \<and>
    (\<forall>s \<in> {t..<r}. g_running s)"
  using assms
proof (induction k arbitrary: t)
  case 0
  then show ?case by (simp add: main_loop_eq [of g_running nodes t])
next
  case (Suc k)
  show ?case
  proof (cases "g_running t")
    case False
    then show ?thesis by (simp add: main_loop_eq [of g_running nodes t])
  next
    case True
    from Suc.IH [of "Suc t"] Suc.prems obtain r where "main_loop g_running nodes (Suc t) = Some r" "Suc t \<le> r"
        "r \<le> Suc t + k" "\<not> g_running r" "\<forall>s \<in> {Suc t..<r}. g_running s" by auto
    with True show ?thesis
      by (intro exI [of _ r]) (auto simp: main_loop_eq [of g_running nodes t] le_less Suc_le_eq)
  qed
qed

lemma main_loop_result: "main_loop g_running nodes t = Some r \<Longrightarrow> \<not> g_running r"
  by (rule main_loop.raw_induct [where P = "\<lambda>g _ _ r. \<not> g r"]) (auto split: if_splits)

lemma main_loop_iff: "(\<exists>r. main_loop g_running nodes 0 = Some r) \<longleftrightarrow> (\<exists>t. \<not> g_running t)"
  using main_loop_returns [of g_running 0 _ nodes] main_loop_result by (metis add_0)

section \<open>What is held\<close>

text \<open>The calls that acquire and release something, in the order the program makes them.\<close>

datatype call = Acquire resource bool | Release resource

definition traced :: "'w node_api \<Rightarrow> ('w \<times> call list) node_api" where
  "traced api =
     \<lparr>node_version = node_version api,
      ctx_init = (\<lambda>(w, cs) c. case ctx_init api w c of (ok, w') \<Rightarrow> (ok, w', cs @ [Acquire Context ok])),
      ctx_cleanup = (\<lambda>(w, cs). (ctx_cleanup api w, cs @ [Release Context])),
      server_create = (\<lambda>(w, cs) p. case server_create api w p of (ok, w') \<Rightarrow> (ok, w', cs @ [Acquire Server ok])),
      server_start = (\<lambda>(w, cs). case server_start api w of (err, w') \<Rightarrow> (err, w', cs @ [Acquire Listening (err = 0)])),
      server_stop = (\<lambda>(w, cs). (server_stop api w, cs @ [Release Listening])),
      server_destroy = (\<lambda>(w, cs). (server_destroy api w, cs @ [Release Server])),
      os_acquire = (\<lambda>r ok (w, cs). (os_acquire api r ok w, cs @ [Acquire r ok])),
      os_release = (\<lambda>r (w, cs). (os_release api r w, cs @ [Release r])),
      keeps_handle = keeps_handle api\<rparr>"

text \<open>Replays the calls on the stack of what is held; \<open>None\<close> when something is released that is not the
  last one acquired and still held.  Only threads may be joined in any order.\<close>

fun is_thread :: "resource \<Rightarrow> bool" where
  "is_thread (Raft_thread k) = True"
| "is_thread r = False"

fun let_go :: "resource \<Rightarrow> resource list \<Rightarrow> resource list option" where
  "let_go r [] = None"
| "let_go r (h # hs) =
     (if h = r then Some hs else if is_thread r \<and> is_thread h then map_option ((#) h) (let_go r hs) else None)"

fun replay :: "call list \<Rightarrow> resource list \<Rightarrow> resource list option" where
  "replay [] held = Some held"
| "replay (Acquire r ok # cs) held = replay cs (if ok then r # held else held)"
| "replay (Release r # cs) held = let_go r held \<bind> replay cs"

lemma replay_append: "replay (cs @ ds) held = replay cs held \<bind> replay ds"
  by (induction cs held rule: replay.induct) (auto split: Option.bind_split)

lemma traced_fields [simp]:
  "node_version (traced api) = node_version api" "keeps_handle (traced api) = keeps_handle api"
  by (simp_all add: traced_def)

lemma traced_calls:
  "ctx_init api w c = (ok, w') \<Longrightarrow> ctx_init (traced api) (w, cs) c = (ok, w', cs @ [Acquire Context ok])"
  "server_create api w p = (ok, w') \<Longrightarrow> server_create (traced api) (w, cs) p = (ok, w', cs @ [Acquire Server ok])"
  "server_start api w = (err, w') \<Longrightarrow>
     server_start (traced api) (w, cs) = (err, w', cs @ [Acquire Listening (err = 0)])"
  "ctx_cleanup (traced api) (w, cs) = (ctx_cleanup api w, cs @ [Release Context])"
  "server_destroy (traced api) (w, cs) = (server_destroy api w, cs @ [Release Server])"
  by (simp_all add: traced_def)

lemma release_server_traced:
  "release_server (traced api) (w, cs) =
     (release_server api w, cs @ [Release Listening, Release Server, Release Context])"
  by (simp add: release_server_def traced_def)

text \<open>The effects of the Raft functions, traced.\<close>

lemma create_raft_traced:
  obtains ds where "create_raft e (traced api) (w, cs) = (create_raft e api w, cs @ ds)"
    and "\<forall>held. replay ds held =
      Some (if xdevice_raft_create_node e (Some s) = None then held else [Raft_mutex, Log_memory, Raft_memory] @ held)"
proof
  let ?ds = "Acquire Raft_memory (r_alloc e 0) #
    (if \<not> r_alloc e 0 then []
     else Acquire Log_memory (r_alloc e 1) #
       (if \<not> r_alloc e 1 then [Release Raft_memory]
        else Acquire Raft_mutex (r_mutex e) # (if \<not> r_mutex e then [Release Log_memory, Release Raft_memory] else [])))"
  show "create_raft e (traced api) (w, cs) = (create_raft e api w, cs @ ?ds)"
    by (simp add: create_raft_def traced_def)
  show "\<forall>held. replay ?ds held =
      Some (if xdevice_raft_create_node e (Some s) = None then held else [Raft_mutex, Log_memory, Raft_memory] @ held)"
    by (simp add: xdevice_raft_create_node_def)
qed

lemma start_raft_traced:
  obtains ds where "start_raft e (traced api) (w, cs) = (start_raft e api w, cs @ ds)"
    and "\<forall>held. replay ds held =
      Some (if r_thread e 0 \<and> r_thread e 1 then [Raft_thread 1, Raft_thread 0] @ held else held)"
proof
  let ?ds = "Acquire (Raft_thread 0) (r_thread e 0) #
    (if \<not> r_thread e 0 then []
     else Acquire (Raft_thread 1) (r_thread e 1) # (if \<not> r_thread e 1 then [Release (Raft_thread 0)] else []))"
  show "start_raft e (traced api) (w, cs) = (start_raft e api w, cs @ ?ds)" by (simp add: start_raft_def traced_def)
  show "\<forall>held. replay ?ds held =
      Some (if r_thread e 0 \<and> r_thread e 1 then [Raft_thread 1, Raft_thread 0] @ held else held)"
    by simp
qed

lemma destroy_raft_traced:
  assumes "destroy_raft api (started_threads e keeps) w = Some w'"
  obtains ds where "destroy_raft (traced api) (started_threads e keeps) (w, cs) = Some (w', cs @ ds)"
    and "\<forall>held. replay ds ((if r_thread e 0 \<and> r_thread e 1 then [Raft_thread 1, Raft_thread 0] else []) @
      [Raft_mutex, Log_memory, Raft_memory] @ held) = Some held"
proof
  let ?ds = "(if r_thread e 0 \<and> r_thread e 1 then [Release (Raft_thread 0), Release (Raft_thread 1)] else []) @
    [Release Raft_mutex, Release Log_memory, Release Raft_memory]"
  show "destroy_raft (traced api) (started_threads e keeps) (w, cs) = Some (w', cs @ ?ds)"
    using assms
    by (cases "r_thread e 0"; cases "r_thread e 1"; cases keeps)
       (auto simp: destroy_raft_def started_threads_def join_threads_def traced_def Let_def)
  show "\<forall>held. replay ?ds ((if r_thread e 0 \<and> r_thread e 1 then [Raft_thread 1, Raft_thread 0] else []) @
      [Raft_mutex, Log_memory, Raft_memory] @ held) = Some held"
    by simp
qed

definition with_trace :: "call list \<Rightarrow> (int \<times> console list \<times> 'w) + ('n raft_node \<times> console list \<times> 'w)
    \<Rightarrow> (int \<times> console list \<times> 'w \<times> call list) + ('n raft_node \<times> console list \<times> 'w \<times> call list)" where
  "with_trace cs r = map_sum (\<lambda>(code, out, w). (code, out, w, cs)) (\<lambda>(n, out, w). (n, out, w, cs)) r"

text \<open>What a started node holds; a start that fails has released everything.\<close>

definition raft_held :: "resource list" where
  "raft_held = [Raft_thread 1, Raft_thread 0, Raft_mutex, Log_memory, Raft_memory]"

lemma started_both:
  assumes "node_start e api cfg w = Some (Inr st)"
  shows "r_thread e 0 \<and> r_thread e 1"
  using assms by (cases "r_thread e 0"; cases "r_thread e 1")
    (auto simp: node_start_def Let_def xdevice_raft_start_node_def bind_eq_Some_conv
      split: prod.splits bool.splits if_splits option.splits)

lemma node_start_traced:
  assumes "node_start e api cfg w = Some r"
  shows "\<exists>cs. node_start e (traced api) cfg (w, []) = Some (with_trace cs r) \<and>
    replay cs [] = Some (case r of Inl _ \<Rightarrow> [] | Inr _ \<Rightarrow> raft_held @ [Listening, Server, Context])"
proof -
  obtain ok1 w1 where 1: "ctx_init api w (config_file cfg) = (ok1, w1)" by fastforce
  obtain ok2 w2 where 2: "server_create api w1 (port cfg) = (ok2, w2)" by fastforce
  obtain err w3 where 3: "server_start api w2 = (err, w3)" by fastforce
  note calls = 1 2 3 traced_calls(1) [OF 1] traced_calls(2) [OF 2] traced_calls(3) [OF 3] traced_calls(4,5)
    release_server_traced
  show ?thesis
  proof (cases "ok1 \<and> ok2 \<and> err = 0")
    case False
    then show ?thesis using assms
      by (cases ok1; cases ok2) (auto simp: node_start_def calls Let_def with_trace_def)
  next
    case True
    let ?cs = "[Acquire Context True, Acquire Server True, Acquire Listening True]"
    obtain ds where ds: "create_raft e (traced api) (w3, ?cs) = (create_raft e api w3, ?cs @ ds)"
        "\<forall>held. replay ds held = Some (if xdevice_raft_create_node e (Some (node_name cfg)) = None then held
           else [Raft_mutex, Log_memory, Raft_memory] @ held)"
      by (rule create_raft_traced [where e = e and api = api and w = w3 and cs = ?cs and s = "node_name cfg"])
    show ?thesis
    proof (cases "xdevice_raft_create_node e (Some (node_name cfg))")
      case None
      with True assms ds show ?thesis by (auto simp: node_start_def calls Let_def with_trace_def replay_append)
    next
      case (Some n)
      let ?w4 = "create_raft e api w3" and ?cs' = "?cs @ ds"
      obtain es where es: "start_raft e (traced api) (?w4, ?cs') = (start_raft e api ?w4, ?cs' @ es)"
          "\<forall>held. replay es held =
             Some (if r_thread e 0 \<and> r_thread e 1 then [Raft_thread 1, Raft_thread 0] @ held else held)"
        by (rule start_raft_traced [where e = e and api = api and w = ?w4 and cs = ?cs'])
      have cs': "replay (?cs' @ es) [] = Some ((if r_thread e 0 \<and> r_thread e 1 then [Raft_thread 1, Raft_thread 0] else []) @
          [Raft_mutex, Log_memory, Raft_memory] @ [Listening, Server, Context])"
        by (simp add: replay_append ds(2) es(2) Some)
      show ?thesis
      proof (cases "r_thread e 0 \<and> r_thread e 1")
        case both: True
        then have "xdevice_raft_start_node e (Some n) (Some node_main_callbacks) =
            (XDEVICE_OK, Some (n\<lparr>callbacks := node_main_callbacks, running := True\<rparr>))"
          by (simp add: xdevice_raft_start_node_def Let_def)
        with True Some assms ds(1) es(1) cs' both show ?thesis
          by (auto simp: node_start_def calls Let_def with_trace_def raft_held_def)
      next
        case False
        let ?w5 = "start_raft e api ?w4" and ?ts = "started_threads e (keeps_handle api)"
        obtain n1 where n1: "xdevice_raft_start_node e (Some n) (Some node_main_callbacks) = (XDEVICE_ERROR, Some n1)"
          using False by (cases "r_thread e 0"; cases "r_thread e 1") (auto simp: xdevice_raft_start_node_def Let_def)
        obtain w6 where w6: "destroy_raft api ?ts ?w5 = Some w6"
          using True Some assms n1 by (auto simp: node_start_def calls Let_def bind_eq_Some_conv)
        obtain fs where fs: "destroy_raft (traced api) ?ts (?w5, ?cs' @ es) = Some (w6, (?cs' @ es) @ fs)"
            "\<forall>held. replay fs ((if r_thread e 0 \<and> r_thread e 1 then [Raft_thread 1, Raft_thread 0] else []) @
               [Raft_mutex, Log_memory, Raft_memory] @ held) = Some held"
          by (rule destroy_raft_traced [OF w6, of "?cs' @ es"])
        have "replay ((?cs' @ es) @ fs) [] = Some [Listening, Server, Context]"
          by (simp only: replay_append [of "?cs' @ es"] cs' bind.bind_lunit fs(2) [rule_format])
        then have rest: "replay (((?cs' @ es) @ fs) @ [Release Listening, Release Server, Release Context]) [] = Some []"
          by (simp only: replay_append [of "(?cs' @ es) @ fs"] bind.bind_lunit) simp
        from True Some assms ds(1) es(1) n1 w6 fs(1)
        have "node_start e (traced api) cfg (w, []) =
            Some (with_trace (((?cs' @ es) @ fs) @ [Release Listening, Release Server, Release Context]) r) \<and> isl r"
          by (auto simp: node_start_def calls Let_def with_trace_def)
        with rest show ?thesis by (auto split: sum.splits)
      qed
    qed
  qed
qed

section \<open>Properties\<close>

text \<open>Property C27.  Whatever the environment answers, the node program releases exactly what it acquired,
  once and in reverse order, on every path on which it ends: the context, the server, the listening
  socket, and the memory, the mutex and the two threads of the Raft node; only the threads, which are
  the last that it acquired, are joined in the order in which they were created.\<close>

theorem node_main_releases:
  assumes "node_main e api posixly build argv g_running nodes w = Some (code, out, w')"
  shows "\<exists>cs. node_main e (traced api) posixly build argv g_running nodes (w, []) = Some (code, out, w', cs) \<and>
    replay cs [] = Some []"
proof -
  obtain opts where opts: "node_options (hd (argv @ [[]])) (node_version api) build
      (fst (getopt_long posixly ''c:p:i:d:hv'' node_option_table (tl argv))) default_config = Some opts"
    using assms by (auto simp: node_main_def bind_eq_Some_conv)
  show ?thesis
  proof (cases opts)
    case (Inl stop)
    with assms opts show ?thesis by (cases stop) (simp add: node_main_def)
  next
    case (Inr cfg)
    obtain r where r: "node_start e api cfg w = Some r"
      using assms opts Inr by (auto simp: node_main_def bind_eq_Some_conv)
    obtain cs where cs: "node_start e (traced api) cfg (w, []) = Some (with_trace cs r)"
        "replay cs [] = Some (case r of Inl _ \<Rightarrow> [] | Inr _ \<Rightarrow> raft_held @ [Listening, Server, Context])"
      using node_start_traced [OF r] by blast
    show ?thesis
    proof (cases r)
      case (Inl stop)
      with assms opts Inr r cs show ?thesis by (auto simp: node_main_def with_trace_def)
    next
      case run: (Inr st)
      obtain node lines w1 where st: "st = (node, lines, w1)" by (cases st)
      obtain t w2 where t: "main_loop g_running nodes 0 = Some t"
          and w2: "destroy_raft api (started_threads e (keeps_handle api)) w1 = Some w2"
        using assms opts Inr r run st by (auto simp: node_main_def bind_eq_Some_conv)
      obtain ds where ds: "destroy_raft (traced api) (started_threads e (keeps_handle api)) (w1, cs) = Some (w2, cs @ ds)"
          "\<forall>held. replay ds ((if r_thread e 0 \<and> r_thread e 1 then [Raft_thread 1, Raft_thread 0] else []) @
             [Raft_mutex, Log_memory, Raft_memory] @ held) = Some held"
        by (rule destroy_raft_traced [OF w2, of cs])
      have "replay ds (raft_held @ [Listening, Server, Context]) = Some [Listening, Server, Context]"
        using ds(2) [THEN spec, of "[Listening, Server, Context]"] started_both [of e api cfg w st] r run by (simp add: raft_held_def)
      with assms opts Inr r run st t w2 ds(1) cs show ?thesis
        by (auto simp: node_main_def with_trace_def release_server_traced replay_append)
    qed
  qed
qed

definition quiet_api :: "unit node_api" where
  "quiet_api = \<lparr>node_version = ''1.0'', ctx_init = (\<lambda>w c. (True, w)), ctx_cleanup = id,
     server_create = (\<lambda>w p. (True, w)), server_start = (\<lambda>w. (0, w)), server_stop = id, server_destroy = id,
     os_acquire = (\<lambda>r ok. id), os_release = (\<lambda>r. id), keeps_handle = True\<rparr>"

lemma fresh_started:
  "xdevice_raft_start_node calm_raft_env (Some fresh_node) (Some node_main_callbacks) =
     (XDEVICE_OK, Some (fresh_node\<lparr>callbacks := node_main_callbacks, running := True\<rparr>))"
  by (simp add: xdevice_raft_start_node_def calm_raft_env_def)

definition quiet_config :: node_config where
  "quiet_config = default_config\<lparr>node_name := ''n1'', port := 9090\<rparr>"

lemma quiet_options:
  "node_options ''xdevice-node'' ''1.0'' ''today''
     (fst (getopt_long False ''c:p:i:d:hv'' node_option_table [''--port=9090'', ''-i'', ''n1''])) default_config =
   Some (Inr quiet_config)"
  by code_simp

lemma quiet_start:
  obtains out where "node_start calm_raft_env quiet_api quiet_config () =
    Some (Inr (fresh_node\<lparr>callbacks := node_main_callbacks, running := True\<rparr>, out, ()))"
  using fresh_node_eq fresh_started
  by (simp add: node_start_def quiet_api_def quiet_config_def default_config_def Let_def create_raft_def start_raft_def)

text \<open>Property C28.  Once it is started, the node program ends exactly when a signal clears \<open>g_running\<close>: it
  then joins both threads, destroys the Raft node, releases the server and the context and returns 0,
  and without a signal it runs for ever.\<close>

theorem node_main_terminates:
  assumes opts: "node_options prog (node_version api) build
      (fst (getopt_long posixly ''c:p:i:d:hv'' node_option_table args)) default_config = Some (Inr cfg)"
    and start: "node_start e api cfg w = Some (Inr (node, out, w1))"
  shows "\<exists>w2. destroy_raft api (Started, Started) w1 = Some w2 \<and>
    node_main e api posixly build (prog # args) g_running nodes w =
    (if \<exists>t. \<not> g_running t
     then Some (0, out @ [Out ''Shutting down server...'', Out ''Server stopped''], release_server api w2) else None)"
proof -
  have ts: "started_threads e (keeps_handle api) = (Started, Started)"
    using started_both [OF start] by (simp add: started_threads_def)
  obtain w2 where w2: "destroy_raft api (Started, Started) w1 = Some w2"
    by (simp add: destroy_raft_def join_threads_def)
  then have "node_main e api posixly build (prog # args) g_running nodes w =
      main_loop g_running nodes 0 \<bind>
        (\<lambda>t. Some (0, out @ [Out ''Shutting down server...'', Out ''Server stopped''], release_server api w2))"
    using opts start ts by (simp add: node_main_def)
  then show ?thesis
    using main_loop_iff [of g_running nodes] w2 by (cases "main_loop g_running nodes 0") auto
qed

theorem node_main_terminates_witness:
  "\<exists>out. node_main calm_raft_env quiet_api False ''today'' [''xdevice-node'', ''--port=9090'', ''-i'', ''n1''] (\<lambda>t. t < 5)
    (\<lambda>t. fresh_node) () = Some (0, out, ())"
proof -
  have v: "node_version quiet_api = ''1.0''" by (simp add: quiet_api_def)
  obtain out where "node_start calm_raft_env quiet_api quiet_config () =
      Some (Inr (fresh_node\<lparr>callbacks := node_main_callbacks, running := True\<rparr>, out, ()))"
    by (rule quiet_start)
  from node_main_terminates [OF quiet_options [folded v] this, of "\<lambda>t. t < 5" "\<lambda>t. fresh_node"]
  show ?thesis by (auto intro: exI [of _ "5 :: nat"])
qed

theorem node_main_releases_witness:
  "\<exists>out w' cs. node_main calm_raft_env (traced quiet_api) False ''today'' [''xdevice-node'', ''--port=9090'', ''-i'', ''n1'']
     (\<lambda>t. False) (\<lambda>t. fresh_node) ((), []) = Some (0, out, w', cs) \<and> replay cs [] = Some []"
proof -
  have v: "node_version quiet_api = ''1.0''" by (simp add: quiet_api_def)
  obtain out where s: "node_start calm_raft_env quiet_api quiet_config () =
      Some (Inr (fresh_node\<lparr>callbacks := node_main_callbacks, running := True\<rparr>, out, ()))"
    by (rule quiet_start)
  have "destroy_raft quiet_api (started_threads calm_raft_env (keeps_handle quiet_api)) () = Some ()"
    by (simp add: destroy_raft_def join_threads_def started_threads_def calm_raft_env_def)
  then have "\<exists>out. node_main calm_raft_env quiet_api False ''today'' [''xdevice-node'', ''--port=9090'', ''-i'', ''n1''] (\<lambda>t. False)
     (\<lambda>t. fresh_node) () = Some (0, out, ())"
    using quiet_options s by (simp add: node_main_def v main_loop_eq del: getopt_long.simps)
  then show ?thesis using node_main_releases by metis
qed

text \<open>Property C30.  When the second thread of the Raft node cannot be created, the start of the program is
  undefined: \<open>xdevice_raft_start_node\<close> has joined the election thread already, and
  \<open>xdevice_raft_destroy_node\<close>, which the error path of \<open>main\<close> calls, joins it again.\<close>

theorem node_start_joins_twice:
  assumes "ctx_init api w (config_file cfg) = (True, w1)" and "server_create api w1 (port cfg) = (True, w2)"
    and "server_start api w2 = (0, w3)" and "xdevice_raft_create_node e (Some (node_name cfg)) = Some node"
    and "r_thread e 0" and "\<not> r_thread e 1"
  shows "node_start e api cfg w = None"
  using assms by (simp add: node_start_def Let_def xdevice_raft_start_node_def started_threads_def join_threads_def destroy_raft_def)

theorem node_start_joins_twice_witness:
  "node_start (calm_raft_env\<lparr>r_thread := \<lambda>k. k = 0\<rparr>) quiet_api quiet_config () = None"
proof -
  have "xdevice_raft_create_node (calm_raft_env\<lparr>r_thread := \<lambda>k. k = 0\<rparr>) (Some (node_name quiet_config)) = Some fresh_node"
    using fresh_node_eq by (simp add: xdevice_raft_create_node_def quiet_config_def calm_raft_env_def)
  then show ?thesis by (intro node_start_joins_twice) (simp_all add: quiet_api_def)
qed

text \<open>A decimal number is read back, whatever the sign handling does with other texts.\<close>

lemma atoi_dec_string:
  assumes "n < 2 ^ 31"
  shows "atoi (dec_string n) = Some (int n)"
proof -
  obtain c ds where c: "dec_string n = c # ds" by (cases "dec_string n") auto
  then have "is_digit c" using dec_string_digits [of n] by simp
  note plain = digit_plain [OF this]
  have "takeWhile is_digit (dec_string n) = dec_string n"
    using span_digits(1) [OF dec_string_digits, of "[]" n] by simp
  then show ?thesis using assms plain digits_val_dec_string [of n] by (simp add: atoi_def c)
qed

text \<open>Fact.  A port number is not checked but cut to 16 bits: \<open>-p 70000\<close> makes the node listen on
  port 4464.\<close>

theorem node_port_wraps:
  assumes "n < 2 ^ 31"
  shows "\<exists>cfg. node_options prog version build
      (fst (getopt_long posixly ''c:p:i:d:hv'' node_option_table [''-p'', dec_string n])) default_config =
        Some (Inr cfg) \<and> unat (port cfg) = n mod 2 ^ 16"
proof -
  have "fst (getopt_long posixly ''c:p:i:d:hv'' node_option_table [''-p'', dec_string n]) =
      [Opt (CHR ''p'') (Some (dec_string n))]"
    by (simp add: is_option_def argument_events_def)
  then show ?thesis using atoi_dec_string [OF assms] by (simp add: unat_of_nat)
qed

theorem node_port_wraps_witness:
  "\<exists>cfg. node_options ''xdevice-node'' ''1.0'' ''today''
      (fst (getopt_long False ''c:p:i:d:hv'' node_option_table [''-p'', dec_string 70000])) default_config =
        Some (Inr cfg) \<and> unat (port cfg) = 4464"
  using node_port_wraps [of 70000 "''xdevice-node''" "''1.0''" "''today''" False] by simp

section \<open>The Raft node of the program\<close>

text \<open>The program adds no member to the cluster, so that its node counts only its own vote.\<close>

definition alone :: "u64 \<Rightarrow> 'n raft_node \<Rightarrow> bool" where
  "alone timeout n \<longleftrightarrow> node_wf n \<and> cluster_size n = 0 \<and>
     (state n = XDEVICE_NODE_LEADER \<and> current_term n = 1 \<or>
      state n = XDEVICE_NODE_FOLLOWER \<and> current_term n = 0 \<and> election_timeout n = timeout)"

lemma node_start_alone:
  assumes "node_start e api cfg w = Some (Inr (n, out, w1))"
  shows "alone (election_timeout n) n \<and> state n = XDEVICE_NODE_FOLLOWER"
proof -
  obtain n0 where n0: "xdevice_raft_create_node e (Some (node_name cfg)) = Some n0"
      "n = n0\<lparr>callbacks := node_main_callbacks, running := True\<rparr>"
    using assms by (auto simp: node_start_def Let_def xdevice_raft_start_node_def bind_eq_Some_conv
        split: prod.splits bool.splits if_splits option.splits)
  have "raft_ok n0" by (rule raft_create_ok [OF n0(1)])
  moreover have "cluster_size n0 = 0" "state n0 = XDEVICE_NODE_FOLLOWER" "current_term n0 = 0"
    using n0(1) by (auto simp: xdevice_raft_create_node_def reset_election_timer_def split: if_splits)
  ultimately show ?thesis
    by (simp add: n0(2) alone_def raft_ok_def node_wf_def arrays_wf_def log_wf_def raft_log_def)
qed

lemma alone_heartbeat: "alone t n \<Longrightarrow> \<exists>n'. heartbeat_tick e n = Some n' \<and> alone t n' \<and> state n' = state n"
  by (auto simp: heartbeat_tick_def alone_def Let_def node_wf_def arrays_wf_def log_wf_def raft_log_def)

lemma alone_election:
  assumes "alone t n"
  shows "\<exists>n'. election_tick e n = Some n' \<and> alone t n' \<and>
    (state n' = XDEVICE_NODE_LEADER \<longleftrightarrow> state n = XDEVICE_NODE_LEADER \<or> t \<le> get_current_time_ms (clock e 0))"
proof (cases "state n \<noteq> XDEVICE_NODE_LEADER \<and> election_timeout n \<le> get_current_time_ms (clock e 0)")
  case False
  then have "election_tick e n = Some n" by (auto simp: election_tick_def)
  then show ?thesis using assms False by (auto simp: alone_def)
next
  case True
  let ?m = "(start_election e n)\<lparr>state := XDEVICE_NODE_LEADER, last_heartbeat := 0\<rparr>"
  have "election_tick e n = Some ?m" using assms True by (simp add: election_tick_def alone_def)
  moreover have "alone t ?m"
    using assms True log_wf_term [of n ?m] by (auto simp: alone_def node_wf_def arrays_wf_def)
  ultimately show ?thesis using assms True by (auto simp: alone_def)
qed

text \<open>Property C29.  The node that the program starts elects itself: however its threads interleave, whatever
  the network does and without undefined behaviour, it is a follower of term 0 until the first
  pass of the election thread after its timer, and from then on the leader of term 1 for ever.  Two
  nodes of one cluster are therefore both leaders of term 1.\<close>

theorem node_elects_itself:
  assumes "node_start e api cfg w = Some (Inr (n, out, w1))"
  shows "\<exists>m. raft_run es turn k n = Some m \<and>
    (state m, current_term m) =
      (if \<exists>j < k. turn j \<and> election_timeout n \<le> get_current_time_ms (clock (es j) 0)
       then (XDEVICE_NODE_LEADER, 1) else (XDEVICE_NODE_FOLLOWER, 0))"
proof -
  let ?due = "\<lambda>j. turn j \<and> election_timeout n \<le> get_current_time_ms (clock (es j) 0)"
  have "\<exists>m. raft_run es turn k n = Some m \<and> alone (election_timeout n) m \<and>
      (state m = XDEVICE_NODE_LEADER \<longleftrightarrow> (\<exists>j < k. ?due j))"
  proof (induction k)
    case 0
    then show ?case using node_start_alone [OF assms] by simp
  next
    case (Suc k)
    then obtain m where m: "raft_run es turn k n = Some m" "alone (election_timeout n) m"
        "state m = XDEVICE_NODE_LEADER \<longleftrightarrow> (\<exists>j < k. ?due j)" by blast
    obtain m' where "(if turn k then election_tick (es k) m else heartbeat_tick (es k) m) = Some m'"
        "alone (election_timeout n) m'" "state m' = XDEVICE_NODE_LEADER \<longleftrightarrow> state m = XDEVICE_NODE_LEADER \<or> ?due k"
      using alone_election [OF m(2), of "es k"] alone_heartbeat [OF m(2), of "es k"] by (cases "turn k") auto
    with m show ?case by (auto simp: less_Suc_eq)
  qed
  then show ?thesis by (auto simp: alone_def)
qed

theorem node_elects_itself_witness:
  "\<exists>m. raft_run (\<lambda>_. calm_raft_env\<lparr>clock := \<lambda>_. \<lparr>tv_s = 1700000001, tv_us = 0\<rparr>\<rparr>) (\<lambda>k. k = 2) 5
      (fresh_node\<lparr>callbacks := node_main_callbacks, running := True\<rparr>) = Some m \<and>
    (state m, current_term m) = (XDEVICE_NODE_LEADER, 1)"
proof -
  let ?n = "fresh_node\<lparr>callbacks := node_main_callbacks, running := True\<rparr>"
  let ?e = "calm_raft_env\<lparr>clock := \<lambda>_. \<lparr>tv_s = 1700000001, tv_us = 0\<rparr>\<rparr>"
  obtain out where s: "node_start calm_raft_env quiet_api quiet_config () = Some (Inr (?n, out, ()))" by (rule quiet_start)
  have "election_timeout ?n \<le> get_current_time_ms (clock ?e 0)"
    by (simp add: fresh_node_def xdevice_raft_create_node_def calm_raft_env_def reset_election_timer_def
        generate_election_timeout_def get_current_time_ms_def RAFT_ELECTION_TIMEOUT_MIN_MS_def
        RAFT_ELECTION_TIMEOUT_MAX_MS_def)
  then have "\<exists>j < (5 :: nat). j = 2 \<and> election_timeout ?n \<le> get_current_time_ms (clock ?e 0)" by auto
  with node_elects_itself [OF s, of "\<lambda>_. ?e" "\<lambda>k. k = 2" 5] show ?thesis by (simp only: if_True)
qed

end
