(* ===== verification/Spec2Isabelle.thy ===== *)
theory Spec2Isabelle
  imports XD_Adapter XD_WalCrash XD_StorageTest XD_RaftRun XD_Node
begin

text \<open>
  \<^bold>\<open>Verification of xDevice\<close>, a distributed block device service written in C: a storage manager
  that routes requests to pluggable backends, a write-ahead log, and a Raft node that replicates a
  log through callbacks.  File names below are relative to the \<open>src\<close> directory of the repository
  and to its \<open>include\<close> directory.

  \<^bold>\<open>The program and its model.\<close>

  \<^item> \<open>include/xdevice.h\<close>, \<open>include/storage_interface.h\<close> \<midarrow> theories \<open>XD_Types\<close> and \<open>XD_Iface\<close>.  Error
    codes, states, backend types, information and operation structures, statistics, and \<open>storage_interface_t\<close> as a record of an object
    (type, name, private data) and a table of optional functions.  \<open>XD_Iface\<close> also defines the abstract
    file store (\<open>file_write\<close>, \<open>file_read\<close>) and the contract of a backend, locale \<open>byte_store\<close>.
  \<^item> \<open>storage/mock_storage.c\<close> \<midarrow> theory \<open>XD_Mock\<close>.  The private data is the record
    \<open>mock_storage_private\<close>, its linked list of files a list in the same order; each function is the
    definition of the same name.  \<open>mock_inv\<close> is the invariant, \<open>mock_contents\<close> the abstraction to the
    file store; the interpretation \<open>mock_store\<close> shows that the backend keeps the contract.
  \<^item> \<open>storage/storage_manager.c\<close>, lines 1 to 300 \<midarrow> theory \<open>XD_Manager\<close>.  The manager holds addresses
    of interface objects, which live in the heap \<open>objs\<close>; calls go through the function tables.
    \<open>registered\<close> abstracts the array and its counter to a list, on which \<open>spec_register\<close> and
    \<open>spec_unregister\<close> specify the registry.  The locale \<open>storage_backend\<close> is what the manager asks of
    a backend; its sublocale \<open>managed\<close> proves that the manager then keeps \<open>byte_store\<close> itself, and
    \<open>mock_mgr\<close> interprets it on the in-memory backend.
  \<^item> \<open>storage/storage_manager.c\<close>, lines 302 to 481 \<midarrow> theory \<open>XD_Adapter\<close>.  The Raft storage adapter
    over the manager; the locale \<open>keyed_store\<close> is the view of its clients, \<open>adapter_keys\<close> its
    interpretation on the names the adapter builds.
  \<^item> \<open>storage/wal_engine.c\<close> \<midarrow> theories \<open>XD_Crc32\<close>, \<open>XD_Wal\<close> and \<open>XD_WalCrash\<close>.  The checksum, with polynomial
    division by the generator of CRC-32 as its reference; the header and record structures with their bytes and padding; the engine over the
    mapped bytes and the bytes on the device.  \<open>wal_scan\<close> is the reference reading of a log.
    The reachable states \<open>wal_reachable\<close> start with a new file; when a file is accepted
    again, and that reopening it restarts the log, is shown apart from them.
    \<open>crash_image\<close> says what a file may hold after a crash: the synced bytes, and anything behind them.
  \<^item> \<open>storage/local_storage.c\<close> \<midarrow> theories \<open>XD_Vfs\<close>, \<open>XD_Local\<close> and \<open>XD_LocalSession\<close>.  \<open>XD_Vfs\<close> models
    the POSIX calls over names, directories, inodes and open files; its locale \<open>descriptor_io\<close> is the
    contract of positioned transfers, \<open>vfs_io\<close> its interpretation.  \<open>XD_Local\<close> has the paths, the
    descriptor cache and the operations, \<open>XD_LocalSession\<close> the invariant \<open>local_wf\<close>, the effect of writes
    and reads on the files (\<open>file_data\<close>) and the properties.
  \<^item> \<open>distributed/raft.c\<close>, and the two network callbacks of \<open>main/node_main.c\<close> \<midarrow> theory \<open>XD_Raft\<close>.
    The two threads are the step functions \<open>election_tick\<close> and \<open>heartbeat_tick\<close> (one pass of the loop
    body under the lock); the peers behind the callbacks are parameters.  \<open>XD_RaftRun\<close> interleaves the
    passes of both threads along a schedule and shows that elections make progress and that the log
    of a running node only grows.
  \<^item> \<open>main/cli_main.c\<close> \<midarrow> theories \<open>XD_Getopt\<close>, \<open>XD_Numbers\<close> and \<open>XD_Cli\<close>.  \<open>XD_Getopt\<close> is \<open>getopt_long\<close>
    as a function from arguments to the options it returns and the arguments left over; \<open>XD_Numbers\<close>
    has IEEE doubles, \<open>strtod\<close>, \<open>atoi\<close> and the conversions of \<open>printf\<close> that the program uses.  \<open>XD_Cli\<close>
    has one definition per command; its output is a list of lines, its exit code the first component.
    The functions of \<open>include/xdevice.h\<close> that the commands call are the record \<open>cli_api\<close>.
  \<^item> \<open>main/node_main.c\<close> \<midarrow> theory \<open>XD_Node\<close>.  The options, the start of the parts (\<open>node_start\<close>), the main
    loop and the whole program (\<open>node_main\<close>); context, network server and the effects of the Raft functions
    on memory, mutex and threads (\<open>create_raft\<close>, \<open>start_raft\<close>, \<open>destroy_raft\<close>) go through the record
    \<open>node_api\<close>.  \<open>traced\<close> records the calls that acquire and release, \<open>replay\<close> says when they match.
  \<^item> \<open>test/storage_test.c\<close> \<midarrow> theory \<open>XD_StorageTest\<close>.  The five tests and the program that runs them, over the
    models of the backends, the manager and the adapter.  \<open>mock_holds\<close> and \<open>mock_managed\<close> say which files
    an in-memory backend holds, alone and behind a manager; the lemmas about them are the client view of
    the two components when no resource is missing.
  \<^item> \<open>XD_Prelude\<close> has the machine words, memory blocks, strings, encodings and clock arithmetic the
    other theories share, \<open>XD_Log\<close> the contract \<open>append_log\<close> that the write-ahead log (\<open>wal_alog\<close>) and
    the replicated log (\<open>raft_alog\<close>) both provide.

  \<^bold>\<open>Conventions.\<close>  A result \<open>None\<close> of an operation that touches memory is undefined behaviour of the C
  program; error codes are ordinary results.  Null pointers are \<open>None\<close> arguments.  What the C library
  and the operating system answer (time, random numbers, allocation, locks, system calls,
  indeterminate memory) is a record argument of each operation, so that every theorem holds for all
  their answers.  Operations run under their mutex are single steps; where code runs outside it and
  a claim depends on that, the parts are separate definitions (\<open>add_node_check\<close>, \<open>add_node_locked\<close>).
  Messages to the console and the pauses of \<open>simulate_delay\<close> change no state and are left out of the
  storage and Raft operations; the output of the two programs is modelled.

  \<^bold>\<open>What is shown.\<close>
  \<^item> Storage: writes to the in-memory backend refine the file store on every branch, with the exact cause
    of each code (\<open>mock_write_code\<close>), reads return what was written, the invariant holds in every state
    that clients with names and writes of allowed length reach, deletion and lookups are exact; the same
    through a manager that routes to that backend; the registry operations of the manager refine their
    specification and its selection obeys the configured priority; adapter values stored through such a
    manager are independent of each other and read back unchanged.
  \<^item> Write-ahead log: appends extend the log by exactly the new record, from a new file on sequence numbers
    ascend, a successful sync makes the whole log durable and a crash loses only records above the last
    synced number; the checksum is the CRC-32 of the standard.
  \<^item> Raft: election safety under one vote per member, the outcomes of an election with the answers that lead
    to them, a gap-free log with ascending terms, an append-only log over every run, freedom from undefined
    behaviour of the election thread in every reachable state and of the heartbeat thread in every
    settled one (which only a join while the node leads can unsettle), and a leader once the peers answer
    and the timer has run out.
  \<^item> Local files: the descriptor cache is well formed in every reachable state, a successful write
    refines the file store and survives a restart, the exact condition for an undefined write.
  \<^item> Programs: sizes are read exactly and displayed to the nearest hundredth, a command behind \<open>--\<close> makes
    its one call, the node program releases what it acquired, the Raft node and its threads included, on
    every path on which it ends, and it ends exactly when a signal arrives.
  \<^item> The repository's test program: it passes on the in-memory backend, the manager and the adapter, with
    all operations of the performance run counted in the statistics it prints, and never on the local
    backend.
  \<^item> Flaws of the code, as theorems about it: writes that overrun the size limit or wrap around, names
    that are cut off, a log file that cannot be reopened, checksums over indeterminate bytes, stale
    ends of saved values, a backend destroyed by registering it twice, a failover flag without effect,
    heartbeats that read outside the log after a member joins, a race in the membership test, votes
    read from indeterminate memory, local files that cannot be read after a write in the same session,
    writes lost after a deletion, undefined writes in the root directory, command line options that no
    command can receive, a thread joined twice when the start of the Raft node fails, a node program
    whose Raft node has no peers and elects itself.

  \<^bold>\<open>Bounds.\<close>  Loops of the code are structural recursions over index lists, so that no fuel is needed;
  \<open>wal_scan\<close> terminates because every record has a header.  The main loop of the node program may run
  for ever and is a \<open>partial_function\<close>; not returning is \<open>None\<close>.  Writes are taken below \<open>2 ^ 63\<close> bytes, the
  largest object size of the platform; records of the write-ahead log below \<open>2 ^ 32\<close> bytes, which is
  what their length field holds; sequence numbers and terms are not taken past \<open>2 ^ 64\<close>.

  \<^bold>\<open>Not modelled.\<close>  The functions that the headers declare and no source file implements
  (\<open>xdevice_init\<close>, \<open>xdevice_create_device\<close>, the message handlers of \<open>raft.h\<close> and others) and the network
  server of the missing \<open>network.h\<close>: the programs take them as parameters.  The messages that \<open>getopt_long\<close> itself prints.
\<close>

end
